theory Spec2Isabelle
  imports Main "HOL-Library.Word" "HOL-Library.Multiset" "HOL-Library.Char_ord" "HOL-Library.List_Lexorder"
    "HOL-Library.Product_Lexorder"
begin

section \<open>Values, result codes and errors\<close>

text \<open>
  The embedded engine is used through its C interface. A column or parameter value is one
  of the engine's storage classes; floating point values are left out of the model.
  An integer is kept as an unbounded \<open>int\<close> and cut to the width of the accessor that
  reads it. Text is a list of 8-bit code units.
\<close>

type_synonym byte = "8 word"

datatype "value" = SQL_NULL | SQL_INTEGER int | SQL_TEXT string | SQL_BLOB "byte list"

type_synonym row = "value list"

text \<open>Result codes: the three the code tests for, and every other code as a failure.\<close>

datatype rc = SQLITE_OK | SQLITE_ROW | SQLITE_DONE | SQLITE_FAIL int

text \<open>
  The managed exceptions the code throws. \<open>SQLiteException\<close> keeps the engine's numeric
  code (the message text is dropped); \<open>Exception\<close> is the generic exception with its message.
\<close>

datatype exn =
    ArgumentNullException string
  | SQLiteException rc
  | Exception string
  | ObjectDisposedException

section \<open>The engine behind prepare, bind, step and finalize\<close>

text \<open>
  The engine is a black box. What it does with a statement is a parameter of the model:
  \<open>compile\<close> is what \<open>sqlite3_prepare16_v2\<close> answers for a statement text on the
  current store (a failure code, or a compiled program), and a compiled program says how
  many parameters it has and, run on the bound parameters and the store, which rows it
  returns, how it completes (\<open>None\<close> is \<open>SQLITE_DONE\<close>, \<open>Some e\<close> the failure code
  \<open>e\<close>), which store it leaves, and the change count it sets (\<open>None\<close> leaves the
  connection's count as it was).
  \<open>text_int\<close> is the engine's numeric reading of a text or blob column.
\<close>

record 'd outcome =
  rows :: "row list"
  final :: "int option"
  after :: 'd
  changed :: "int option"

record 'd program =
  nparams :: nat
  run :: "(nat \<Rightarrow> value) \<Rightarrow> 'd \<Rightarrow> 'd outcome"

record ('q, 'd) engine =
  compile :: "'q \<Rightarrow> 'd \<Rightarrow> int + 'd program"
  text_int :: "string \<Rightarrow> int"
  blob_int :: "byte list \<Rightarrow> int"

text \<open>The last argument of \<open>sqlite3_bind_text16\<close>: who owns the buffer.\<close>

datatype destructor = SQLITE_STATIC | SQLITE_TRANSIENT

text \<open>
  Every call made to the engine is recorded on the connection, in order, so that what the
  code asked of the engine can be stated. \<open>handles\<close> counts the statement handles that
  were prepared and not yet finalized.
\<close>

datatype 'q call =
    Prepare 'q
  | Bind_text16 nat string destructor
  | Bind_null nat
  | Step
  | Clear_bindings
  | Reset
  | Finalize

record ('q, 'd) conn =
  store :: 'd
  handles :: nat
  changes :: int
  calls :: "'q call list"

record 'd stmt =
  prog :: "'d program"
  bound :: "nat \<Rightarrow> value"
  started :: bool
  pending :: "row list"
  fin :: "int option"
  current :: row

text \<open>A connection that has just been opened on a store.\<close>

definition fresh_conn :: "'d \<Rightarrow> ('q, 'd) conn" where
  "fresh_conn d = \<lparr>store = d, handles = 0, changes = 0, calls = []\<rparr>"

definition record_call :: "'q call \<Rightarrow> ('q, 'd) conn \<Rightarrow> ('q, 'd) conn" where
  "record_call k c = c\<lparr>calls := calls c @ [k]\<rparr>"

definition sqlite3_prepare16_v2 ::
  "('q, 'd) engine \<Rightarrow> ('q, 'd) conn \<Rightarrow> 'q \<Rightarrow> ('q, 'd) conn \<times> (rc \<times> 'd stmt option)" where
  "sqlite3_prepare16_v2 E c q =
     (case compile E q (store c) of
        Inl e \<Rightarrow> (record_call (Prepare q) c, (SQLITE_FAIL e, None))
      | Inr p \<Rightarrow>
          ((record_call (Prepare q) c)\<lparr>handles := Suc (handles c)\<rparr>,
           (SQLITE_OK,
            Some \<lparr>prog = p, bound = (\<lambda>_. SQL_NULL), started = False, pending = [],
                  fin = None, current = []\<rparr>)))"

text \<open>A parameter index outside \<open>1..nparams\<close> is refused with \<open>SQLITE_RANGE\<close> (25).\<close>

definition sqlite3_bind_text16 ::
  "('q, 'd) conn \<times> 'd stmt \<Rightarrow> nat \<Rightarrow> string \<Rightarrow> destructor \<Rightarrow> (('q, 'd) conn \<times> 'd stmt) \<times> rc" where
  "sqlite3_bind_text16 cs i s d =
     (let c = record_call (Bind_text16 i s d) (fst cs); st = snd cs in
      if 1 \<le> i \<and> i \<le> nparams (prog st)
      then ((c, st\<lparr>bound := (bound st)(i := SQL_TEXT s)\<rparr>), SQLITE_OK)
      else ((c, st), SQLITE_FAIL 25))"

definition sqlite3_bind_null ::
  "('q, 'd) conn \<times> 'd stmt \<Rightarrow> nat \<Rightarrow> (('q, 'd) conn \<times> 'd stmt) \<times> rc" where
  "sqlite3_bind_null cs i =
     (let c = record_call (Bind_null i) (fst cs); st = snd cs in
      if 1 \<le> i \<and> i \<le> nparams (prog st)
      then ((c, st\<lparr>bound := (bound st)(i := SQL_NULL)\<rparr>), SQLITE_OK)
      else ((c, st), SQLITE_FAIL 25))"

text \<open>
  The first step of a statement runs its program; every step then hands out the next
  pending row, or the completion code once the rows are used up.
\<close>

definition sqlite3_step :: "('q, 'd) conn \<times> 'd stmt \<Rightarrow> (('q, 'd) conn \<times> 'd stmt) \<times> rc" where
  "sqlite3_step cs =
     (let c0 = record_call Step (fst cs); s0 = snd cs;
          (c, st) =
            (if started s0 then (c0, s0)
             else (let out = run (prog s0) (bound s0) (store c0) in
                   (c0\<lparr>store := after out,
                       changes := (case changed out of None \<Rightarrow> changes c0 | Some n \<Rightarrow> n)\<rparr>,
                    s0\<lparr>started := True, pending := rows out, fin := final out\<rparr>)))
      in case pending st of
           r # rs \<Rightarrow> ((c, st\<lparr>pending := rs, current := r\<rparr>), SQLITE_ROW)
         | [] \<Rightarrow> ((c, st), (case fin st of None \<Rightarrow> SQLITE_DONE | Some e \<Rightarrow> SQLITE_FAIL e)))"

definition sqlite3_clear_bindings ::
  "('q, 'd) conn \<times> 'd stmt \<Rightarrow> (('q, 'd) conn \<times> 'd stmt) \<times> rc" where
  "sqlite3_clear_bindings cs =
     ((record_call Clear_bindings (fst cs), (snd cs)\<lparr>bound := (\<lambda>_. SQL_NULL)\<rparr>), SQLITE_OK)"

text \<open>
  \<open>sqlite3_reset\<close> makes the statement ready to run again and reports the failure of the
  run it ends, if that run failed.
\<close>

definition sqlite3_reset ::
  "('q, 'd) conn \<times> 'd stmt \<Rightarrow> (('q, 'd) conn \<times> 'd stmt) \<times> rc" where
  "sqlite3_reset cs =
     (let st = snd cs in
      ((record_call Reset (fst cs), st\<lparr>started := False, pending := [], fin := None, current := []\<rparr>),
       (if started st \<and> pending st = [] then (case fin st of None \<Rightarrow> SQLITE_OK | Some e \<Rightarrow> SQLITE_FAIL e)
        else SQLITE_OK)))"

definition sqlite3_finalize :: "('q, 'd) conn \<times> 'd stmt \<Rightarrow> ('q, 'd) conn" where
  "sqlite3_finalize cs = (record_call Finalize (fst cs))\<lparr>handles := handles (fst cs) - 1\<rparr>"

definition sqlite3_changes :: "('q, 'd) conn \<Rightarrow> int" where
  "sqlite3_changes c = changes c"

text \<open>
  Column accessors on the current row; a column that is not there reads as null.
  \<open>sqlite3_column_int64\<close> reads a value as a signed 64-bit integer and
  \<open>sqlite3_column_int\<close> keeps the low 32 bits of that.
\<close>

definition cell :: "row \<Rightarrow> nat \<Rightarrow> value" where
  "cell r i = (if i < length r then r ! i else SQL_NULL)"

definition value_int64 :: "('q, 'd) engine \<Rightarrow> value \<Rightarrow> int" where
  "value_int64 E v =
     (case v of
        SQL_NULL \<Rightarrow> 0
      | SQL_INTEGER n \<Rightarrow> sint (word_of_int n :: 64 word)
      | SQL_TEXT s \<Rightarrow> sint (word_of_int (text_int E s) :: 64 word)
      | SQL_BLOB b \<Rightarrow> sint (word_of_int (blob_int E b) :: 64 word))"

definition value_int :: "('q, 'd) engine \<Rightarrow> value \<Rightarrow> int" where
  "value_int E v = sint (word_of_int (value_int64 E v) :: 32 word)"

definition sqlite3_column_int64 :: "('q, 'd) engine \<Rightarrow> 'd stmt \<Rightarrow> nat \<Rightarrow> int" where
  "sqlite3_column_int64 E st i = value_int64 E (cell (current st) i)"

definition sqlite3_column_int :: "('q, 'd) engine \<Rightarrow> 'd stmt \<Rightarrow> nat \<Rightarrow> int" where
  "sqlite3_column_int E st i = value_int E (cell (current st) i)"

section \<open>Statement execution helpers (Database.cpp)\<close>

text \<open>
  \<open>bind_parameter\<close> binds one \<open>String^\<close> parameter (\<open>None\<close> is the null reference) at
  \<open>paramindex\<close> and increments the index; a result other than \<open>SQLITE_OK\<close> is thrown.
\<close>

definition bind_parameter ::
  "('q, 'd) conn \<times> 'd stmt \<Rightarrow> nat \<Rightarrow> string option \<Rightarrow> ((('q, 'd) conn \<times> 'd stmt) \<times> nat) \<times> exn option" where
  "bind_parameter cs paramindex v =
     (let (cs', result) =
            (case v of
               Some s \<Rightarrow> sqlite3_bind_text16 cs paramindex s SQLITE_TRANSIENT
             | None \<Rightarrow> sqlite3_bind_null cs paramindex)
      in ((cs', Suc paramindex),
          (if result \<noteq> SQLITE_OK then Some (SQLiteException result) else None)))"

text \<open>The parameter pack is unpacked left to right; the first throw ends the unpacking.\<close>

fun bind_parameters ::
  "('q, 'd) conn \<times> 'd stmt \<Rightarrow> nat \<Rightarrow> string option list \<Rightarrow> (('q, 'd) conn \<times> 'd stmt) \<times> exn option" where
  "bind_parameters cs paramindex [] = (cs, None)"
| "bind_parameters cs paramindex (v # vs) =
     (case bind_parameter cs paramindex v of
        ((cs', i), Some e) \<Rightarrow> (cs', Some e)
      | ((cs', i), None) \<Rightarrow> bind_parameters cs' i vs)"

text \<open>\<open>do result = sqlite3_step(statement); while(result == SQLITE_ROW);\<close>\<close>

function step_while_row :: "('q, 'd) conn \<times> 'd stmt \<Rightarrow> (('q, 'd) conn \<times> 'd stmt) \<times> rc" where
  "step_while_row cs =
     (case sqlite3_step cs of
        (cs', result) \<Rightarrow> if result = SQLITE_ROW then step_while_row cs' else (cs', result))"
  by pat_completeness auto
termination
proof (relation "measure (\<lambda>cs. if started (snd cs) then length (pending (snd cs))
          else Suc (length (rows (run (prog (snd cs)) (bound (snd cs)) (store (fst cs))))))")
  show "wf (measure (\<lambda>cs::('q, 'd) conn \<times> 'd stmt. if started (snd cs) then length (pending (snd cs))
          else Suc (length (rows (run (prog (snd cs)) (bound (snd cs)) (store (fst cs)))))))"
    by simp
next
  fix cs :: "('q, 'd) conn \<times> 'd stmt" and x1 :: "('q, 'd) conn \<times> 'd stmt" and x2 :: rc
  assume "(x1, x2) = sqlite3_step cs" and "x2 = SQLITE_ROW"
  then show "(x1, cs) \<in> measure (\<lambda>cs. if started (snd cs) then length (pending (snd cs))
          else Suc (length (rows (run (prog (snd cs)) (bound (snd cs)) (store (fst cs))))))"
    by (auto simp: sqlite3_step_def record_call_def Let_def split: if_splits list.splits option.splits)
qed

declare step_while_row.simps [simp del]

text \<open>
  The three helpers. The model's types leave out the two null-argument guards on
  \<open>instance\<close> and \<open>sql\<close>, which throw before anything is prepared: every call site passes
  a live connection and a literal statement. Each helper returns the connection as it
  leaves it together with the thrown exception (\<open>Inl\<close>) or the returned value (\<open>Inr\<close>).
\<close>

definition execute_non_query ::
  "('q, 'd) engine \<Rightarrow> ('q, 'd) conn \<Rightarrow> 'q \<Rightarrow> string option list \<Rightarrow> ('q, 'd) conn \<times> (exn + int)" where
  "execute_non_query E instance sql parameters =
     (case sqlite3_prepare16_v2 E instance sql of
        (c, (result, None)) \<Rightarrow> (c, Inl (SQLiteException result))
      | (c, (result, Some statement)) \<Rightarrow>
          if result \<noteq> SQLITE_OK then (c, Inl (SQLiteException result))
          else
            (case bind_parameters (c, statement) 1 parameters of
               (cs, Some e) \<Rightarrow> (sqlite3_finalize cs, Inl e)
             | (cs, None) \<Rightarrow>
                 (case step_while_row cs of
                    (cs', result') \<Rightarrow>
                      if result' \<noteq> SQLITE_DONE
                      then (sqlite3_finalize cs', Inl (SQLiteException result'))
                      else (let c' = sqlite3_finalize cs' in (c', Inr (sqlite3_changes c'))))))"

definition execute_scalar_int ::
  "('q, 'd) engine \<Rightarrow> ('q, 'd) conn \<Rightarrow> 'q \<Rightarrow> string option list \<Rightarrow> ('q, 'd) conn \<times> (exn + int)" where
  "execute_scalar_int E instance sql parameters =
     (case sqlite3_prepare16_v2 E instance sql of
        (c, (result, None)) \<Rightarrow> (c, Inl (SQLiteException result))
      | (c, (result, Some statement)) \<Rightarrow>
          if result \<noteq> SQLITE_OK then (c, Inl (SQLiteException result))
          else
            (case bind_parameters (c, statement) 1 parameters of
               (cs, Some e) \<Rightarrow> (sqlite3_finalize cs, Inl e)
             | (cs, None) \<Rightarrow>
                 (case sqlite3_step cs of
                    (cs', result') \<Rightarrow>
                      if result' = SQLITE_ROW
                      then (sqlite3_finalize cs', Inr (sqlite3_column_int E (snd cs') 0))
                      else if result' \<noteq> SQLITE_DONE
                      then (sqlite3_finalize cs', Inl (SQLiteException result'))
                      else (sqlite3_finalize cs', Inr 0))))"

definition execute_scalar_int64 ::
  "('q, 'd) engine \<Rightarrow> ('q, 'd) conn \<Rightarrow> 'q \<Rightarrow> string option list \<Rightarrow> ('q, 'd) conn \<times> (exn + int)" where
  "execute_scalar_int64 E instance sql parameters =
     (case sqlite3_prepare16_v2 E instance sql of
        (c, (result, None)) \<Rightarrow> (c, Inl (SQLiteException result))
      | (c, (result, Some statement)) \<Rightarrow>
          if result \<noteq> SQLITE_OK then (c, Inl (SQLiteException result))
          else
            (case bind_parameters (c, statement) 1 parameters of
               (cs, Some e) \<Rightarrow> (sqlite3_finalize cs, Inl e)
             | (cs, None) \<Rightarrow>
                 (case sqlite3_step cs of
                    (cs', result') \<Rightarrow>
                      if result' = SQLITE_ROW
                      then (sqlite3_finalize cs', Inr (sqlite3_column_int64 E (snd cs') 0))
                      else if result' \<noteq> SQLITE_DONE
                      then (sqlite3_finalize cs', Inl (SQLiteException result'))
                      else (sqlite3_finalize cs', Inr 0))))"

text \<open>
  The values a parameter pack leaves bound: position \<open>i\<close> (from 1) holds the \<open>i\<close>-th
  parameter, a null reference as a genuine null.
\<close>

definition parameter_values :: "string option list \<Rightarrow> nat \<Rightarrow> value" where
  "parameter_values ps i =
     (if 1 \<le> i \<and> i \<le> length ps
      then (case ps ! (i - 1) of Some s \<Rightarrow> SQL_TEXT s | None \<Rightarrow> SQL_NULL)
      else SQL_NULL)"

text \<open>The statements a connection was asked to prepare, in order.\<close>

definition statements :: "'q call list \<Rightarrow> 'q list" where
  "statements ks = concat (map (\<lambda>k. case k of Prepare q \<Rightarrow> [q] | _ \<Rightarrow> []) ks)"

text \<open>The result code that ends a run.\<close>

definition completion :: "int option \<Rightarrow> rc" where
  "completion f = (case f of None \<Rightarrow> SQLITE_DONE | Some e \<Rightarrow> SQLITE_FAIL e)"

text \<open>The ownership modes of the text bindings a connection was asked to make, in order.\<close>

definition text_bindings :: "'q call list \<Rightarrow> destructor list" where
  "text_bindings ks = concat (map (\<lambda>k. case k of Bind_text16 i s d \<Rightarrow> [d] | _ \<Rightarrow> []) ks)"

section \<open>Blob conversions (Database.cpp, dbextension.cpp)\<close>

text \<open>An integer as the engine writes it as text: decimal digits, with a sign when negative.\<close>

fun decimal_nat :: "nat \<Rightarrow> string" where
  "decimal_nat n =
     (if n < 10 then [char_of (48 + n)] else decimal_nat (n div 10) @ [char_of (48 + n mod 10)])"

declare decimal_nat.simps [simp del]

definition decimal :: "int \<Rightarrow> string" where
  "decimal n = (if n < 0 then CHR ''-'' # decimal_nat (nat (- n)) else decimal_nat (nat n))"

text \<open>
  \<open>sqlite3_column_blob\<close>/\<open>sqlite3_value_blob\<close> with \<open>sqlite3_column_bytes\<close>: the bytes of a
  value and their number. A null has none; text and integers are read through their text.
\<close>

definition value_blob :: "value \<Rightarrow> byte list" where
  "value_blob v =
     (case v of
        SQL_NULL \<Rightarrow> []
      | SQL_BLOB b \<Rightarrow> b
      | SQL_TEXT s \<Rightarrow> map of_char s
      | SQL_INTEGER n \<Rightarrow> map of_char (decimal n))"

definition value_bytes :: "value \<Rightarrow> nat" where
  "value_bytes v = length (value_blob v)"

text \<open>\<open>sqlite3_value_text16\<close>: the text of a value, \<open>None\<close> (a null pointer) for a null.\<close>

definition value_text16 :: "value \<Rightarrow> string option" where
  "value_text16 v =
     (case v of
        SQL_NULL \<Rightarrow> None
      | SQL_TEXT s \<Rightarrow> Some s
      | SQL_INTEGER n \<Rightarrow> Some (decimal n)
      | SQL_BLOB b \<Rightarrow> Some (map (\<lambda>x. char_of (unat x)) b))"

text \<open>
  \<open>System::Guid\<close> is its 16 bytes; \<open>sizeof(UUID)\<close> is 16. \<open>column_uuid\<close> converts a blob
  result column into a Guid.
\<close>

datatype Guid = Guid "byte list"

definition Guid_Empty :: Guid where
  "Guid_Empty = Guid (replicate 16 0)"

definition sizeof_UUID :: nat where
  "sizeof_UUID = 16"

definition column_uuid :: "'d stmt \<Rightarrow> nat \<Rightarrow> exn + Guid" where
  "column_uuid statement index =
     (let bloblen = value_bytes (cell (current statement) index) in
      if bloblen = 0 then Inr Guid_Empty
      else if bloblen \<noteq> sizeof_UUID
      then Inl (Exception ''Invalid BLOB length for conversion to System::Guid'')
      else Inr (Guid (value_blob (cell (current statement) index))))"

text \<open>
  What a scalar function hands back through its \<open>sqlite3_context\<close>.
\<close>

datatype fn_result =
    Result_null
  | Result_text16 string
  | Result_blob "byte list"
  | Result_error string

text \<open>
  The two base-64 functions call the operating system's \<open>CryptBinaryToStringW\<close> and
  \<open>CryptStringToBinaryW\<close>, which are not part of the repository: they are parameters
  here, \<open>None\<close> when the call fails. Each is called twice, first for the length (\<open>cb\<close>
  stays 0 when that call fails), then for the data. \<open>sqlite3_malloc64\<close> of 0 bytes is
  a null pointer; running out of memory otherwise is not modelled.
\<close>

definition base64decode :: "(string \<Rightarrow> byte list option) \<Rightarrow> value list \<Rightarrow> fn_result" where
  "base64decode CryptStringToBinaryW argv =
     (if length argv \<noteq> 1 then Result_error ''invalid arguments''
      else
        (case value_text16 (argv ! 0) of
           None \<Rightarrow> Result_null
         | Some input \<Rightarrow>
             (let cb = (case CryptStringToBinaryW input of None \<Rightarrow> 0 | Some data \<Rightarrow> length data) in
              if cb = 0 then Result_error ''unable to allocate memory''
              else
                (case CryptStringToBinaryW input of
                   None \<Rightarrow> Result_error ''failed to decode binary data from base-64''
                 | Some data \<Rightarrow> Result_blob data))))"

definition base64encode :: "(byte list \<Rightarrow> string option) \<Rightarrow> value list \<Rightarrow> fn_result" where
  "base64encode CryptBinaryToStringW argv =
     (if length argv \<noteq> 1 then Result_error ''invalid arguments''
      else
        (let length = value_bytes (argv ! 0) in
         if length = 0 then Result_null
         else
           (let data = value_blob (argv ! 0);
                cb = (case CryptBinaryToStringW data of None \<Rightarrow> 0 | Some s \<Rightarrow> Suc (List.length s))
            in if cb * 2 = 0 then Result_error ''unable to allocate memory''
               else
                 (case CryptBinaryToStringW data of
                    None \<Rightarrow> Result_error ''failed to encode binary data into base-64''
                  | Some s \<Rightarrow> Result_text16 s))))"

section \<open>The store: tables, rows and settings\<close>

text \<open>
  The five tables of the version-1 schema (\<open>Database::InitializeInstance\<close>). A row keeps
  one value per declared column, in the declared order; the prefix of a field names its
  table (\<open>c\<close> card, \<open>d\<close> carddetail, \<open>f\<close> cardfaq, \<open>r\<close> cardfaqrelated, \<open>i\<close> cardimage).
\<close>

datatype table = Card | CardDetail | CardFaq | CardFaqRelated | CardImage

record card_row =
  c_cardid :: "value"
  c_type :: "value"
  c_color :: "value"
  c_rarity :: "value"

record detail_row =
  d_cardid :: "value"
  d_side :: "value"
  d_language :: "value"
  d_name :: "value"
  d_cost :: "value"
  d_specifiedcost :: "value"
  d_power :: "value"
  d_combopower :: "value"
  d_traits :: "value"
  d_effect :: "value"

record faq_row =
  f_cardid :: "value"
  f_faqid :: "value"
  f_language :: "value"
  f_question :: "value"
  f_answer :: "value"

record related_row =
  r_cardid :: "value"
  r_faqid :: "value"
  r_language :: "value"
  r_relatedcardid :: "value"

record image_row =
  i_cardid :: "value"
  i_side :: "value"
  i_language :: "value"
  i_format :: "value"
  i_image :: "value"

record database =
  user_version :: int
  tables :: "table set"
  card :: "card_row list"
  carddetail :: "detail_row list"
  cardfaq :: "faq_row list"
  cardfaqrelated :: "related_row list"
  cardimage :: "image_row list"

definition empty_database :: database where
  "empty_database =
     \<lparr>user_version = 0, tables = {}, card = [], carddetail = [], cardfaq = [],
      cardfaqrelated = [], cardimage = []\<rparr>"

text \<open>
  What a connection holds: the database as the connection sees it, the database as it was
  when the open transaction began (\<open>None\<close> outside a transaction), and the per-connection
  settings that \<open>InitializeInstance\<close> applies.
\<close>

record sqlite =
  db :: database
  snapshot :: "database option"
  foreign_keys :: bool
  journal_mode :: string
  encoding :: string
  busy_timeout :: int
  extended_result_codes :: bool
  closed :: bool

definition new_sqlite :: "database \<Rightarrow> sqlite" where
  "new_sqlite d =
     \<lparr>db = d, snapshot = None, foreign_keys = False, journal_mode = ''delete'',
      encoding = ''UTF-8'', busy_timeout = 0, extended_result_codes = False, closed = False\<rparr>"

section \<open>JSON documents and the functions the engine does not define here\<close>

text \<open>
  A JSON document as a tree; numbers are integers (no floating point, no booleans).
\<close>

datatype json = JNull | JInt int | JStr string | JArr "json list" | JObj "(string \<times> json) list"

text \<open>
  The parts of the engine and of the operating system whose code is outside the repository
  are parameters: the engine's JSON reader (\<open>None\<close> for malformed text) and writer, the
  pretty printer of \<open>prettyjson\<close> composed with the engine's writer, the numeric reading
  that integer affinity gives a text, the integer a text is read as by an integer
  accessor, the two base-64 calls, and the page size and page
  count the engine reports.
\<close>

record builtins =
  json_parse :: "string \<Rightarrow> json option"
  json_write :: "json \<Rightarrow> string"
  prettyjson :: "json \<Rightarrow> string"
  text_numeric :: "string \<Rightarrow> value"
  text_integer :: "string \<Rightarrow> int"
  CryptBinaryToStringW :: "byte list \<Rightarrow> string option"
  CryptStringToBinaryW :: "string \<Rightarrow> byte list option"
  page_size :: int
  page_count :: "database \<Rightarrow> int"

text \<open>The statements the code prepares, one constructor per statement text.\<close>

datatype sql =
    Pragma_journal_mode_wal
  | Pragma_encoding_UTF16
  | Pragma_foreign_keys_ON
  | Pragma_user_version
  | Pragma_user_version_1
  | Pragma_page_size
  | Pragma_page_count
  | Create_table table
  | Vacuum_statement
  | Begin_immediate_transaction
  | Commit_transaction
  | Rollback_transaction
  | Insert_into table
  | Select_export_card

section \<open>JSON functions of the engine\<close>

text \<open>
  The SQL value of a JSON element (\<open>json_extract\<close>, and the \<open>value\<close> column of
  \<open>json_each\<close>): a container is its JSON text.
\<close>

definition value_of_json :: "builtins \<Rightarrow> json \<Rightarrow> value" where
  "value_of_json B j =
     (case j of
        JNull \<Rightarrow> SQL_NULL
      | JInt n \<Rightarrow> SQL_INTEGER n
      | JStr s \<Rightarrow> SQL_TEXT s
      | JArr xs \<Rightarrow> SQL_TEXT (json_write B j)
      | JObj kvs \<Rightarrow> SQL_TEXT (json_write B j))"

text \<open>
  A value read as a JSON argument: \<open>Inr None\<close> for a null, \<open>Inl\<close> the error of malformed
  JSON (\<open>SQLITE_ERROR\<close>, 1). A blob is refused.
\<close>

definition json_arg :: "builtins \<Rightarrow> value \<Rightarrow> int + json option" where
  "json_arg B v =
     (case v of
        SQL_NULL \<Rightarrow> Inr None
      | SQL_INTEGER n \<Rightarrow> Inr (Some (JInt n))
      | SQL_TEXT s \<Rightarrow> (case json_parse B s of None \<Rightarrow> Inl 1 | Some j \<Rightarrow> Inr (Some j))
      | SQL_BLOB b \<Rightarrow> Inl 1)"

text \<open>
  The \<open>value\<close> column of a \<open>json_each\<close> row, read again as a JSON argument. The engine
  reads the text it wrote for a container back as that container.
\<close>

definition json_element :: "builtins \<Rightarrow> json \<Rightarrow> int + json option" where
  "json_element B j =
     (case j of
        JArr xs \<Rightarrow> Inr (Some j)
      | JObj kvs \<Rightarrow> Inr (Some j)
      | _ \<Rightarrow> json_arg B (value_of_json B j))"

text \<open>The member at path \<open>$.key\<close>: only an object has one.\<close>

definition json_member :: "json \<Rightarrow> string \<Rightarrow> json option" where
  "json_member j k = (case j of JObj kvs \<Rightarrow> map_of kvs k | _ \<Rightarrow> None)"

text \<open>\<open>json_extract(X, '$.key')\<close> for an argument already read.\<close>

definition json_extract :: "builtins \<Rightarrow> json option \<Rightarrow> string \<Rightarrow> value" where
  "json_extract B x k =
     (case x of
        None \<Rightarrow> SQL_NULL
      | Some j \<Rightarrow> (case json_member j k of None \<Rightarrow> SQL_NULL | Some m \<Rightarrow> value_of_json B m))"

text \<open>
  \<open>json_each(X, '$.key')\<close>: no row when the path is missing, one row per element of an
  array or member of an object, and a single row for any other value found there.
\<close>

definition json_each :: "json option \<Rightarrow> string \<Rightarrow> json list" where
  "json_each x k =
     (case x of
        None \<Rightarrow> []
      | Some j \<Rightarrow>
          (case json_member j k of
             None \<Rightarrow> []
           | Some (JArr xs) \<Rightarrow> xs
           | Some (JObj kvs) \<Rightarrow> map snd kvs
           | Some m \<Rightarrow> [m]))"

text \<open>
  A value as \<open>json_object\<close> and \<open>json_group_array\<close> embed it; a blob is an error.
\<close>

definition json_of_value :: "value \<Rightarrow> int + json" where
  "json_of_value v =
     (case v of
        SQL_NULL \<Rightarrow> Inr JNull
      | SQL_INTEGER n \<Rightarrow> Inr (JInt n)
      | SQL_TEXT s \<Rightarrow> Inr (JStr s)
      | SQL_BLOB b \<Rightarrow> Inl 1)"

text \<open>\<open>json_object\<close> over label and value pairs, left to right.\<close>

fun json_object :: "(string \<times> value) list \<Rightarrow> int + (string \<times> json) list" where
  "json_object [] = Inr []"
| "json_object ((k, v) # kvs) =
     (case json_of_value v of
        Inl e \<Rightarrow> Inl e
      | Inr j \<Rightarrow> (case json_object kvs of Inl e \<Rightarrow> Inl e | Inr js \<Rightarrow> Inr ((k, j) # js)))"

section \<open>Inserting rows under the schema's constraints\<close>

text \<open>
  Column affinity on insert: a text column stores an integer as its decimal text, an integer
  column stores a text through the engine's numeric reading, a blob column stores what it
  is given.
\<close>

definition text_affinity :: "value \<Rightarrow> value" where
  "text_affinity v = (case v of SQL_INTEGER n \<Rightarrow> SQL_TEXT (decimal n) | _ \<Rightarrow> v)"

definition integer_affinity :: "builtins \<Rightarrow> value \<Rightarrow> value" where
  "integer_affinity B v = (case v of SQL_TEXT s \<Rightarrow> text_numeric B s | _ \<Rightarrow> v)"

text \<open>
  SQL comparison and \<open>IN\<close> are three-valued: \<open>None\<close> is the unknown that a null produces.
  A \<open>CHECK\<close> constraint only fails on a result that is false, a join or \<open>WHERE\<close> condition
  only holds on a result that is true.
\<close>

definition sql_eq :: "value \<Rightarrow> value \<Rightarrow> bool" where
  "sql_eq a b = (a \<noteq> SQL_NULL \<and> b \<noteq> SQL_NULL \<and> a = b)"

definition sql_in :: "value \<Rightarrow> value list \<Rightarrow> bool option" where
  "sql_in x vs =
     (if x = SQL_NULL then None
      else if x \<in> set vs then Some True
      else if SQL_NULL \<in> set vs then None
      else Some False)"

text \<open>
  A constraint failure is \<open>SQLITE_CONSTRAINT\<close> (19), or its extended code when the
  connection reports extended codes.
\<close>

definition constraint_code :: "sqlite \<Rightarrow> int \<Rightarrow> int" where
  "constraint_code s ext = (if extended_result_codes s then ext else 19)"

abbreviation SQLITE_CONSTRAINT_NOTNULL :: int where "SQLITE_CONSTRAINT_NOTNULL \<equiv> 1299"
abbreviation SQLITE_CONSTRAINT_CHECK :: int where "SQLITE_CONSTRAINT_CHECK \<equiv> 275"
abbreviation SQLITE_CONSTRAINT_PRIMARYKEY :: int where "SQLITE_CONSTRAINT_PRIMARYKEY \<equiv> 1555"
abbreviation SQLITE_CONSTRAINT_FOREIGNKEY :: int where "SQLITE_CONSTRAINT_FOREIGNKEY \<equiv> 787"

text \<open>
  \<open>create table card(cardid text not null, type text not null, color text not null,
  rarity text not null, primary key(cardid), check(type in (...)), check(color in (...)),
  check(rarity in (...)))\<close>
\<close>

definition card_affinity :: "card_row \<Rightarrow> card_row" where
  "card_affinity row =
     \<lparr>c_cardid = text_affinity (c_cardid row), c_type = text_affinity (c_type row),
      c_color = text_affinity (c_color row), c_rarity = text_affinity (c_rarity row)\<rparr>"

definition insert_card :: "sqlite \<Rightarrow> card_row \<Rightarrow> int + sqlite" where
  "insert_card s row =
     (let r = card_affinity row
      in if c_cardid r = SQL_NULL \<or> c_type r = SQL_NULL \<or> c_color r = SQL_NULL \<or> c_rarity r = SQL_NULL
         then Inl (constraint_code s SQLITE_CONSTRAINT_NOTNULL)
         else if sql_in (c_type r) [SQL_TEXT ''LEADER'', SQL_TEXT ''BATTLE'', SQL_TEXT ''EXTRA''] = Some False
               \<or> sql_in (c_color r) [SQL_TEXT ''Red'', SQL_TEXT ''Blue'', SQL_TEXT ''Green'',
                                      SQL_TEXT ''Yellow'', SQL_TEXT ''Black''] = Some False
               \<or> sql_in (c_rarity r) [SQL_TEXT ''L'', SQL_TEXT ''C'', SQL_TEXT ''R'', SQL_TEXT ''SR'',
                                       SQL_TEXT ''SCR'', SQL_TEXT ''PR''] = Some False
         then Inl (constraint_code s SQLITE_CONSTRAINT_CHECK)
         else if \<exists>x \<in> set (card (db s)). sql_eq (c_cardid x) (c_cardid r)
         then Inl (constraint_code s SQLITE_CONSTRAINT_PRIMARYKEY)
         else Inr (s\<lparr>db := (db s)\<lparr>card := card (db s) @ [r]\<rparr>\<rparr>))"

text \<open>
  \<open>create table carddetail(cardid text not null, side text null, language text not null,
  name text not null, cost integer null, specifiedcost text null, power integer null,
  combopower integer null, traits text null, effect text null,
  primary key(cardid, side, language) foreign key(cardid) references card(cardid),
  check(side in (null, 'FRONT', 'BACK')), check(language in('EN', 'JP')))\<close>.
  Two rows clash on a primary key only when every key column of both is not null.
\<close>

definition detail_affinity :: "builtins \<Rightarrow> detail_row \<Rightarrow> detail_row" where
  "detail_affinity B row =
     \<lparr>d_cardid = text_affinity (d_cardid row), d_side = text_affinity (d_side row),
      d_language = text_affinity (d_language row), d_name = text_affinity (d_name row),
      d_cost = integer_affinity B (d_cost row),
      d_specifiedcost = text_affinity (d_specifiedcost row),
      d_power = integer_affinity B (d_power row),
      d_combopower = integer_affinity B (d_combopower row),
      d_traits = text_affinity (d_traits row), d_effect = text_affinity (d_effect row)\<rparr>"

definition insert_carddetail :: "builtins \<Rightarrow> sqlite \<Rightarrow> detail_row \<Rightarrow> int + sqlite" where
  "insert_carddetail B s row =
     (let r = detail_affinity B row
      in if d_cardid r = SQL_NULL \<or> d_language r = SQL_NULL \<or> d_name r = SQL_NULL
         then Inl (constraint_code s SQLITE_CONSTRAINT_NOTNULL)
         else if sql_in (d_side r) [SQL_NULL, SQL_TEXT ''FRONT'', SQL_TEXT ''BACK''] = Some False
               \<or> sql_in (d_language r) [SQL_TEXT ''EN'', SQL_TEXT ''JP''] = Some False
         then Inl (constraint_code s SQLITE_CONSTRAINT_CHECK)
         else if \<exists>x \<in> set (carddetail (db s)).
                   sql_eq (d_cardid x) (d_cardid r) \<and> sql_eq (d_side x) (d_side r)
                   \<and> sql_eq (d_language x) (d_language r)
         then Inl (constraint_code s SQLITE_CONSTRAINT_PRIMARYKEY)
         else if foreign_keys s \<and> \<not> (\<exists>c \<in> set (card (db s)). sql_eq (c_cardid c) (d_cardid r))
         then Inl (constraint_code s SQLITE_CONSTRAINT_FOREIGNKEY)
         else Inr (s\<lparr>db := (db s)\<lparr>carddetail := carddetail (db s) @ [r]\<rparr>\<rparr>))"

text \<open>
  \<open>create table cardfaq(cardid text not null, faqid text not null, language text not null,
  question text not null, answer text null, primary key(cardid, faqid, language)
  foreign key(cardid) references card(cardid), check(language in('EN', 'JP')))\<close>
\<close>

definition faq_affinity :: "faq_row \<Rightarrow> faq_row" where
  "faq_affinity row =
     \<lparr>f_cardid = text_affinity (f_cardid row), f_faqid = text_affinity (f_faqid row),
      f_language = text_affinity (f_language row),
      f_question = text_affinity (f_question row), f_answer = text_affinity (f_answer row)\<rparr>"

definition insert_cardfaq :: "sqlite \<Rightarrow> faq_row \<Rightarrow> int + sqlite" where
  "insert_cardfaq s row =
     (let r = faq_affinity row
      in if f_cardid r = SQL_NULL \<or> f_faqid r = SQL_NULL \<or> f_language r = SQL_NULL
            \<or> f_question r = SQL_NULL
         then Inl (constraint_code s SQLITE_CONSTRAINT_NOTNULL)
         else if sql_in (f_language r) [SQL_TEXT ''EN'', SQL_TEXT ''JP''] = Some False
         then Inl (constraint_code s SQLITE_CONSTRAINT_CHECK)
         else if \<exists>x \<in> set (cardfaq (db s)).
                   sql_eq (f_cardid x) (f_cardid r) \<and> sql_eq (f_faqid x) (f_faqid r)
                   \<and> sql_eq (f_language x) (f_language r)
         then Inl (constraint_code s SQLITE_CONSTRAINT_PRIMARYKEY)
         else if foreign_keys s \<and> \<not> (\<exists>c \<in> set (card (db s)). sql_eq (c_cardid c) (f_cardid r))
         then Inl (constraint_code s SQLITE_CONSTRAINT_FOREIGNKEY)
         else Inr (s\<lparr>db := (db s)\<lparr>cardfaq := cardfaq (db s) @ [r]\<rparr>\<rparr>))"

text \<open>
  \<open>create table cardfaqrelated(cardid text not null, faqid text null, language text not null,
  relatedcardid text not null, primary key(cardid, faqid, language, relatedcardid)
  foreign key(cardid, faqid, language) references cardfaq(cardid, faqid, language),
  check(language in('EN', 'JP')))\<close>. A child key with a null column is not checked
  against the parent table.
\<close>

definition related_affinity :: "related_row \<Rightarrow> related_row" where
  "related_affinity row =
     \<lparr>r_cardid = text_affinity (r_cardid row), r_faqid = text_affinity (r_faqid row),
      r_language = text_affinity (r_language row),
      r_relatedcardid = text_affinity (r_relatedcardid row)\<rparr>"

definition insert_cardfaqrelated :: "sqlite \<Rightarrow> related_row \<Rightarrow> int + sqlite" where
  "insert_cardfaqrelated s row =
     (let r = related_affinity row
      in if r_cardid r = SQL_NULL \<or> r_language r = SQL_NULL \<or> r_relatedcardid r = SQL_NULL
         then Inl (constraint_code s SQLITE_CONSTRAINT_NOTNULL)
         else if sql_in (r_language r) [SQL_TEXT ''EN'', SQL_TEXT ''JP''] = Some False
         then Inl (constraint_code s SQLITE_CONSTRAINT_CHECK)
         else if \<exists>x \<in> set (cardfaqrelated (db s)).
                   sql_eq (r_cardid x) (r_cardid r) \<and> sql_eq (r_faqid x) (r_faqid r)
                   \<and> sql_eq (r_language x) (r_language r)
                   \<and> sql_eq (r_relatedcardid x) (r_relatedcardid r)
         then Inl (constraint_code s SQLITE_CONSTRAINT_PRIMARYKEY)
         else if foreign_keys s \<and> r_faqid r \<noteq> SQL_NULL
                 \<and> \<not> (\<exists>f \<in> set (cardfaq (db s)).
                        sql_eq (f_cardid f) (r_cardid r) \<and> sql_eq (f_faqid f) (r_faqid r)
                        \<and> sql_eq (f_language f) (r_language r))
         then Inl (constraint_code s SQLITE_CONSTRAINT_FOREIGNKEY)
         else Inr (s\<lparr>db := (db s)\<lparr>cardfaqrelated := cardfaqrelated (db s) @ [r]\<rparr>\<rparr>))"

text \<open>
  \<open>create table cardimage(cardid text not null, side text null, language text not null,
  format text not null, image blob not null, primary key(cardid, side, language)
  foreign key(cardid) references card(cardid), check(side in (null, 'FRONT', 'BACK')),
  check(language in ('EN', 'JP')))\<close>
\<close>

definition image_affinity :: "image_row \<Rightarrow> image_row" where
  "image_affinity row =
     \<lparr>i_cardid = text_affinity (i_cardid row), i_side = text_affinity (i_side row),
      i_language = text_affinity (i_language row),
      i_format = text_affinity (i_format row), i_image = i_image row\<rparr>"

definition insert_cardimage :: "sqlite \<Rightarrow> image_row \<Rightarrow> int + sqlite" where
  "insert_cardimage s row =
     (let r = image_affinity row
      in if i_cardid r = SQL_NULL \<or> i_language r = SQL_NULL \<or> i_format r = SQL_NULL
            \<or> i_image r = SQL_NULL
         then Inl (constraint_code s SQLITE_CONSTRAINT_NOTNULL)
         else if sql_in (i_side r) [SQL_NULL, SQL_TEXT ''FRONT'', SQL_TEXT ''BACK''] = Some False
               \<or> sql_in (i_language r) [SQL_TEXT ''EN'', SQL_TEXT ''JP''] = Some False
         then Inl (constraint_code s SQLITE_CONSTRAINT_CHECK)
         else if \<exists>x \<in> set (cardimage (db s)).
                   sql_eq (i_cardid x) (i_cardid r) \<and> sql_eq (i_side x) (i_side r)
                   \<and> sql_eq (i_language x) (i_language r)
         then Inl (constraint_code s SQLITE_CONSTRAINT_PRIMARYKEY)
         else if foreign_keys s \<and> \<not> (\<exists>c \<in> set (card (db s)). sql_eq (c_cardid c) (i_cardid r))
         then Inl (constraint_code s SQLITE_CONSTRAINT_FOREIGNKEY)
         else Inr (s\<lparr>db := (db s)\<lparr>cardimage := cardimage (db s) @ [r]\<rparr>\<rparr>))"

text \<open>
  An \<open>insert ... select\<close> inserts the selected rows one after the other; the first row
  that is refused ends the statement.
\<close>

fun insert_rows :: "('s \<Rightarrow> 'r \<Rightarrow> int + 's) \<Rightarrow> 'r list \<Rightarrow> 's \<Rightarrow> int + 's" where
  "insert_rows ins [] s = Inr s"
| "insert_rows ins (r # rs) s =
     (case ins s r of Inl e \<Rightarrow> Inl e | Inr s' \<Rightarrow> insert_rows ins rs s')"

text \<open>Collecting results that may each be an error: the first error wins.\<close>

fun collect :: "(int + 'a) list \<Rightarrow> int + 'a list" where
  "collect [] = Inr []"
| "collect (x # xs) =
     (case x of
        Inl e \<Rightarrow> Inl e
      | Inr a \<Rightarrow> (case collect xs of Inl e \<Rightarrow> Inl e | Inr as \<Rightarrow> Inr (a # as)))"

section \<open>The import statements (Import.cpp)\<close>

text \<open>
  Each import statement selects rows out of the JSON text bound to \<open>?1\<close> and inserts
  them. The functions below are the \<open>select\<close> parts, column by column as the statement
  texts list them.

  \<open>with input(value) as (select ?1) insert into card select
  json_extract(input.value, '$.cardid'), json_extract(input.value, '$.type'),
  json_extract(input.value, '$.color'), json_extract(input.value, '$.rarity') from input\<close>
\<close>

definition select_card :: "builtins \<Rightarrow> value \<Rightarrow> int + card_row list" where
  "select_card B v =
     (case json_arg B v of
        Inl e \<Rightarrow> Inl e
      | Inr input \<Rightarrow>
          Inr [\<lparr>c_cardid = json_extract B input ''cardid'', c_type = json_extract B input ''type'',
                c_color = json_extract B input ''color'', c_rarity = json_extract B input ''rarity''\<rparr>])"

text \<open>
  \<open>... from input, json_each(input.value, '$.detail') as detail
  where json_extract(input.value, '$.detail') is not null\<close>
\<close>

definition select_carddetail :: "builtins \<Rightarrow> value \<Rightarrow> int + detail_row list" where
  "select_carddetail B v =
     (case json_arg B v of
        Inl e \<Rightarrow> Inl e
      | Inr input \<Rightarrow>
          if json_extract B input ''detail'' = SQL_NULL then Inr []
          else collect (map (\<lambda>elem.
                 case json_element B elem of
                   Inl e \<Rightarrow> Inl e
                 | Inr detail \<Rightarrow>
                     Inr \<lparr>d_cardid = json_extract B input ''cardid'',
                          d_side = json_extract B detail ''side'',
                          d_language = json_extract B detail ''language'',
                          d_name = json_extract B detail ''name'',
                          d_cost = json_extract B detail ''cost'',
                          d_specifiedcost = json_extract B detail ''specifiedcost'',
                          d_power = json_extract B detail ''power'',
                          d_combopower = json_extract B detail ''combopower'',
                          d_traits = json_extract B detail ''traits'',
                          d_effect = json_extract B detail ''effect''\<rparr>)
                 (json_each input ''detail'')))"

text \<open>
  \<open>... from input, json_each(input.value, '$.faq') as faq
  where json_extract(input.value, '$.faq') is not null\<close>
\<close>

definition select_cardfaq :: "builtins \<Rightarrow> value \<Rightarrow> int + faq_row list" where
  "select_cardfaq B v =
     (case json_arg B v of
        Inl e \<Rightarrow> Inl e
      | Inr input \<Rightarrow>
          if json_extract B input ''faq'' = SQL_NULL then Inr []
          else collect (map (\<lambda>elem.
                 case json_element B elem of
                   Inl e \<Rightarrow> Inl e
                 | Inr faq \<Rightarrow>
                     Inr \<lparr>f_cardid = json_extract B input ''cardid'',
                          f_faqid = json_extract B faq ''faqid'',
                          f_language = json_extract B faq ''language'',
                          f_question = json_extract B faq ''question'',
                          f_answer = json_extract B faq ''answer''\<rparr>)
                 (json_each input ''faq'')))"

text \<open>
  \<open>... select json_extract(input.value, '$.cardid'), json_extract(faq.value, '$.faqid'),
  json_extract(faq.value, '$.language'), related.value
  from input, json_each(input.value, '$.faq') as faq, json_each(faq.value, '$.related') as related
  where json_extract(faq.value, '$.related') is not null\<close>
\<close>

definition select_cardfaqrelated :: "builtins \<Rightarrow> value \<Rightarrow> int + related_row list" where
  "select_cardfaqrelated B v =
     (case json_arg B v of
        Inl e \<Rightarrow> Inl e
      | Inr input \<Rightarrow>
          (case collect (map (\<lambda>elem.
                  case json_element B elem of
                    Inl e \<Rightarrow> Inl e
                  | Inr faq \<Rightarrow>
                      if json_extract B faq ''related'' = SQL_NULL then Inr []
                      else Inr (map (\<lambda>related.
                             \<lparr>r_cardid = json_extract B input ''cardid'',
                              r_faqid = json_extract B faq ''faqid'',
                              r_language = json_extract B faq ''language'',
                              r_relatedcardid = value_of_json B related\<rparr>)
                             (json_each faq ''related'')))
                  (json_each input ''faq'')) of
             Inl e \<Rightarrow> Inl e
           | Inr rss \<Rightarrow> Inr (concat rss)))"

text \<open>The result of a scalar function as the value the statement goes on with.\<close>

definition fn_value :: "fn_result \<Rightarrow> int + value" where
  "fn_value r =
     (case r of
        Result_null \<Rightarrow> Inr SQL_NULL
      | Result_text16 s \<Rightarrow> Inr (SQL_TEXT s)
      | Result_blob b \<Rightarrow> Inr (SQL_BLOB b)
      | Result_error m \<Rightarrow> Inl 1)"

text \<open>
  \<open>... json_extract(image.value, '$.format'), base64decode(json_extract(image.value, '$.image'))
  from input, json_each(input.value, '$.image') as image
  where json_extract(input.value, '$.image') is not null\<close>
\<close>

definition select_cardimage :: "builtins \<Rightarrow> value \<Rightarrow> int + image_row list" where
  "select_cardimage B v =
     (case json_arg B v of
        Inl e \<Rightarrow> Inl e
      | Inr input \<Rightarrow>
          if json_extract B input ''image'' = SQL_NULL then Inr []
          else collect (map (\<lambda>elem.
                 case json_element B elem of
                   Inl e \<Rightarrow> Inl e
                 | Inr img \<Rightarrow>
                     (case fn_value (base64decode (CryptStringToBinaryW B)
                                       [json_extract B img ''image'']) of
                        Inl e \<Rightarrow> Inl e
                      | Inr blob \<Rightarrow>
                          Inr \<lparr>i_cardid = json_extract B input ''cardid'',
                               i_side = json_extract B img ''side'',
                               i_language = json_extract B img ''language'',
                               i_format = json_extract B img ''format'',
                               i_image = blob\<rparr>))
                 (json_each input ''image'')))"

text \<open>
  Running an \<open>insert ... select\<close>: an error in the select or a refused row fails the
  statement and leaves the store as it was; otherwise the rows are in and counted.
\<close>

definition insert_select ::
  "(int + 'r list) \<Rightarrow> (sqlite \<Rightarrow> 'r \<Rightarrow> int + sqlite) \<Rightarrow> sqlite \<Rightarrow> sqlite outcome" where
  "insert_select sel ins s =
     (case sel of
        Inl e \<Rightarrow> \<lparr>rows = [], final = Some e, after = s, changed = None\<rparr>
      | Inr rs \<Rightarrow>
          (case insert_rows ins rs s of
             Inl e \<Rightarrow> \<lparr>rows = [], final = Some e, after = s, changed = None\<rparr>
           | Inr s' \<Rightarrow> \<lparr>rows = [], final = None, after = s', changed = Some (int (length rs))\<rparr>))"

section \<open>The export query (Export.cpp)\<close>

text \<open>
  The engine's order of values: a null before integers, integers before text, text before
  blobs; integers by value, text and blobs unit by unit. The key of a value puts it in
  that order.
\<close>

definition value_key :: "value \<Rightarrow> nat \<times> int \<times> string \<times> byte list" where
  "value_key v =
     (case v of
        SQL_NULL \<Rightarrow> (0, 0, [], [])
      | SQL_INTEGER n \<Rightarrow> (1, n, [], [])
      | SQL_TEXT s \<Rightarrow> (2, 0, s, [])
      | SQL_BLOB b \<Rightarrow> (3, 0, [], b))"

text \<open>
  \<open>order by\<close> as an insertion sort on the rows in table order; rows that compare equal
  keep their order.
\<close>

fun insort_by :: "('a \<Rightarrow> 'a \<Rightarrow> bool) \<Rightarrow> 'a \<Rightarrow> 'a list \<Rightarrow> 'a list" where
  "insort_by le x [] = [x]"
| "insort_by le x (y # ys) = (if le x y then x # y # ys else y # insort_by le x ys)"

definition sort_by :: "('a \<Rightarrow> 'a \<Rightarrow> bool) \<Rightarrow> 'a list \<Rightarrow> 'a list" where
  "sort_by le xs = foldr (insort_by le) xs []"

text \<open>
  \<open>order by language asc, side desc\<close> and \<open>order by language asc, faqid asc\<close>, on the pair
  of the two sort columns.
\<close>

definition asc_desc :: "value \<times> value \<Rightarrow> value \<times> value \<Rightarrow> bool" where
  "asc_desc a b =
     (value_key (fst a) < value_key (fst b)
      \<or> (value_key (fst a) = value_key (fst b) \<and> value_key (snd b) \<le> value_key (snd a)))"

definition asc_asc :: "value \<times> value \<Rightarrow> value \<times> value \<Rightarrow> bool" where
  "asc_asc a b =
     (value_key (fst a) < value_key (fst b)
      \<or> (value_key (fst a) = value_key (fst b) \<and> value_key (snd a) \<le> value_key (snd b)))"

text \<open>
  The \<open>detail\<close> member: \<open>json_object\<close> of every carddetail row of the card, ordered by
  language ascending and side descending, gathered by \<open>json_group_array\<close>; null when
  the card has no such row.
\<close>

definition detail_object :: "detail_row \<Rightarrow> int + json" where
  "detail_object d =
     map_sum id JObj
       (json_object [(''side'', d_side d), (''language'', d_language d), (''name'', d_name d),
          (''cost'', d_cost d), (''specifiedcost'', d_specifiedcost d), (''power'', d_power d),
          (''combopower'', d_combopower d), (''traits'', d_traits d), (''effect'', d_effect d)])"

definition export_detail :: "database \<Rightarrow> card_row \<Rightarrow> int + json" where
  "export_detail d c =
     (let detail = sort_by (\<lambda>a b. asc_desc (d_language a, d_side a) (d_language b, d_side b))
                     (filter (\<lambda>x. sql_eq (d_cardid x) (c_cardid c)) (carddetail d))
      in case collect (map detail_object detail) of
           Inl e \<Rightarrow> Inl e
         | Inr [] \<Rightarrow> Inr JNull
         | Inr js \<Rightarrow> Inr (JArr js))"

text \<open>
  The \<open>faq\<close> member. The cardfaq rows of the card are joined (left outer) with their
  cardfaqrelated rows and grouped by cardid, faqid and language; a group gives one object
  whose \<open>related\<close> member is null when the group's row has no related card and the array
  of the group's related card ids otherwise. The columns outside the aggregate are taken
  from the first row of the group. The objects are ordered by language and faqid.
\<close>

definition faq_join :: "database \<Rightarrow> faq_row \<Rightarrow> (faq_row \<times> value) list" where
  "faq_join d f =
     (case filter (\<lambda>r. sql_eq (f_cardid f) (r_cardid r) \<and> sql_eq (f_faqid f) (r_faqid r)
                       \<and> sql_eq (f_language f) (r_language r)) (cardfaqrelated d) of
        [] \<Rightarrow> [(f, SQL_NULL)]
      | rs \<Rightarrow> map (\<lambda>r. (f, r_relatedcardid r)) rs)"

function group_by :: "('a \<Rightarrow> 'k) \<Rightarrow> 'a list \<Rightarrow> 'a list list" where
  "group_by key [] = []"
| "group_by key (x # xs) =
     (x # filter (\<lambda>y. key y = key x) xs) # group_by key (filter (\<lambda>y. key y \<noteq> key x) xs)"
  by pat_completeness auto
termination
  by (relation "measure (\<lambda>p. length (snd p))") (auto simp: less_Suc_eq_le)

definition faq_object :: "(faq_row \<times> value) list \<Rightarrow> int + json" where
  "faq_object g =
     (case g of
        [] \<Rightarrow> Inl 1
      | (f, relatedcardid) # rest \<Rightarrow>
          (case json_object [(''faqid'', f_faqid f), (''language'', f_language f),
                             (''question'', f_question f), (''answer'', f_answer f)] of
             Inl e \<Rightarrow> Inl e
           | Inr members \<Rightarrow>
               (case (if relatedcardid = SQL_NULL then Inr JNull
                      else map_sum id JArr (collect (map (\<lambda>x. json_of_value (snd x)) g))) of
                  Inl e \<Rightarrow> Inl e
                | Inr related \<Rightarrow> Inr (JObj (members @ [(''related'', related)])))))"

definition export_faq :: "database \<Rightarrow> card_row \<Rightarrow> int + json" where
  "export_faq d c =
     (let joined = concat (map (faq_join d)
                     (filter (\<lambda>f. sql_eq (f_cardid f) (c_cardid c)) (cardfaq d)));
          groups = group_by (\<lambda>x. (f_cardid (fst x), f_faqid (fst x), f_language (fst x))) joined;
          faq = sort_by (\<lambda>g h. asc_asc (f_language (fst (hd g)), f_faqid (fst (hd g)))
                                        (f_language (fst (hd h)), f_faqid (fst (hd h)))) groups
      in case collect (map faq_object faq) of
           Inl e \<Rightarrow> Inl e
         | Inr [] \<Rightarrow> Inr JNull
         | Inr js \<Rightarrow> Inr (JArr js))"

text \<open>
  The \<open>image\<close> member, as \<open>detail\<close>, with the blob through \<open>base64encode\<close>.
\<close>

definition image_object :: "builtins \<Rightarrow> image_row \<Rightarrow> int + json" where
  "image_object B i =
     (case fn_value (base64encode (CryptBinaryToStringW B) [i_image i]) of
        Inl e \<Rightarrow> Inl e
      | Inr encoded \<Rightarrow>
          map_sum id JObj
            (json_object [(''side'', i_side i), (''language'', i_language i),
               (''format'', i_format i), (''image'', encoded)]))"

definition export_image :: "builtins \<Rightarrow> database \<Rightarrow> card_row \<Rightarrow> int + json" where
  "export_image B d c =
     (let images = sort_by (\<lambda>a b. asc_desc (i_language a, i_side a) (i_language b, i_side b))
                     (filter (\<lambda>x. sql_eq (i_cardid x) (c_cardid c)) (cardimage d))
      in case collect (map (image_object B) images) of
           Inl e \<Rightarrow> Inl e
         | Inr [] \<Rightarrow> Inr JNull
         | Inr js \<Rightarrow> Inr (JArr js))"

text \<open>The document of one card: its four columns and the three nested members.\<close>

definition export_document :: "builtins \<Rightarrow> database \<Rightarrow> card_row \<Rightarrow> int + json" where
  "export_document B d c =
     (case json_object [(''cardid'', c_cardid c), (''type'', c_type c), (''color'', c_color c),
                        (''rarity'', c_rarity c)] of
        Inl e \<Rightarrow> Inl e
      | Inr members \<Rightarrow>
          (case export_detail d c of
             Inl e \<Rightarrow> Inl e
           | Inr detail \<Rightarrow>
               (case export_faq d c of
                  Inl e \<Rightarrow> Inl e
                | Inr faq \<Rightarrow>
                    (case export_image B d c of
                       Inl e \<Rightarrow> Inl e
                     | Inr img \<Rightarrow>
                         Inr (JObj (members @ [(''detail'', detail), (''faq'', faq),
                                               (''image'', img)]))))))"

text \<open>
  \<open>select card.cardid, prettyjson(json_object(...)) from card\<close>: one row per card, in
  table order; an error ends the statement after the rows already returned.
\<close>

fun export_rows :: "builtins \<Rightarrow> database \<Rightarrow> card_row list \<Rightarrow> row list \<times> int option" where
  "export_rows B d [] = ([], None)"
| "export_rows B d (c # cs) =
     (case export_document B d c of
        Inl e \<Rightarrow> ([], Some e)
      | Inr doc \<Rightarrow>
          (case export_rows B d cs of
             (rs, f) \<Rightarrow> ([c_cardid c, SQL_TEXT (prettyjson B doc)] # rs, f)))"

section \<open>The engine on this store\<close>

text \<open>What each statement does when it runs, given the bound parameters.\<close>

definition no_rows :: "sqlite \<Rightarrow> sqlite outcome" where
  "no_rows s = \<lparr>rows = [], final = None, after = s, changed = None\<rparr>"

definition one_row :: "row \<Rightarrow> sqlite \<Rightarrow> sqlite outcome" where
  "one_row r s = \<lparr>rows = [r], final = None, after = s, changed = None\<rparr>"

definition failure :: "int \<Rightarrow> sqlite \<Rightarrow> sqlite outcome" where
  "failure e s = \<lparr>rows = [], final = Some e, after = s, changed = None\<rparr>"

fun sqlite_run :: "builtins \<Rightarrow> sql \<Rightarrow> (nat \<Rightarrow> value) \<Rightarrow> sqlite \<Rightarrow> sqlite outcome" where
  "sqlite_run B Pragma_journal_mode_wal b s = one_row [SQL_TEXT ''wal''] (s\<lparr>journal_mode := ''wal''\<rparr>)"
| "sqlite_run B Pragma_encoding_UTF16 b s =
     no_rows (if tables (db s) = {} then s\<lparr>encoding := ''UTF-16le''\<rparr> else s)"
| "sqlite_run B Pragma_foreign_keys_ON b s =
     no_rows (if snapshot s = None then s\<lparr>foreign_keys := True\<rparr> else s)"
| "sqlite_run B Pragma_user_version b s = one_row [SQL_INTEGER (user_version (db s))] s"
| "sqlite_run B Pragma_user_version_1 b s = no_rows (s\<lparr>db := (db s)\<lparr>user_version := 1\<rparr>\<rparr>)"
| "sqlite_run B Pragma_page_size b s = one_row [SQL_INTEGER (page_size B)] s"
| "sqlite_run B Pragma_page_count b s = one_row [SQL_INTEGER (page_count B (db s))] s"
| "sqlite_run B (Create_table t) b s = no_rows (s\<lparr>db := (db s)\<lparr>tables := insert t (tables (db s))\<rparr>\<rparr>)"
| "sqlite_run B Vacuum_statement b s = (if snapshot s \<noteq> None then failure 1 s else no_rows s)"
| "sqlite_run B Begin_immediate_transaction b s =
     (if snapshot s \<noteq> None then failure 1 s else no_rows (s\<lparr>snapshot := Some (db s)\<rparr>))"
| "sqlite_run B Commit_transaction b s =
     (if snapshot s = None then failure 1 s else no_rows (s\<lparr>snapshot := None\<rparr>))"
| "sqlite_run B Rollback_transaction b s =
     (case snapshot s of
        None \<Rightarrow> failure 1 s
      | Some d \<Rightarrow> no_rows (s\<lparr>db := d, snapshot := None\<rparr>))"
| "sqlite_run B (Insert_into Card) b s = insert_select (select_card B (b 1)) insert_card s"
| "sqlite_run B (Insert_into CardDetail) b s =
     insert_select (select_carddetail B (b 1)) (insert_carddetail B) s"
| "sqlite_run B (Insert_into CardFaq) b s = insert_select (select_cardfaq B (b 1)) insert_cardfaq s"
| "sqlite_run B (Insert_into CardFaqRelated) b s =
     insert_select (select_cardfaqrelated B (b 1)) insert_cardfaqrelated s"
| "sqlite_run B (Insert_into CardImage) b s =
     insert_select (select_cardimage B (b 1)) insert_cardimage s"
| "sqlite_run B Select_export_card b s =
     (case export_rows B (db s) (card (db s)) of
        (rs, f) \<Rightarrow> \<lparr>rows = rs, final = f, after = s, changed = None\<rparr>)"

text \<open>
  What \<open>sqlite3_prepare16_v2\<close> answers: a closed connection is misuse (21); a table that
  is created must not exist and a table that is read or written must (\<open>SQLITE_ERROR\<close>, 1).
  Only the insert statements have a parameter.
\<close>

definition schema_error :: "sql \<Rightarrow> database \<Rightarrow> bool" where
  "schema_error q d =
     (case q of
        Create_table t \<Rightarrow> t \<in> tables d
      | Insert_into t \<Rightarrow> t \<notin> tables d
      | Select_export_card \<Rightarrow> \<not> {Card, CardDetail, CardFaq, CardFaqRelated, CardImage} \<subseteq> tables d
      | _ \<Rightarrow> False)"

definition sqlite_compile :: "builtins \<Rightarrow> sql \<Rightarrow> sqlite \<Rightarrow> int + sqlite program" where
  "sqlite_compile B q s =
     (if closed s then Inl 21
      else if schema_error q (db s) then Inl 1
      else Inr \<lparr>nparams = (case q of Insert_into t \<Rightarrow> 1 | _ \<Rightarrow> 0), run = sqlite_run B q\<rparr>)"

definition sqlite_engine :: "builtins \<Rightarrow> (sql, sqlite) engine" where
  "sqlite_engine B =
     \<lparr>compile = sqlite_compile B, text_int = text_integer B,
      blob_int = (\<lambda>b. text_integer B (map (\<lambda>x. char_of (unat x)) b))\<rparr>"

text \<open>The calls on a connection that are not statements.\<close>

definition sqlite3_extended_result_codes :: "(sql, sqlite) conn \<Rightarrow> bool \<Rightarrow> (sql, sqlite) conn" where
  "sqlite3_extended_result_codes c onoff = c\<lparr>store := (store c)\<lparr>extended_result_codes := onoff\<rparr>\<rparr>"

definition sqlite3_busy_timeout :: "(sql, sqlite) conn \<Rightarrow> int \<Rightarrow> (sql, sqlite) conn" where
  "sqlite3_busy_timeout c ms = c\<lparr>store := (store c)\<lparr>busy_timeout := ms\<rparr>\<rparr>"

definition sqlite3_close :: "(sql, sqlite) conn \<Rightarrow> (sql, sqlite) conn" where
  "sqlite3_close c = c\<lparr>store := (store c)\<lparr>closed := True\<rparr>\<rparr>"

text \<open>A connection newly opened on a database, with the settings of a new connection.\<close>

definition open_connection :: "database \<Rightarrow> (sql, sqlite) conn" where
  "open_connection d = fresh_conn (new_sqlite d)"

text \<open>Two states of a connection's store that differ in the database at most.\<close>

definition only_db :: "sqlite \<Rightarrow> sqlite \<Rightarrow> bool" where
  "only_db s s' = (\<exists>d. s' = s\<lparr>db := d\<rparr>)"

section \<open>Opening a connection (Database.cpp)\<close>

text \<open>
  Sequencing of calls that may throw: the first exception ends the sequence.
\<close>

definition and_then :: "'c \<times> (exn + 'a) \<Rightarrow> ('c \<Rightarrow> 'a \<Rightarrow> 'c \<times> (exn + 'b)) \<Rightarrow> 'c \<times> (exn + 'b)" where
  "and_then r f = (case r of (c, Inl e) \<Rightarrow> (c, Inl e) | (c, Inr a) \<Rightarrow> f c a)"

text \<open>
  \<open>Database::InitializeInstance\<close>. The handle is a live connection (the null-handle guard
  is left to the type). \<open>CLRASSERT(dbversion == 1)\<close> is a debug assertion, modelled as the
  exception \<open>Exception ''CLRASSERT''\<close>.
\<close>

definition InitializeInstance ::
  "(sql, sqlite) engine \<Rightarrow> (sql, sqlite) conn \<Rightarrow> (sql, sqlite) conn \<times> (exn + unit)" where
  "InitializeInstance E handle =
     (let instance = sqlite3_busy_timeout (sqlite3_extended_result_codes handle True) 5000 in
      and_then (execute_non_query E instance Pragma_journal_mode_wal []) (\<lambda>c _.
      and_then (execute_non_query E c Pragma_encoding_UTF16 []) (\<lambda>c _.
      and_then (execute_non_query E c Pragma_foreign_keys_ON []) (\<lambda>c _.
      and_then (execute_scalar_int E c Pragma_user_version []) (\<lambda>c dbversion.
      and_then
        (if dbversion = 0 then
           and_then (execute_non_query E c (Create_table Card) []) (\<lambda>c _.
           and_then (execute_non_query E c (Create_table CardDetail) []) (\<lambda>c _.
           and_then (execute_non_query E c (Create_table CardFaq) []) (\<lambda>c _.
           and_then (execute_non_query E c (Create_table CardFaqRelated) []) (\<lambda>c _.
           and_then (execute_non_query E c (Create_table CardImage) []) (\<lambda>c _.
           and_then (execute_non_query E c Pragma_user_version_1 []) (\<lambda>c _.
           (c, Inr 1)))))))
         else (c, Inr dbversion))
        (\<lambda>c dbversion. if dbversion = 1 then (c, Inr ()) else (c, Inl (Exception ''CLRASSERT''))))))))"

section \<open>Directories and files\<close>

text \<open>
  A path is the list of its components. The world holds the directories that exist, the
  text files with their content in the order a directory listing gives them, the database
  files that exist, and the directories that cannot be created.
  \<open>Path::GetFullPath\<close> is the identity on such paths.
\<close>

type_synonym path = "string list"

record world =
  directories :: "path set"
  files :: "(path \<times> string) list"
  dbfiles :: "path set"
  uncreatable :: "path set"

definition Directory_Exists :: "world \<Rightarrow> path \<Rightarrow> bool" where
  "Directory_Exists W p = (p \<in> directories W)"

definition Path_Combine :: "path \<Rightarrow> string \<Rightarrow> path" where
  "Path_Combine p name = p @ [name]"

definition Path_GetDirectoryName :: "path \<Rightarrow> path" where
  "Path_GetDirectoryName p = butlast p"

text \<open>\<open>Directory::GetFiles\<close>: the files directly in a directory, each with its text.\<close>

definition Directory_GetFiles :: "world \<Rightarrow> path \<Rightarrow> (path \<times> string) list" where
  "Directory_GetFiles W p = filter (\<lambda>f. fst f \<noteq> [] \<and> butlast (fst f) = p) (files W)"

text \<open>\<open>File::WriteAllText\<close> replaces the text of an existing file and creates a new one last.\<close>

fun write_file :: "path \<Rightarrow> string \<Rightarrow> (path \<times> string) list \<Rightarrow> (path \<times> string) list" where
  "write_file p t [] = [(p, t)]"
| "write_file p t (f # fs) = (if fst f = p then (p, t) # fs else f # write_file p t fs)"

definition File_WriteAllText :: "world \<Rightarrow> path \<Rightarrow> string \<Rightarrow> world" where
  "File_WriteAllText W p t = W\<lparr>files := write_file p t (files W)\<rparr>"

definition File_Delete :: "world \<Rightarrow> path \<Rightarrow> world" where
  "File_Delete W p = W\<lparr>dbfiles := dbfiles W - {p}\<rparr>"

definition try_create_directory :: "world \<Rightarrow> path \<Rightarrow> world \<times> bool" where
  "try_create_directory W p =
     (if \<not> Directory_Exists W p
      then (if p \<in> uncreatable W then (W, False)
            else (W\<lparr>directories := insert p (directories W)\<rparr>, True))
      else (W, True))"

section \<open>Vacuum (Database.cpp)\<close>

text \<open>The managed object: its handle and its disposal flag.\<close>

record Database =
  m_handle :: "(sql, sqlite) conn"
  m_disposed :: bool

text \<open>
  \<open>Database::Vacuum(oldsize)\<close> returns the object, the old size and the new size; sizes
  are 64-bit products.
\<close>

definition Vacuum ::
  "(sql, sqlite) engine \<Rightarrow> Database \<Rightarrow> Database \<times> (exn + int \<times> int)" where
  "Vacuum E this =
     (if m_disposed this then (this, Inl ObjectDisposedException)
      else
        (case
           and_then (execute_scalar_int E (m_handle this) Pragma_page_size []) (\<lambda>c pagesize.
           and_then (execute_scalar_int64 E c Pragma_page_count []) (\<lambda>c pagecount.
           (let oldsize = sint (word_of_int (pagecount * pagesize) :: 64 word) in
            and_then (execute_non_query E c Vacuum_statement []) (\<lambda>c _.
            and_then (execute_scalar_int E c Pragma_page_size []) (\<lambda>c pagesize.
            and_then (execute_scalar_int64 E c Pragma_page_count []) (\<lambda>c pagecount.
            (c, Inr (oldsize, sint (word_of_int (pagecount * pagesize) :: 64 word)))))))))
         of (c, r) \<Rightarrow> (this\<lparr>m_handle := c\<rparr>, r)))"

section \<open>Import (Import.cpp)\<close>

text \<open>
  The \<open>execute_non_query\<close> of Import.cpp: no parameters, the statement finalized in a
  \<open>finally\<close> block.
\<close>

definition Import_execute_non_query ::
  "(sql, sqlite) engine \<Rightarrow> (sql, sqlite) conn \<Rightarrow> sql \<Rightarrow> (sql, sqlite) conn \<times> (exn + int)" where
  "Import_execute_non_query E handle q =
     (case sqlite3_prepare16_v2 E handle q of
        (c, (result, None)) \<Rightarrow> (c, Inl (SQLiteException result))
      | (c, (result, Some statement)) \<Rightarrow>
          if result \<noteq> SQLITE_OK then (c, Inl (SQLiteException result))
          else
            (case step_while_row (c, statement) of
               (cs, result') \<Rightarrow>
                 if result' \<noteq> SQLITE_DONE
                 then (sqlite3_finalize cs, Inl (SQLiteException result'))
                 else (let changes = sqlite3_changes (fst cs) in
                       (sqlite3_finalize cs, Inr changes))))"

text \<open>
  The \<open>for each\<close> loop of the five import functions, over the texts of the files: bind the
  pinned text as parameter 1 with \<open>SQLITE_STATIC\<close>, step once expecting \<open>SQLITE_DONE\<close>,
  clear the bindings and reset the statement.
\<close>

fun import_files ::
  "('q, 'd) conn \<times> 'd stmt \<Rightarrow> string list \<Rightarrow> (('q, 'd) conn \<times> 'd stmt) \<times> exn option" where
  "import_files cs [] = (cs, None)"
| "import_files cs (json # rest) =
     (case sqlite3_bind_text16 cs 1 json SQLITE_STATIC of
        (cs1, result) \<Rightarrow>
          if result \<noteq> SQLITE_OK then (cs1, Some (SQLiteException result))
          else
            (case sqlite3_step cs1 of
               (cs2, result) \<Rightarrow>
                 if result \<noteq> SQLITE_DONE then (cs2, Some (SQLiteException result))
                 else
                   (case sqlite3_clear_bindings cs2 of
                      (cs3, result) \<Rightarrow>
                        (case (if result = SQLITE_OK then sqlite3_reset cs3 else (cs3, result)) of
                           (cs4, result) \<Rightarrow>
                             if result \<noteq> SQLITE_OK then (cs4, Some (SQLiteException result))
                             else import_files cs4 rest))))"

text \<open>
  The five import functions differ in their statement text only: prepare the statement,
  run the loop over \<open>Directory::GetFiles(path)\<close>, finalize in the \<open>finally\<close> block.
\<close>

definition import_statement ::
  "('q, 'd) engine \<Rightarrow> world \<Rightarrow> ('q, 'd) conn \<Rightarrow> path \<Rightarrow> 'q \<Rightarrow> ('q, 'd) conn \<times> (exn + unit)" where
  "import_statement E W handle p q =
     (case sqlite3_prepare16_v2 E handle q of
        (c, (result, None)) \<Rightarrow> (c, Inl (SQLiteException result))
      | (c, (result, Some statement)) \<Rightarrow>
          if result \<noteq> SQLITE_OK then (c, Inl (SQLiteException result))
          else
            (case import_files (c, statement) (map snd (Directory_GetFiles W p)) of
               (cs, Some e) \<Rightarrow> (sqlite3_finalize cs, Inl e)
             | (cs, None) \<Rightarrow> (sqlite3_finalize cs, Inr ())))"

definition import_card ::
  "(sql, sqlite) engine \<Rightarrow> world \<Rightarrow> (sql, sqlite) conn \<Rightarrow> path \<Rightarrow> (sql, sqlite) conn \<times> (exn + unit)" where
  "import_card E W handle p = import_statement E W handle p (Insert_into Card)"

definition import_carddetail ::
  "(sql, sqlite) engine \<Rightarrow> world \<Rightarrow> (sql, sqlite) conn \<Rightarrow> path \<Rightarrow> (sql, sqlite) conn \<times> (exn + unit)" where
  "import_carddetail E W handle p = import_statement E W handle p (Insert_into CardDetail)"

definition import_cardfaq ::
  "(sql, sqlite) engine \<Rightarrow> world \<Rightarrow> (sql, sqlite) conn \<Rightarrow> path \<Rightarrow> (sql, sqlite) conn \<times> (exn + unit)" where
  "import_cardfaq E W handle p = import_statement E W handle p (Insert_into CardFaq)"

definition import_cardfaqrelated ::
  "(sql, sqlite) engine \<Rightarrow> world \<Rightarrow> (sql, sqlite) conn \<Rightarrow> path \<Rightarrow> (sql, sqlite) conn \<times> (exn + unit)" where
  "import_cardfaqrelated E W handle p = import_statement E W handle p (Insert_into CardFaqRelated)"

definition import_cardimage ::
  "(sql, sqlite) engine \<Rightarrow> world \<Rightarrow> (sql, sqlite) conn \<Rightarrow> path \<Rightarrow> (sql, sqlite) conn \<times> (exn + unit)" where
  "import_cardimage E W handle p = import_statement E W handle p (Insert_into CardImage)"

text \<open>
  \<open>sqlite3_open16\<close> on a path with no file: the file is created with an empty database
  when its directory exists, and the open fails with \<open>SQLITE_CANTOPEN\<close> (14) otherwise.
\<close>

definition sqlite3_open16 :: "world \<Rightarrow> path \<Rightarrow> world \<times> (rc \<times> (sql, sqlite) conn option)" where
  "sqlite3_open16 W p =
     (if Path_GetDirectoryName p \<in> directories W
      then (W\<lparr>dbfiles := insert p (dbfiles W)\<rparr>,
            (SQLITE_OK, Some (open_connection empty_database)))
      else (W, (SQLITE_FAIL 14, None)))"

text \<open>
  \<open>Database::Import\<close>, in four parts. \<open>import_tables\<close> is the part of the \<open>try\<close> block
  between the begin and the commit of the transaction; \<open>Import_try\<close> is the whole
  \<open>try\<close> block; \<open>Import_open\<close> is what comes before the \<open>try\<close> block, up to the
  initialized connection on the new file; \<open>Import\<close> is the function with its null-argument
  guards and its \<open>catch\<close> block. \<open>s_result\<close> is the
  static member that the constructor of \<open>Database\<close> tests. The result is the world and
  either the exception with the connection as it was left (if one was opened) or the
  returned object.
\<close>

definition import_tables ::
  "(sql, sqlite) engine \<Rightarrow> world \<Rightarrow> (sql, sqlite) conn \<Rightarrow> path \<Rightarrow> (sql, sqlite) conn \<times> (exn + unit)" where
  "import_tables E W handle p =
     (let cardpath = Path_Combine p ''card'' in
      if \<not> Directory_Exists W cardpath
      then (handle, Inl (Exception ''Unable to access card import directory''))
      else
        and_then (import_card E W handle cardpath) (\<lambda>c _.
        and_then (import_carddetail E W c cardpath) (\<lambda>c _.
        and_then (import_cardfaq E W c cardpath) (\<lambda>c _.
        and_then (import_cardfaqrelated E W c cardpath) (\<lambda>c _.
        import_cardimage E W c cardpath)))))"

definition Import_try ::
  "(sql, sqlite) engine \<Rightarrow> rc \<Rightarrow> world \<Rightarrow> (sql, sqlite) conn \<Rightarrow> path \<Rightarrow>
     (sql, sqlite) conn \<times> (exn + Database)" where
  "Import_try E s_result W handle p =
     and_then (Import_execute_non_query E handle Begin_immediate_transaction) (\<lambda>c _.
     and_then (import_tables E W c p) (\<lambda>c _.
     and_then (Import_execute_non_query E c Commit_transaction) (\<lambda>c _.
     if s_result \<noteq> SQLITE_OK
     then (c, Inl (Exception ''Static initialization failed''))
     else
       (case Vacuum E \<lparr>m_handle = c, m_disposed = False\<rparr> of
          (database, Inl e) \<Rightarrow> (m_handle database, Inl e)
        | (database, Inr sizes) \<Rightarrow> (m_handle database, Inr database)))))"

definition Import_open ::
  "(sql, sqlite) engine \<Rightarrow> world \<Rightarrow> path \<Rightarrow> path \<Rightarrow>
     world \<times> (exn \<times> (sql, sqlite) conn option + (sql, sqlite) conn)" where
  "Import_open E W p out =
     (if \<not> Directory_Exists W p then (W, Inl (Exception ''Unable to access import path'', None))
      else
        (case try_create_directory W (Path_GetDirectoryName out) of
           (W1, False) \<Rightarrow> (W1, Inl (Exception ''Unable to create output directory'', None))
         | (W1, True) \<Rightarrow>
             (let W2 = (if out \<in> dbfiles W1 then File_Delete W1 out else W1) in
              case sqlite3_open16 W2 out of
                (W3, (result, None)) \<Rightarrow> (W3, Inl (SQLiteException result, None))
              | (W3, (result, Some handle)) \<Rightarrow>
                  if result \<noteq> SQLITE_OK
                  then (W3, Inl (SQLiteException result, Some (sqlite3_close handle)))
                  else
                    (case InitializeInstance E handle of
                       (c, Inl e) \<Rightarrow> (W3, Inl (e, Some c))
                     | (c, Inr u) \<Rightarrow> (W3, Inr c)))))"

definition Import ::
  "(sql, sqlite) engine \<Rightarrow> rc \<Rightarrow> world \<Rightarrow> path option \<Rightarrow> path option \<Rightarrow>
     world \<times> (exn \<times> (sql, sqlite) conn option + Database)" where
  "Import E s_result W path outputfile =
     (case path of
        None \<Rightarrow> (W, Inl (ArgumentNullException ''path'', None))
      | Some p \<Rightarrow>
     (case outputfile of
        None \<Rightarrow> (W, Inl (ArgumentNullException ''outputfile'', None))
      | Some out \<Rightarrow>
     (case Import_open E W p out of
        (W3, Inl x) \<Rightarrow> (W3, Inl x)
      | (W3, Inr handle) \<Rightarrow>
          (case Import_try E s_result W3 handle p of
             (c1, Inr database) \<Rightarrow> (W3, Inr database)
           | (c1, Inl e) \<Rightarrow>
               (case Import_execute_non_query E c1 Rollback_transaction of
                  (c2, Inl e') \<Rightarrow> (W3, Inl (e', Some c2))
                | (c2, Inr n) \<Rightarrow>
                    (File_Delete W3 out, Inl (e, Some (sqlite3_close c2))))))))"

section \<open>Export (Export.cpp)\<close>

definition sqlite3_column_text16 :: "'d stmt \<Rightarrow> nat \<Rightarrow> string option" where
  "sqlite3_column_text16 st i = value_text16 (cell (current st) i)"

text \<open>
  The row loop of \<open>export_card\<close>: while the step gave a row, write the text of column 1 to
  the file named after column 0 (a null card id is skipped), and step again.
\<close>

function export_loop ::
  "world \<Rightarrow> path \<Rightarrow> (('q, 'd) conn \<times> 'd stmt) \<times> rc \<Rightarrow> world \<times> (('q, 'd) conn \<times> 'd stmt) \<times> rc" where
  "export_loop W p (cs, result) =
     (if result = SQLITE_ROW
      then export_loop
             (case sqlite3_column_text16 (snd cs) 0 of
                None \<Rightarrow> W
              | Some cardid \<Rightarrow>
                  File_WriteAllText W (Path_Combine p (cardid @ ''.json''))
                    (case sqlite3_column_text16 (snd cs) 1 of None \<Rightarrow> [] | Some json \<Rightarrow> json))
             p (sqlite3_step cs)
      else (W, cs, result))"
  by pat_completeness auto
termination
proof (relation "measure (\<lambda>(W, p, cs, r). if r = SQLITE_ROW
          then Suc (if started (snd cs) then length (pending (snd cs))
                    else Suc (length (rows (run (prog (snd cs)) (bound (snd cs)) (store (fst cs))))))
          else 0)")
  show "wf (measure (\<lambda>(W::world, p::path, cs::('q, 'd) conn \<times> 'd stmt, r). if r = SQLITE_ROW
          then Suc (if started (snd cs) then length (pending (snd cs))
                    else Suc (length (rows (run (prog (snd cs)) (bound (snd cs)) (store (fst cs))))))
          else 0))"
    by simp
next
  fix W :: world and p :: path and cs :: "('q, 'd) conn \<times> 'd stmt" and result :: rc
  assume "result = SQLITE_ROW"
  then show "((case sqlite3_column_text16 (snd cs) 0 of
                None \<Rightarrow> W
              | Some cardid \<Rightarrow>
                  File_WriteAllText W (Path_Combine p (cardid @ ''.json''))
                    (case sqlite3_column_text16 (snd cs) 1 of None \<Rightarrow> [] | Some json \<Rightarrow> json),
              p, sqlite3_step cs), W, p, cs, result)
      \<in> measure (\<lambda>(W, p, cs, r). if r = SQLITE_ROW
          then Suc (if started (snd cs) then length (pending (snd cs))
                    else Suc (length (rows (run (prog (snd cs)) (bound (snd cs)) (store (fst cs))))))
          else 0)"
    by (auto simp: sqlite3_step_def record_call_def Let_def split: if_splits list.splits option.splits)
qed

declare export_loop.simps [simp del]

definition export_card ::
  "('q, 'd) engine \<Rightarrow> world \<Rightarrow> ('q, 'd) conn \<Rightarrow> path \<Rightarrow> 'q \<Rightarrow> (world \<times> ('q, 'd) conn) \<times> (exn + unit)" where
  "export_card E W handle p q =
     (case sqlite3_prepare16_v2 E handle q of
        (c, (result, None)) \<Rightarrow> ((W, c), Inl (SQLiteException result))
      | (c, (result, Some statement)) \<Rightarrow>
          if result \<noteq> SQLITE_OK then ((W, c), Inl (SQLiteException result))
          else
            (case export_loop W p (sqlite3_step (c, statement)) of
               (W', cs, result') \<Rightarrow>
                 if result' \<noteq> SQLITE_DONE
                 then ((W', sqlite3_finalize cs), Inl (SQLiteException result'))
                 else ((W', sqlite3_finalize cs), Inr ())))"

definition Export ::
  "(sql, sqlite) engine \<Rightarrow> world \<Rightarrow> Database \<Rightarrow> path option \<Rightarrow> (world \<times> Database) \<times> (exn + unit)" where
  "Export E W this path =
     (if m_disposed this then ((W, this), Inl ObjectDisposedException)
      else
        (case path of
           None \<Rightarrow> ((W, this), Inl (ArgumentNullException ''path''))
         | Some p \<Rightarrow>
             (case try_create_directory W p of
                (W1, False) \<Rightarrow> ((W1, this), Inl (Exception ''Unable to create specified export directory''))
              | (W1, True) \<Rightarrow>
                  (let cardpath = Path_Combine p ''card'' in
                   case try_create_directory W1 cardpath of
                     (W2, False) \<Rightarrow> ((W2, this), Inl (Exception ''Unable to create card export directory''))
                   | (W2, True) \<Rightarrow>
                       (case export_card E W2 (m_handle this) cardpath Select_export_card of
                          ((W3, c), r) \<Rightarrow> ((W3, this\<lparr>m_handle := c\<rparr>), r))))))"

section \<open>What an import computes on the store\<close>

text \<open>
  The insert loop of an import function, seen from the store: for each file text in
  turn, the rows that the statement selects from it are inserted; the first failure ends
  the run. \<open>import_database\<close> is the five loops of \<open>Database::Import\<close> one after the other.
\<close>

fun import_all ::
  "(string \<Rightarrow> int + 'r list) \<Rightarrow> (sqlite \<Rightarrow> 'r \<Rightarrow> int + sqlite) \<Rightarrow> string list \<Rightarrow> sqlite \<Rightarrow> int + sqlite" where
  "import_all sel ins [] s = Inr s"
| "import_all sel ins (t # ts) s =
     (case sel t of
        Inl e \<Rightarrow> Inl e
      | Inr rs \<Rightarrow>
          (case insert_rows ins rs s of
             Inl e \<Rightarrow> Inl e
           | Inr s' \<Rightarrow> import_all sel ins ts s'))"

definition import_database :: "builtins \<Rightarrow> string list \<Rightarrow> sqlite \<Rightarrow> int + sqlite" where
  "import_database B ts s =
     (case import_all (\<lambda>t. select_card B (SQL_TEXT t)) insert_card ts s of
        Inl e \<Rightarrow> Inl e
      | Inr s1 \<Rightarrow>
     (case import_all (\<lambda>t. select_carddetail B (SQL_TEXT t)) (insert_carddetail B) ts s1 of
        Inl e \<Rightarrow> Inl e
      | Inr s2 \<Rightarrow>
     (case import_all (\<lambda>t. select_cardfaq B (SQL_TEXT t)) insert_cardfaq ts s2 of
        Inl e \<Rightarrow> Inl e
      | Inr s3 \<Rightarrow>
     (case import_all (\<lambda>t. select_cardfaqrelated B (SQL_TEXT t)) insert_cardfaqrelated ts s3 of
        Inl e \<Rightarrow> Inl e
      | Inr s4 \<Rightarrow>
          import_all (\<lambda>t. select_cardimage B (SQL_TEXT t)) insert_cardimage ts s4))))"

text \<open>Two states of a store that differ in the rows of the tables at most.\<close>

definition only_rows :: "sqlite \<Rightarrow> sqlite \<Rightarrow> bool" where
  "only_rows s s' =
     (only_db s s' \<and> tables (db s') = tables (db s) \<and> user_version (db s') = user_version (db s))"

section \<open>Concrete engines and statements for evaluation\<close>

text \<open>
  An engine whose every statement takes \<open>n\<close> parameters, returns the rows \<open>rs\<close> and
  completes with \<open>f\<close>, leaving the store alone; and a statement positioned on a row.
\<close>

definition scripted_program :: "nat \<Rightarrow> row list \<Rightarrow> int option \<Rightarrow> unit program" where
  "scripted_program n rs f =
     \<lparr>nparams = n, run = (\<lambda>b d. \<lparr>rows = rs, final = f, after = d, changed = None\<rparr>)\<rparr>"

definition scripted_engine :: "nat \<Rightarrow> row list \<Rightarrow> int option \<Rightarrow> (string, unit) engine" where
  "scripted_engine n rs f =
     \<lparr>compile = (\<lambda>q d. Inr (scripted_program n rs f)), text_int = (\<lambda>s. 0), blob_int = (\<lambda>b. 0)\<rparr>"

definition statement_on_row :: "row \<Rightarrow> unit stmt" where
  "statement_on_row r =
     \<lparr>prog = scripted_program 0 [] None, bound = (\<lambda>i. SQL_NULL), started = True, pending = [],
      fin = None, current = r\<rparr>"

text \<open>
  Builtins for evaluation that read no JSON and encode nothing.
\<close>

definition plain_builtins :: builtins where
  "plain_builtins =
     \<lparr>json_parse = (\<lambda>t. None), json_write = (\<lambda>j. []), prettyjson = (\<lambda>j. []),
      text_numeric = SQL_TEXT, text_integer = (\<lambda>t. 0),
      CryptBinaryToStringW = (\<lambda>b. None), CryptStringToBinaryW = (\<lambda>t. None),
      page_size = 4096, page_count = (\<lambda>d. 1)\<rparr>"


text \<open>
  A world with an import directory \<open>in/card\<close> that holds one file, and a connection on a
  database in which only the card table exists.
\<close>

definition one_file_world :: "string \<Rightarrow> world" where
  "one_file_world t =
     \<lparr>directories = {[''in''], [''in'', ''card'']},
      files = [([''in'', ''card'', ''A1.json''], t)], dbfiles = {}, uncreatable = {}\<rparr>"

definition card_table_only :: database where
  "card_table_only = empty_database\<lparr>tables := {Card}\<rparr>"











section \<open>Properties of the engine calls\<close>












section \<open>Scalar helpers\<close>

lemma bind_parameter_ok:
  assumes "1 \<le> i" "i \<le> nparams (prog st)"
  shows "\<exists>c'. bind_parameter (c, st) i v =
            (((c', st\<lparr>bound := (bound st)(i := (case v of Some s \<Rightarrow> SQL_TEXT s | None \<Rightarrow> SQL_NULL))\<rparr>), Suc i), None)
            \<and> store c' = store c"
  using assms
  by (cases v) (simp_all add: bind_parameter_def sqlite3_bind_text16_def sqlite3_bind_null_def
      record_call_def Let_def)

lemma bind_parameters_ok:
  "1 \<le> i \<Longrightarrow> i + length vs \<le> Suc (nparams (prog st)) \<Longrightarrow>
   \<exists>c'. bind_parameters (c, st) i vs =
          ((c', st\<lparr>bound := (\<lambda>k. if i \<le> k \<and> k < i + length vs
                 then (case vs ! (k - i) of Some s \<Rightarrow> SQL_TEXT s | None \<Rightarrow> SQL_NULL) else bound st k)\<rparr>), None)
        \<and> store c' = store c"
proof (induction vs arbitrary: c st i)
  case Nil
  have "(\<lambda>k. if i \<le> k \<and> k < i + length ([]::string option list)
          then (case [] ! (k - i) of Some s \<Rightarrow> SQL_TEXT s | None \<Rightarrow> SQL_NULL) else bound st k) = bound st"
    by (rule ext) auto
  then show ?case by simp
next
  case (Cons v vs)
  let ?pv = "\<lambda>v. case v of Some s \<Rightarrow> SQL_TEXT s | None \<Rightarrow> SQL_NULL"
  let ?st1 = "st\<lparr>bound := (bound st)(i := ?pv v)\<rparr>"
  from bind_parameter_ok [of i st c v] Cons.prems
  obtain c1 where b: "bind_parameter (c, st) i v = (((c1, ?st1), Suc i), None)"
    and s1: "store c1 = store c" by auto
  from Cons.IH [of "Suc i" ?st1 c1] Cons.prems
  obtain c2 where r: "bind_parameters (c1, ?st1) (Suc i) vs =
      ((c2, ?st1\<lparr>bound := (\<lambda>k. if Suc i \<le> k \<and> k < Suc i + length vs then ?pv (vs ! (k - Suc i))
          else bound ?st1 k)\<rparr>), None)"
    and s2: "store c2 = store c1" by auto
  have "(\<lambda>k. if Suc i \<le> k \<and> k < Suc i + length vs then ?pv (vs ! (k - Suc i)) else bound ?st1 k) =
        (\<lambda>k. if i \<le> k \<and> k < i + length (v # vs) then ?pv ((v # vs) ! (k - i)) else bound st k)"
    by (rule ext) (auto simp: nth_Cons' Suc_diff_Suc less_Suc_eq_le)
  then show ?case using b r s1 s2 by simp
qed

lemma bind_parameters_fresh:
  assumes "sqlite3_prepare16_v2 E c q = (c1, (r, Some st))" and "length ps \<le> nparams (prog st)"
  shows "\<exists>c2. bind_parameters (c1, st) 1 ps = ((c2, st\<lparr>bound := parameter_values ps\<rparr>), None)
            \<and> store c2 = store c"
proof -
  have st: "bound st = (\<lambda>_. SQL_NULL)" and c1: "store c1 = store c"
    using assms(1) by (auto simp: sqlite3_prepare16_v2_def record_call_def split: sum.splits)
  have "(\<lambda>k. if 1 \<le> k \<and> k < 1 + length ps
           then (case ps ! (k - 1) of Some s \<Rightarrow> SQL_TEXT s | None \<Rightarrow> SQL_NULL) else bound st k)
        = parameter_values ps"
    by (rule ext) (auto simp: parameter_values_def st)
  then show ?thesis
    using bind_parameters_ok [of 1 ps st c1] assms(2) c1 by auto
qed

lemma scalar_step:
  assumes "sqlite3_prepare16_v2 E c q = (c1, (r, Some st))"
      and "bind_parameters (c1, st) 1 ps = ((c2, st\<lparr>bound := parameter_values ps\<rparr>), None)"
      and "store c2 = store c"
      and "compile E q (store c) = Inr p"
  shows "sqlite3_step (c2, st\<lparr>bound := parameter_values ps\<rparr>) =
           (case rows (run p (parameter_values ps) (store c)) of
              x # xs \<Rightarrow> ((fst (fst (sqlite3_step (c2, st\<lparr>bound := parameter_values ps\<rparr>))),
                           (snd (fst (sqlite3_step (c2, st\<lparr>bound := parameter_values ps\<rparr>))))), SQLITE_ROW)
            | [] \<Rightarrow> (fst (sqlite3_step (c2, st\<lparr>bound := parameter_values ps\<rparr>)),
                      (case final (run p (parameter_values ps) (store c)) of
                         None \<Rightarrow> SQLITE_DONE | Some e \<Rightarrow> SQLITE_FAIL e)))
         \<and> (\<forall>x xs. rows (run p (parameter_values ps) (store c)) = x # xs \<longrightarrow>
               current (snd (fst (sqlite3_step (c2, st\<lparr>bound := parameter_values ps\<rparr>)))) = x)"
proof -
  have st: "prog st = p" "started st = False"
    using assms(1,4) by (auto simp: sqlite3_prepare16_v2_def split: sum.splits)
  show ?thesis
    using st assms(3)
    by (auto simp: sqlite3_step_def record_call_def Let_def split: list.splits option.splits)
qed

text \<open>
  C8. When the statement compiles and the parameters fit it: if the query returns at
  least one row, \<open>execute_scalar_int\<close> returns column 0 of the first row read as a 32-bit
  integer and \<open>execute_scalar_int64\<close> returns it read as a 64-bit integer; if the query
  completes without a row, both return 0.
\<close>

theorem scalar_helpers_first_row_or_zero:
  assumes "compile E q (store c) = Inr p" and "length ps \<le> nparams p"
  shows "(\<forall>x xs. rows (run p (parameter_values ps) (store c)) = x # xs \<longrightarrow>
            snd (execute_scalar_int E c q ps) = Inr (value_int E (cell x 0)) \<and>
            snd (execute_scalar_int64 E c q ps) = Inr (value_int64 E (cell x 0)))
       \<and> (rows (run p (parameter_values ps) (store c)) = [] \<and>
          final (run p (parameter_values ps) (store c)) = None \<longrightarrow>
            snd (execute_scalar_int E c q ps) = Inr 0 \<and>
            snd (execute_scalar_int64 E c q ps) = Inr 0)"
proof -
  obtain c1 st where p: "sqlite3_prepare16_v2 E c q = (c1, (SQLITE_OK, Some st))" and pst: "prog st = p"
    using assms(1) by (auto simp: sqlite3_prepare16_v2_def)
  from bind_parameters_fresh [OF p] assms(2) pst
  obtain c2 where b: "bind_parameters (c1, st) 1 ps = ((c2, st\<lparr>bound := parameter_values ps\<rparr>), None)"
    and s2: "store c2 = store c" by auto
  note s = scalar_step [OF p b s2 assms(1)]
  let ?cs = "(c2, st\<lparr>bound := parameter_values ps\<rparr>)"
  have row: "snd (execute_scalar_int E c q ps) = Inr (value_int E (cell x 0)) \<and>
             snd (execute_scalar_int64 E c q ps) = Inr (value_int64 E (cell x 0))"
    if "rows (run p (parameter_values ps) (store c)) = x # xs" for x xs
  proof -
    have r: "snd (sqlite3_step ?cs) = SQLITE_ROW" and cur: "current (snd (fst (sqlite3_step ?cs))) = x"
      using s that by (simp_all split: list.splits) (metis snd_conv)
    obtain cs' where st': "sqlite3_step ?cs = (cs', SQLITE_ROW)"
      using r by (metis prod.collapse)
    show ?thesis
      using p b st' cur
      by (simp add: execute_scalar_int_def execute_scalar_int64_def sqlite3_column_int_def
          sqlite3_column_int64_def)
  qed
  have none: "snd (execute_scalar_int E c q ps) = Inr 0 \<and> snd (execute_scalar_int64 E c q ps) = Inr 0"
    if "rows (run p (parameter_values ps) (store c)) = []"
      and "final (run p (parameter_values ps) (store c)) = None"
  proof -
    have r: "snd (sqlite3_step ?cs) = SQLITE_DONE"
      using s that by (simp split: list.splits) (metis snd_conv)
    obtain cs' where st': "sqlite3_step ?cs = (cs', SQLITE_DONE)"
      using r by (metis prod.collapse)
    show ?thesis
      using p b st' by (simp add: execute_scalar_int_def execute_scalar_int64_def)
  qed
  show ?thesis using row none by blast
qed

theorem scalar_helpers_first_row_or_zero_witness:
  "snd (execute_scalar_int (scripted_engine 0 [[SQL_INTEGER 4294967303], [SQL_INTEGER 9]] None)
          (fresh_conn ()) ''pragma page_size'' []) = Inr 7 \<and>
   snd (execute_scalar_int64 (scripted_engine 0 [[SQL_INTEGER 4294967303], [SQL_INTEGER 9]] None)
          (fresh_conn ()) ''pragma page_size'' []) = Inr 4294967303 \<and>
   snd (execute_scalar_int (scripted_engine 0 [] None) (fresh_conn ()) ''pragma page_size'' []) = Inr 0 \<and>
   snd (execute_scalar_int64 (scripted_engine 0 [] None) (fresh_conn ()) ''pragma page_size'' []) = Inr 0"
proof -
  have c1: "compile (scripted_engine 0 [[SQL_INTEGER 4294967303], [SQL_INTEGER 9]] None)
              ''pragma page_size'' (store (fresh_conn ()))
            = Inr (scripted_program 0 [[SQL_INTEGER 4294967303], [SQL_INTEGER 9]] None)"
    by (simp add: scripted_engine_def)
  have c2: "compile (scripted_engine 0 [] None) ''pragma page_size'' (store (fresh_conn ()))
            = Inr (scripted_program 0 [] None)"
    by (simp add: scripted_engine_def)
  have n1: "length ([]::string option list)
              \<le> nparams (scripted_program 0 [[SQL_INTEGER 4294967303], [SQL_INTEGER 9]] None)"
    and n2: "length ([]::string option list) \<le> nparams (scripted_program 0 [] None)"
    by (simp_all add: scripted_program_def)
  show ?thesis
    using scalar_helpers_first_row_or_zero [OF c1 n1] scalar_helpers_first_row_or_zero [OF c2 n2]
    by (simp add: scripted_program_def value_int_def value_int64_def cell_def)
qed

section \<open>Conversion of a blob column into a Guid\<close>

text \<open>
  C9, as stated, fails on the code: a blob of length 0 is not 16 bytes long, and
  \<open>column_uuid\<close> answers the empty Guid for it instead of raising.
\<close>

theorem column_uuid_zero_length_counterexample:
  "value_bytes (cell (current (statement_on_row [SQL_BLOB []])) 0) \<noteq> sizeof_UUID \<and>
   column_uuid (statement_on_row [SQL_BLOB []]) 0 = Inr Guid_Empty"
  by (simp add: column_uuid_def statement_on_row_def cell_def value_bytes_def value_blob_def
      sizeof_UUID_def)

text \<open>
  C9, amended. A column whose byte length is neither 0 nor 16 makes \<open>column_uuid\<close> raise;
  a length of 0 (an empty blob or a null) gives the empty Guid; and whenever a Guid is
  returned it is either the empty Guid of a zero-length column or the 16 bytes of the column.
\<close>

theorem column_uuid_wrong_length_raises:
  "(value_bytes (cell (current st) i) \<noteq> 0 \<and> value_bytes (cell (current st) i) \<noteq> 16
      \<longrightarrow> (\<exists>msg. column_uuid st i = Inl (Exception msg))) \<and>
   (value_bytes (cell (current st) i) = 0 \<longrightarrow> column_uuid st i = Inr Guid_Empty) \<and>
   (\<forall>g. column_uuid st i = Inr g \<longrightarrow>
      (value_bytes (cell (current st) i) = 0 \<and> g = Guid_Empty) \<or>
      (value_bytes (cell (current st) i) = 16 \<and> g = Guid (value_blob (cell (current st) i))))"
  by (auto simp: column_uuid_def sizeof_UUID_def Let_def)

theorem column_uuid_wrong_length_raises_witness:
  "value_bytes (cell (current (statement_on_row [SQL_BLOB [1, 2, 3]])) 0) \<noteq> 0 \<and>
   value_bytes (cell (current (statement_on_row [SQL_BLOB [1, 2, 3]])) 0) \<noteq> 16 \<and>
   column_uuid (statement_on_row [SQL_BLOB [1, 2, 3]]) 0
     = Inl (Exception ''Invalid BLOB length for conversion to System::Guid'') \<and>
   column_uuid (statement_on_row [SQL_NULL]) 0 = Inr Guid_Empty"
proof -
  have n: "value_bytes (cell (current (statement_on_row [SQL_BLOB [1, 2, 3]])) 0) = 3"
    by (simp add: statement_on_row_def cell_def value_bytes_def value_blob_def)
  have z: "value_bytes (cell (current (statement_on_row [SQL_NULL])) 0) = 0"
    by (simp add: statement_on_row_def cell_def value_bytes_def value_blob_def)
  have "\<exists>msg. column_uuid (statement_on_row [SQL_BLOB [1, 2, 3]]) 0 = Inl (Exception msg)"
    using column_uuid_wrong_length_raises [of "statement_on_row [SQL_BLOB [1, 2, 3]]" 0] n by simp
  moreover have "column_uuid (statement_on_row [SQL_NULL]) 0 = Inr Guid_Empty"
    using column_uuid_wrong_length_raises [of "statement_on_row [SQL_NULL]" 0] z by simp
  ultimately show ?thesis
    using n by (auto simp: column_uuid_def sizeof_UUID_def Let_def)
qed

section \<open>What the helpers do to a connection\<close>

lemma statements_append [simp]: "statements (xs @ ys) = statements xs @ statements ys"
  by (simp add: statements_def)

lemma statements_simps [simp]:
  "statements [] = []"
  "statements (Prepare q # ks) = q # statements ks"
  "statements (Step # ks) = statements ks"
  "statements (Finalize # ks) = statements ks"
  "statements (Reset # ks) = statements ks"
  "statements (Clear_bindings # ks) = statements ks"
  "statements (Bind_null i # ks) = statements ks"
  "statements (Bind_text16 i s d # ks) = statements ks"
  by (simp_all add: statements_def)

lemma step_while_row_started:
  "started st \<Longrightarrow>
     store (fst (fst (step_while_row (c, st)))) = store c \<and>
     changes (fst (fst (step_while_row (c, st)))) = changes c \<and>
     statements (calls (fst (fst (step_while_row (c, st))))) = statements (calls c) \<and>
     snd (step_while_row (c, st)) = completion (fin st)"
proof (induction "pending st" arbitrary: c st)
  case Nil
  have "step_while_row (c, st) = ((record_call Step c, st), completion (fin st))"
    using Nil by (subst step_while_row.simps)
       (auto simp: sqlite3_step_def Let_def completion_def split: option.splits)
  then show ?case by (simp add: record_call_def)
next
  case (Cons r rs)
  let ?c = "record_call Step c" and ?st = "st\<lparr>pending := rs, current := r\<rparr>"
  have s: "sqlite3_step (c, st) = ((?c, ?st), SQLITE_ROW)"
    using Cons.hyps(2) [symmetric] Cons.prems by (simp add: sqlite3_step_def Let_def)
  have "rs = pending ?st" "started ?st" using Cons.prems by simp_all
  moreover have "step_while_row (c, st) = step_while_row (?c, ?st)"
    by (subst step_while_row.simps) (simp add: s)
  ultimately show ?case
    using Cons.hyps(1) [of ?st ?c] by (simp add: record_call_def)
qed

lemma step_while_row_fresh:
  assumes "\<not> started st"
  shows "store (fst (fst (step_while_row (c, st)))) = after (run (prog st) (bound st) (store c)) \<and>
     changes (fst (fst (step_while_row (c, st)))) =
       (case changed (run (prog st) (bound st) (store c)) of None \<Rightarrow> changes c | Some n \<Rightarrow> n) \<and>
     statements (calls (fst (fst (step_while_row (c, st))))) = statements (calls c) \<and>
     snd (step_while_row (c, st)) = completion (final (run (prog st) (bound st) (store c)))"
proof -
  let ?out = "run (prog st) (bound st) (store c)"
  let ?c = "(record_call Step c)\<lparr>store := after ?out,
              changes := (case changed ?out of None \<Rightarrow> changes c | Some n \<Rightarrow> n)\<rparr>"
  show ?thesis
  proof (cases "rows ?out")
    case Nil
    have "step_while_row (c, st) =
            ((?c, st\<lparr>started := True, pending := [], fin := final ?out\<rparr>), completion (final ?out))"
      using Nil assms by (subst step_while_row.simps)
         (auto simp: sqlite3_step_def Let_def record_call_def completion_def split: option.splits)
    then show ?thesis by (simp add: record_call_def)
  next
    case (Cons r rs)
    let ?st = "st\<lparr>started := True, pending := rs, fin := final ?out, current := r\<rparr>"
    have s: "sqlite3_step (c, st) = ((?c, ?st), SQLITE_ROW)"
      using Cons assms by (simp add: sqlite3_step_def Let_def record_call_def split: option.splits)
    have "started ?st" by simp
    moreover have "step_while_row (c, st) = step_while_row (?c, ?st)"
      by (subst step_while_row.simps) (simp add: s)
    ultimately show ?thesis
      using step_while_row_started [of ?st ?c] by (simp add: record_call_def)
  qed
qed

lemma prepare_calls:
  "calls (fst (sqlite3_prepare16_v2 E c q)) = calls c @ [Prepare q]"
  "store (fst (sqlite3_prepare16_v2 E c q)) = store c"
  "changes (fst (sqlite3_prepare16_v2 E c q)) = changes c"
  by (simp_all add: sqlite3_prepare16_v2_def record_call_def split: sum.splits)

lemma prepare_Inr:
  "compile E q (store c) = Inr p \<Longrightarrow>
   sqlite3_prepare16_v2 E c q =
     ((record_call (Prepare q) c)\<lparr>handles := Suc (handles c)\<rparr>,
      (SQLITE_OK, Some \<lparr>prog = p, bound = (\<lambda>_. SQL_NULL), started = False, pending = [],
                        fin = None, current = []\<rparr>))"
  by (simp add: sqlite3_prepare16_v2_def)

lemma prepare_Inl:
  "compile E q (store c) = Inl e \<Longrightarrow>
   sqlite3_prepare16_v2 E c q = (record_call (Prepare q) c, (SQLITE_FAIL e, None))"
  by (simp add: sqlite3_prepare16_v2_def)

lemma finalize_proj [simp]:
  "store (sqlite3_finalize cs) = store (fst cs)"
  "changes (sqlite3_finalize cs) = changes (fst cs)"
  "statements (calls (sqlite3_finalize cs)) = statements (calls (fst cs))"
  by (simp_all add: sqlite3_finalize_def record_call_def)

lemma record_call_proj [simp]:
  "store (record_call k c) = store c"
  "changes (record_call k c) = changes c"
  "handles (record_call k c) = handles c"
  "calls (record_call k c) = calls c @ [k]"
  by (simp_all add: record_call_def)

lemma execute_non_query_Inl:
  "compile E q (store c) = Inl e \<Longrightarrow>
   execute_non_query E c q ps = (record_call (Prepare q) c, Inl (SQLiteException (SQLITE_FAIL e)))"
  by (simp add: execute_non_query_def prepare_Inl)

lemma execute_non_query_Inr:
  fixes E :: "('q, 'd) engine" and c :: "('q, 'd) conn"
  assumes "compile E q (store c) = Inr p"
  shows "store (fst (execute_non_query E c q [])) = after (run p (\<lambda>_. SQL_NULL) (store c))"
    and "statements (calls (fst (execute_non_query E c q []))) = statements (calls c) @ [q]"
    and "snd (execute_non_query E c q []) =
           (case final (run p (\<lambda>_. SQL_NULL) (store c)) of
              None \<Rightarrow> Inr (case changed (run p (\<lambda>_. SQL_NULL) (store c)) of
                              None \<Rightarrow> changes c | Some n \<Rightarrow> n)
            | Some e \<Rightarrow> Inl (SQLiteException (SQLITE_FAIL e)))"
proof -
  let ?c = "(record_call (Prepare q) c)\<lparr>handles := Suc (handles c)\<rparr>"
  let ?st = "\<lparr>prog = p, bound = (\<lambda>_. SQL_NULL), started = False, pending = [],
              fin = None, current = []\<rparr> :: 'd stmt"
  obtain cs r where w: "step_while_row (?c, ?st) = (cs, r)" by (metis surj_pair)
  have "\<not> started ?st" by simp
  from step_while_row_fresh [OF this, of ?c] w
  have f: "store (fst cs) = after (run p (\<lambda>_. SQL_NULL) (store c))"
     "changes (fst cs) = (case changed (run p (\<lambda>_. SQL_NULL) (store c)) of None \<Rightarrow> changes c | Some n \<Rightarrow> n)"
     "statements (calls (fst cs)) = statements (calls c) @ [q]"
     "r = completion (final (run p (\<lambda>_. SQL_NULL) (store c)))"
    by (simp_all split: option.splits)
  have e: "execute_non_query E c q [] =
      (if r \<noteq> SQLITE_DONE then (sqlite3_finalize cs, Inl (SQLiteException r))
       else (sqlite3_finalize cs, Inr (sqlite3_changes (sqlite3_finalize cs))))"
    using assms w by (simp add: execute_non_query_def prepare_Inr Let_def)
  show "store (fst (execute_non_query E c q [])) = after (run p (\<lambda>_. SQL_NULL) (store c))"
    using e f by simp
  show "statements (calls (fst (execute_non_query E c q []))) = statements (calls c) @ [q]"
    using e f by simp
  show "snd (execute_non_query E c q []) =
           (case final (run p (\<lambda>_. SQL_NULL) (store c)) of
              None \<Rightarrow> Inr (case changed (run p (\<lambda>_. SQL_NULL) (store c)) of
                              None \<Rightarrow> changes c | Some n \<Rightarrow> n)
            | Some e \<Rightarrow> Inl (SQLiteException (SQLITE_FAIL e)))"
    using e f by (simp add: completion_def sqlite3_changes_def split: option.splits)
qed

lemma step_fresh:
  assumes "\<not> started st"
  shows "store (fst (fst (sqlite3_step (c, st)))) = after (run (prog st) (bound st) (store c))"
    and "changes (fst (fst (sqlite3_step (c, st)))) =
       (case changed (run (prog st) (bound st) (store c)) of None \<Rightarrow> changes c | Some n \<Rightarrow> n)"
    and "calls (fst (fst (sqlite3_step (c, st)))) = calls c @ [Step]"
    and "snd (sqlite3_step (c, st)) =
       (case rows (run (prog st) (bound st) (store c)) of
          [] \<Rightarrow> completion (final (run (prog st) (bound st) (store c)))
        | r # rs \<Rightarrow> SQLITE_ROW)"
    and "current (snd (fst (sqlite3_step (c, st)))) =
       (case rows (run (prog st) (bound st) (store c)) of [] \<Rightarrow> current st | r # rs \<Rightarrow> r)"
  using assms
  by (simp_all add: sqlite3_step_def Let_def completion_def split: list.splits option.splits)

lemma execute_scalar_int_Inl:
  "compile E q (store c) = Inl e \<Longrightarrow>
   execute_scalar_int E c q ps = (record_call (Prepare q) c, Inl (SQLiteException (SQLITE_FAIL e)))"
  by (simp add: execute_scalar_int_def prepare_Inl)

lemma execute_scalar_int_Inr:
  fixes E :: "('q, 'd) engine" and c :: "('q, 'd) conn"
  assumes "compile E q (store c) = Inr p"
  shows "store (fst (execute_scalar_int E c q [])) = after (run p (\<lambda>_. SQL_NULL) (store c))"
    and "statements (calls (fst (execute_scalar_int E c q []))) = statements (calls c) @ [q]"
    and "snd (execute_scalar_int E c q []) =
           (case rows (run p (\<lambda>_. SQL_NULL) (store c)) of
              r # rs \<Rightarrow> Inr (value_int E (cell r 0))
            | [] \<Rightarrow> (case final (run p (\<lambda>_. SQL_NULL) (store c)) of
                       None \<Rightarrow> Inr 0
                     | Some e \<Rightarrow> Inl (SQLiteException (SQLITE_FAIL e))))"
proof -
  let ?c = "(record_call (Prepare q) c)\<lparr>handles := Suc (handles c)\<rparr>"
  let ?st = "\<lparr>prog = p, bound = (\<lambda>_. SQL_NULL), started = False, pending = [],
              fin = None, current = []\<rparr> :: 'd stmt"
  obtain cs r where w: "sqlite3_step (?c, ?st) = (cs, r)" by (metis surj_pair)
  have n: "\<not> started ?st" by simp
  note f = step_fresh [OF n, of ?c, unfolded w]
  have e: "execute_scalar_int E c q [] =
      (if r = SQLITE_ROW then (sqlite3_finalize cs, Inr (sqlite3_column_int E (snd cs) 0))
       else if r \<noteq> SQLITE_DONE then (sqlite3_finalize cs, Inl (SQLiteException r))
       else (sqlite3_finalize cs, Inr 0))"
    using assms w by (simp add: execute_scalar_int_def prepare_Inr)
  show "store (fst (execute_scalar_int E c q [])) = after (run p (\<lambda>_. SQL_NULL) (store c))"
    using e f by simp
  show "statements (calls (fst (execute_scalar_int E c q []))) = statements (calls c) @ [q]"
    using e f by simp
  show "snd (execute_scalar_int E c q []) =
           (case rows (run p (\<lambda>_. SQL_NULL) (store c)) of
              r # rs \<Rightarrow> Inr (value_int E (cell r 0))
            | [] \<Rightarrow> (case final (run p (\<lambda>_. SQL_NULL) (store c)) of
                       None \<Rightarrow> Inr 0
                     | Some e \<Rightarrow> Inl (SQLiteException (SQLITE_FAIL e))))"
    using e f by (simp add: completion_def sqlite3_column_int_def split: list.splits option.splits)
qed

lemma Import_execute_non_query_Inl:
  "compile E q (store c) = Inl e \<Longrightarrow>
   Import_execute_non_query E c q = (record_call (Prepare q) c, Inl (SQLiteException (SQLITE_FAIL e)))"
  by (simp add: Import_execute_non_query_def prepare_Inl)

lemma Import_execute_non_query_Inr:
  fixes E :: "(sql, sqlite) engine" and c :: "(sql, sqlite) conn"
  assumes "compile E q (store c) = Inr p"
  shows "store (fst (Import_execute_non_query E c q)) = after (run p (\<lambda>_. SQL_NULL) (store c))"
    and "statements (calls (fst (Import_execute_non_query E c q))) = statements (calls c) @ [q]"
    and "snd (Import_execute_non_query E c q) =
           (case final (run p (\<lambda>_. SQL_NULL) (store c)) of
              None \<Rightarrow> Inr (case changed (run p (\<lambda>_. SQL_NULL) (store c)) of
                              None \<Rightarrow> changes c | Some n \<Rightarrow> n)
            | Some e \<Rightarrow> Inl (SQLiteException (SQLITE_FAIL e)))"
proof -
  let ?c = "(record_call (Prepare q) c)\<lparr>handles := Suc (handles c)\<rparr>"
  let ?st = "\<lparr>prog = p, bound = (\<lambda>_. SQL_NULL), started = False, pending = [],
              fin = None, current = []\<rparr> :: sqlite stmt"
  obtain cs r where w: "step_while_row (?c, ?st) = (cs, r)" by (metis surj_pair)
  have "\<not> started ?st" by simp
  from step_while_row_fresh [OF this, of ?c] w
  have f: "store (fst cs) = after (run p (\<lambda>_. SQL_NULL) (store c))"
     "changes (fst cs) = (case changed (run p (\<lambda>_. SQL_NULL) (store c)) of None \<Rightarrow> changes c | Some n \<Rightarrow> n)"
     "statements (calls (fst cs)) = statements (calls c) @ [q]"
     "r = completion (final (run p (\<lambda>_. SQL_NULL) (store c)))"
    by (simp_all split: option.splits)
  have e: "Import_execute_non_query E c q =
      (if r \<noteq> SQLITE_DONE then (sqlite3_finalize cs, Inl (SQLiteException r))
       else (sqlite3_finalize cs, Inr (sqlite3_changes (fst cs))))"
    using assms w by (simp add: Import_execute_non_query_def prepare_Inr Let_def)
  show "store (fst (Import_execute_non_query E c q)) = after (run p (\<lambda>_. SQL_NULL) (store c))"
    using e f by simp
  show "statements (calls (fst (Import_execute_non_query E c q))) = statements (calls c) @ [q]"
    using e f by simp
  show "snd (Import_execute_non_query E c q) =
           (case final (run p (\<lambda>_. SQL_NULL) (store c)) of
              None \<Rightarrow> Inr (case changed (run p (\<lambda>_. SQL_NULL) (store c)) of
                              None \<Rightarrow> changes c | Some n \<Rightarrow> n)
            | Some e \<Rightarrow> Inl (SQLiteException (SQLITE_FAIL e)))"
    using e f by (simp add: completion_def sqlite3_changes_def split: option.splits)
qed

lemma and_then_alt:
  "and_then r f = (case snd r of Inl e \<Rightarrow> (fst r, Inl e) | Inr a \<Rightarrow> f (fst r) a)"
  by (simp add: and_then_def split: prod.splits sum.splits)

lemma bind_parameter_statements:
  "statements (calls (fst (fst (fst (bind_parameter cs i v))))) = statements (calls (fst cs))"
  by (cases v)
     (simp_all add: bind_parameter_def sqlite3_bind_text16_def sqlite3_bind_null_def Let_def
        split: prod.splits)

lemma bind_parameters_statements:
  "statements (calls (fst (fst (bind_parameters cs i vs)))) = statements (calls (fst cs))"
proof (induction vs arbitrary: cs i)
  case Nil
  show ?case by simp
next
  case (Cons v vs)
  obtain cs' j r where b: "bind_parameter cs i v = ((cs', j), r)"
    by (metis surj_pair)
  have h: "statements (calls (fst cs')) = statements (calls (fst cs))"
    using bind_parameter_statements [of cs i v] b by simp
  show ?case using b h Cons.IH [of cs' j] by (cases r) simp_all
qed

lemma step_statements:
  "statements (calls (fst (fst (sqlite3_step cs)))) = statements (calls (fst cs))"
  by (simp add: sqlite3_step_def Let_def split: list.splits prod.splits)

lemma step_while_row_statements:
  "statements (calls (fst (fst (step_while_row cs)))) = statements (calls (fst cs))"
proof (induction cs rule: step_while_row.induct)
  case (1 cs)
  obtain cs' r where s: "sqlite3_step cs = (cs', r)"
    by (metis surj_pair)
  have h: "statements (calls (fst cs')) = statements (calls (fst cs))"
    using step_statements [of cs] s by simp
  show ?case
    using "1.IH" [of cs' r] s h by (subst step_while_row.simps) (simp split: if_splits)
qed

lemma execute_non_query_statements:
  "statements (calls (fst (execute_non_query E c q ps))) = statements (calls c) @ [q]"
proof -
  obtain c' r so where p: "sqlite3_prepare16_v2 E c q = (c', (r, so))"
    by (metis surj_pair)
  have c': "statements (calls c') = statements (calls c) @ [q]"
    using prepare_calls(1) [of E c q] p by simp
  show ?thesis
  proof (cases so)
    case None
    then show ?thesis using p c' by (simp add: execute_non_query_def)
  next
    case (Some st)
    obtain cs e where b: "bind_parameters (c', st) 1 ps = (cs, e)"
      by (metis surj_pair)
    have hb: "statements (calls (fst cs)) = statements (calls c) @ [q]"
      using bind_parameters_statements [of "(c', st)" 1 ps] b c' by simp
    obtain cs2 r2 where w: "step_while_row cs = (cs2, r2)"
      by (metis surj_pair)
    have hw: "statements (calls (fst cs2)) = statements (calls c) @ [q]"
      using step_while_row_statements [of cs] w hb by simp
    show ?thesis
      using p Some b w hb hw c'
      by (cases e) (simp_all add: execute_non_query_def Let_def)
  qed
qed

lemma execute_scalar_int_statements:
  "statements (calls (fst (execute_scalar_int E c q ps))) = statements (calls c) @ [q]"
proof -
  obtain c' r so where p: "sqlite3_prepare16_v2 E c q = (c', (r, so))"
    by (metis surj_pair)
  have c': "statements (calls c') = statements (calls c) @ [q]"
    using prepare_calls(1) [of E c q] p by simp
  show ?thesis
  proof (cases so)
    case None
    then show ?thesis using p c' by (simp add: execute_scalar_int_def)
  next
    case (Some st)
    obtain cs e where b: "bind_parameters (c', st) 1 ps = (cs, e)"
      by (metis surj_pair)
    have hb: "statements (calls (fst cs)) = statements (calls c) @ [q]"
      using bind_parameters_statements [of "(c', st)" 1 ps] b c' by simp
    obtain cs2 r2 where w: "sqlite3_step cs = (cs2, r2)"
      by (metis surj_pair)
    have hw: "statements (calls (fst cs2)) = statements (calls c) @ [q]"
      using step_statements [of cs] w hb by simp
    show ?thesis
      using p Some b w hb hw c'
      by (cases e) (simp_all add: execute_scalar_int_def)
  qed
qed

text \<open>The same on the engine of this store.\<close>

lemma sqlite_compile_ok:
  "\<not> closed s \<Longrightarrow> \<not> schema_error q (db s) \<Longrightarrow>
   compile (sqlite_engine B) q s =
     Inr \<lparr>nparams = (case q of Insert_into t \<Rightarrow> 1 | _ \<Rightarrow> 0), run = sqlite_run B q\<rparr>"
  by (simp add: sqlite_engine_def sqlite_compile_def)

lemma sqlite_enq_store:
  "\<not> closed (store c) \<Longrightarrow> \<not> schema_error q (db (store c)) \<Longrightarrow>
   store (fst (execute_non_query (sqlite_engine B) c q [])) =
     after (sqlite_run B q (\<lambda>_. SQL_NULL) (store c))"
  using execute_non_query_Inr(1) [OF sqlite_compile_ok] by simp

lemma sqlite_enq_result:
  "\<not> closed (store c) \<Longrightarrow> \<not> schema_error q (db (store c)) \<Longrightarrow>
   final (sqlite_run B q (\<lambda>_. SQL_NULL) (store c)) = None \<Longrightarrow>
   \<exists>n. snd (execute_non_query (sqlite_engine B) c q []) = Inr n"
  using execute_non_query_Inr(3) [OF sqlite_compile_ok, of c q B] by simp

lemma sqlite_scalar_store:
  "\<not> closed (store c) \<Longrightarrow> \<not> schema_error q (db (store c)) \<Longrightarrow>
   store (fst (execute_scalar_int (sqlite_engine B) c q [])) =
     after (sqlite_run B q (\<lambda>_. SQL_NULL) (store c))"
  using execute_scalar_int_Inr(1) [OF sqlite_compile_ok] by simp

lemma sqlite_user_version:
  "\<not> closed (store c) \<Longrightarrow>
   snd (execute_scalar_int (sqlite_engine B) c Pragma_user_version []) =
     Inr (value_int (sqlite_engine B) (SQL_INTEGER (user_version (db (store c)))))"
  using execute_scalar_int_Inr(3) [OF sqlite_compile_ok, of c Pragma_user_version B]
  by (simp add: schema_error_def one_row_def cell_def)

section \<open>Schema migration\<close>

lemmas run_defs = no_rows_def one_row_def failure_def

lemma sqlite_enq_step:
  assumes "\<not> closed (store c)" "\<not> schema_error q (db (store c))"
    and "final (sqlite_run B q (\<lambda>_. SQL_NULL) (store c)) = None"
  obtains c' n where "execute_non_query (sqlite_engine B) c q [] = (c', Inr n)"
    and "store c' = after (sqlite_run B q (\<lambda>_. SQL_NULL) (store c))"
    and "statements (calls c') = statements (calls c) @ [q]"
proof -
  note r = execute_non_query_Inr [OF sqlite_compile_ok [OF assms(1,2), of B]]
  obtain n where "snd (execute_non_query (sqlite_engine B) c q []) = Inr n"
    using r(3) assms(3) by simp
  then have "execute_non_query (sqlite_engine B) c q [] =
      (fst (execute_non_query (sqlite_engine B) c q []), Inr n)"
    by (metis prod.collapse)
  then show ?thesis using that r(1,2) by simp
qed

lemma sqlite_user_version_step:
  assumes "\<not> closed (store c)"
  obtains c' where "execute_scalar_int (sqlite_engine B) c Pragma_user_version [] =
       (c', Inr (value_int (sqlite_engine B) (SQL_INTEGER (user_version (db (store c))))))"
    and "store c' = store c"
    and "statements (calls c') = statements (calls c) @ [Pragma_user_version]"
proof -
  have ne: "\<not> schema_error Pragma_user_version (db (store c))" by (simp add: schema_error_def)
  note r = execute_scalar_int_Inr [OF sqlite_compile_ok [OF assms ne, of B]]
  have "execute_scalar_int (sqlite_engine B) c Pragma_user_version [] =
      (fst (execute_scalar_int (sqlite_engine B) c Pragma_user_version []),
       Inr (value_int (sqlite_engine B) (SQL_INTEGER (user_version (db (store c))))))"
    using sqlite_user_version [OF assms, of B] by (metis prod.collapse)
  then show ?thesis using that r(1,2) by (simp add: run_defs)
qed

lemma InitializeInstance_v1:
  assumes "\<not> closed (store c)" "user_version (db (store c)) = 1"
  shows "snd (InitializeInstance (sqlite_engine B) c) = Inr () \<and>
     db (store (fst (InitializeInstance (sqlite_engine B) c))) =
       db (store c) \<and>
     statements (calls (fst (InitializeInstance (sqlite_engine B) c))) =
           statements (calls c) @ [Pragma_journal_mode_wal, Pragma_encoding_UTF16,
             Pragma_foreign_keys_ON, Pragma_user_version] \<and>
     \<not> closed (store (fst (InitializeInstance (sqlite_engine B) c))) \<and>
     snapshot (store (fst (InitializeInstance (sqlite_engine B) c))) = snapshot (store c) \<and>
     extended_result_codes (store (fst (InitializeInstance (sqlite_engine B) c))) \<and>
     (snapshot (store c) = None \<longrightarrow> foreign_keys (store (fst (InitializeInstance (sqlite_engine B) c))))"
proof -
  let ?E = "sqlite_engine B"
  let ?c0 = "sqlite3_busy_timeout (sqlite3_extended_result_codes c True) 5000"
  have c0: "\<not> closed (store ?c0)" "db (store ?c0) = db (store c)" "calls ?c0 = calls c"
    "snapshot (store ?c0) = snapshot (store c)" "extended_result_codes (store ?c0)"
    using assms by (simp_all add: sqlite3_busy_timeout_def sqlite3_extended_result_codes_def)
  obtain c1 n1 where e1: "execute_non_query ?E ?c0 Pragma_journal_mode_wal [] = (c1, Inr n1)"
    and s1: "store c1 = after (sqlite_run B Pragma_journal_mode_wal (\<lambda>_. SQL_NULL) (store ?c0))"
    and k1: "statements (calls c1) = statements (calls ?c0) @ [Pragma_journal_mode_wal]"
    using sqlite_enq_step [of ?c0 Pragma_journal_mode_wal B] c0 by (auto simp: schema_error_def run_defs)
  have c1: "\<not> closed (store c1)" "db (store c1) = db (store c)"
    "snapshot (store c1) = snapshot (store c)" "extended_result_codes (store c1)"
    using s1 c0 by (simp_all add: run_defs)
  obtain c2 n2 where e2: "execute_non_query ?E c1 Pragma_encoding_UTF16 [] = (c2, Inr n2)"
    and s2: "store c2 = after (sqlite_run B Pragma_encoding_UTF16 (\<lambda>_. SQL_NULL) (store c1))"
    and k2: "statements (calls c2) = statements (calls c1) @ [Pragma_encoding_UTF16]"
    using sqlite_enq_step [of c1 Pragma_encoding_UTF16 B] c1 by (auto simp: schema_error_def run_defs)
  have c2: "\<not> closed (store c2)" "db (store c2) = db (store c)"
    "snapshot (store c2) = snapshot (store c)" "extended_result_codes (store c2)"
    using s2 c1 by (simp_all add: run_defs)
  obtain c3 n3 where e3: "execute_non_query ?E c2 Pragma_foreign_keys_ON [] = (c3, Inr n3)"
    and s3: "store c3 = after (sqlite_run B Pragma_foreign_keys_ON (\<lambda>_. SQL_NULL) (store c2))"
    and k3: "statements (calls c3) = statements (calls c2) @ [Pragma_foreign_keys_ON]"
    using sqlite_enq_step [of c2 Pragma_foreign_keys_ON B] c2 by (auto simp: schema_error_def run_defs)
  have c3: "\<not> closed (store c3)" "db (store c3) = db (store c)"
    "snapshot (store c3) = snapshot (store c)" "extended_result_codes (store c3)" "snapshot (store c) = None \<longrightarrow> foreign_keys (store c3)"
    using s3 c2 by (simp_all add: run_defs)
  obtain c4 where e4: "execute_scalar_int ?E c3 Pragma_user_version [] =
       (c4, Inr (value_int ?E (SQL_INTEGER (user_version (db (store c3))))))"
    and s4: "store c4 = store c3"
    and k4: "statements (calls c4) = statements (calls c3) @ [Pragma_user_version]"
    using sqlite_user_version_step [of c3 B] c3 by auto
  have v: "value_int ?E (SQL_INTEGER (user_version (db (store c3)))) = 1"
    using c3 assms(2) by (simp add: value_int_def value_int64_def)
  have c4: "\<not> closed (store c4)" "db (store c4) = db (store c)"
    "snapshot (store c4) = snapshot (store c)" "extended_result_codes (store c4)"
    "snapshot (store c) = None \<longrightarrow> foreign_keys (store c4)"
    using s4 c3 by simp_all
  have "InitializeInstance ?E c = (c4, Inr ())"
    by (simp add: InitializeInstance_def and_then_def e1 e2 e3 e4 v)
  then show ?thesis using c4 k4 k3 k2 k1 c0 by simp
qed

lemma InitializeInstance_v0:
  assumes "\<not> closed (store c)" "user_version (db (store c)) = 0" "tables (db (store c)) = {}"
  shows "snd (InitializeInstance (sqlite_engine B) c) = Inr () \<and>
     db (store (fst (InitializeInstance (sqlite_engine B) c))) =
       (db (store c))\<lparr>user_version := 1,
          tables := {Card, CardDetail, CardFaq, CardFaqRelated, CardImage}\<rparr> \<and>
     statements (calls (fst (InitializeInstance (sqlite_engine B) c))) =
           statements (calls c) @ [Pragma_journal_mode_wal, Pragma_encoding_UTF16,
             Pragma_foreign_keys_ON, Pragma_user_version,
             Create_table Card, Create_table CardDetail, Create_table CardFaq,
             Create_table CardFaqRelated, Create_table CardImage, Pragma_user_version_1] \<and>
     \<not> closed (store (fst (InitializeInstance (sqlite_engine B) c))) \<and>
     snapshot (store (fst (InitializeInstance (sqlite_engine B) c))) = snapshot (store c) \<and>
     extended_result_codes (store (fst (InitializeInstance (sqlite_engine B) c))) \<and>
     (snapshot (store c) = None \<longrightarrow> foreign_keys (store (fst (InitializeInstance (sqlite_engine B) c))))"
proof -
  let ?E = "sqlite_engine B"
  let ?c0 = "sqlite3_busy_timeout (sqlite3_extended_result_codes c True) 5000"
  have c0: "\<not> closed (store ?c0)" "db (store ?c0) = db (store c)" "calls ?c0 = calls c"
    "snapshot (store ?c0) = snapshot (store c)" "extended_result_codes (store ?c0)"
    using assms by (simp_all add: sqlite3_busy_timeout_def sqlite3_extended_result_codes_def)
  obtain c1 n1 where e1: "execute_non_query ?E ?c0 Pragma_journal_mode_wal [] = (c1, Inr n1)"
    and s1: "store c1 = after (sqlite_run B Pragma_journal_mode_wal (\<lambda>_. SQL_NULL) (store ?c0))"
    and k1: "statements (calls c1) = statements (calls ?c0) @ [Pragma_journal_mode_wal]"
    using sqlite_enq_step [of ?c0 Pragma_journal_mode_wal B] c0 by (auto simp: schema_error_def run_defs)
  have c1: "\<not> closed (store c1)" "db (store c1) = db (store c)"
    "snapshot (store c1) = snapshot (store c)" "extended_result_codes (store c1)"
    using s1 c0 by (simp_all add: run_defs)
  obtain c2 n2 where e2: "execute_non_query ?E c1 Pragma_encoding_UTF16 [] = (c2, Inr n2)"
    and s2: "store c2 = after (sqlite_run B Pragma_encoding_UTF16 (\<lambda>_. SQL_NULL) (store c1))"
    and k2: "statements (calls c2) = statements (calls c1) @ [Pragma_encoding_UTF16]"
    using sqlite_enq_step [of c1 Pragma_encoding_UTF16 B] c1 by (auto simp: schema_error_def run_defs)
  have c2: "\<not> closed (store c2)" "db (store c2) = db (store c)"
    "snapshot (store c2) = snapshot (store c)" "extended_result_codes (store c2)"
    using s2 c1 by (simp_all add: run_defs)
  obtain c3 n3 where e3: "execute_non_query ?E c2 Pragma_foreign_keys_ON [] = (c3, Inr n3)"
    and s3: "store c3 = after (sqlite_run B Pragma_foreign_keys_ON (\<lambda>_. SQL_NULL) (store c2))"
    and k3: "statements (calls c3) = statements (calls c2) @ [Pragma_foreign_keys_ON]"
    using sqlite_enq_step [of c2 Pragma_foreign_keys_ON B] c2 by (auto simp: schema_error_def run_defs)
  have c3: "\<not> closed (store c3)" "db (store c3) = db (store c)"
    "snapshot (store c3) = snapshot (store c)" "extended_result_codes (store c3)" "snapshot (store c) = None \<longrightarrow> foreign_keys (store c3)"
    using s3 c2 by (simp_all add: run_defs)
  obtain c4 where e4: "execute_scalar_int ?E c3 Pragma_user_version [] =
       (c4, Inr (value_int ?E (SQL_INTEGER (user_version (db (store c3))))))"
    and s4: "store c4 = store c3"
    and k4: "statements (calls c4) = statements (calls c3) @ [Pragma_user_version]"
    using sqlite_user_version_step [of c3 B] c3 by auto
  have v: "value_int ?E (SQL_INTEGER (user_version (db (store c3)))) = 0"
    using c3 assms(2) by (simp add: value_int_def value_int64_def)
  have c4: "\<not> closed (store c4)" "db (store c4) = db (store c)"
    "snapshot (store c4) = snapshot (store c)" "extended_result_codes (store c4)"
    "snapshot (store c) = None \<longrightarrow> foreign_keys (store c4)"
    using s4 c3 by simp_all
  obtain c5 n5 where e5: "execute_non_query ?E c4 (Create_table Card) [] = (c5, Inr n5)"
    and s5: "store c5 = after (sqlite_run B (Create_table Card) (\<lambda>_. SQL_NULL) (store c4))"
    and k5: "statements (calls c5) = statements (calls c4) @ [Create_table Card]"
    using sqlite_enq_step [of c4 "Create_table Card" B] c4 assms(3) by (auto simp: schema_error_def run_defs)
  have c5: "\<not> closed (store c5)" "db (store c5) = (db (store c))\<lparr>tables := {Card}\<rparr>"
    "snapshot (store c5) = snapshot (store c)" "extended_result_codes (store c5)"
    "snapshot (store c) = None \<longrightarrow> foreign_keys (store c5)"
    using s5 c4 assms(3) by (auto simp: run_defs insert_commute)
  obtain c6 n6 where e6: "execute_non_query ?E c5 (Create_table CardDetail) [] = (c6, Inr n6)"
    and s6: "store c6 = after (sqlite_run B (Create_table CardDetail) (\<lambda>_. SQL_NULL) (store c5))"
    and k6: "statements (calls c6) = statements (calls c5) @ [Create_table CardDetail]"
    using sqlite_enq_step [of c5 "Create_table CardDetail" B] c5 assms(3) by (auto simp: schema_error_def run_defs)
  have c6: "\<not> closed (store c6)" "db (store c6) = (db (store c))\<lparr>tables := {Card, CardDetail}\<rparr>"
    "snapshot (store c6) = snapshot (store c)" "extended_result_codes (store c6)"
    "snapshot (store c) = None \<longrightarrow> foreign_keys (store c6)"
    using s6 c5 assms(3) by (auto simp: run_defs insert_commute)
  obtain c7 n7 where e7: "execute_non_query ?E c6 (Create_table CardFaq) [] = (c7, Inr n7)"
    and s7: "store c7 = after (sqlite_run B (Create_table CardFaq) (\<lambda>_. SQL_NULL) (store c6))"
    and k7: "statements (calls c7) = statements (calls c6) @ [Create_table CardFaq]"
    using sqlite_enq_step [of c6 "Create_table CardFaq" B] c6 assms(3) by (auto simp: schema_error_def run_defs)
  have c7: "\<not> closed (store c7)" "db (store c7) = (db (store c))\<lparr>tables := {Card, CardDetail, CardFaq}\<rparr>"
    "snapshot (store c7) = snapshot (store c)" "extended_result_codes (store c7)"
    "snapshot (store c) = None \<longrightarrow> foreign_keys (store c7)"
    using s7 c6 assms(3) by (auto simp: run_defs insert_commute)
  obtain c8 n8 where e8: "execute_non_query ?E c7 (Create_table CardFaqRelated) [] = (c8, Inr n8)"
    and s8: "store c8 = after (sqlite_run B (Create_table CardFaqRelated) (\<lambda>_. SQL_NULL) (store c7))"
    and k8: "statements (calls c8) = statements (calls c7) @ [Create_table CardFaqRelated]"
    using sqlite_enq_step [of c7 "Create_table CardFaqRelated" B] c7 assms(3) by (auto simp: schema_error_def run_defs)
  have c8: "\<not> closed (store c8)" "db (store c8) = (db (store c))\<lparr>tables := {Card, CardDetail, CardFaq, CardFaqRelated}\<rparr>"
    "snapshot (store c8) = snapshot (store c)" "extended_result_codes (store c8)"
    "snapshot (store c) = None \<longrightarrow> foreign_keys (store c8)"
    using s8 c7 assms(3) by (auto simp: run_defs insert_commute)
  obtain c9 n9 where e9: "execute_non_query ?E c8 (Create_table CardImage) [] = (c9, Inr n9)"
    and s9: "store c9 = after (sqlite_run B (Create_table CardImage) (\<lambda>_. SQL_NULL) (store c8))"
    and k9: "statements (calls c9) = statements (calls c8) @ [Create_table CardImage]"
    using sqlite_enq_step [of c8 "Create_table CardImage" B] c8 assms(3) by (auto simp: schema_error_def run_defs)
  have c9: "\<not> closed (store c9)" "db (store c9) = (db (store c))\<lparr>tables := {Card, CardDetail, CardFaq, CardFaqRelated, CardImage}\<rparr>"
    "snapshot (store c9) = snapshot (store c)" "extended_result_codes (store c9)"
    "snapshot (store c) = None \<longrightarrow> foreign_keys (store c9)"
    using s9 c8 assms(3) by (auto simp: run_defs insert_commute)
  obtain c10 n10 where e10: "execute_non_query ?E c9 Pragma_user_version_1 [] = (c10, Inr n10)"
    and s10: "store c10 = after (sqlite_run B Pragma_user_version_1 (\<lambda>_. SQL_NULL) (store c9))"
    and k10: "statements (calls c10) = statements (calls c9) @ [Pragma_user_version_1]"
    using sqlite_enq_step [of c9 "Pragma_user_version_1" B] c9 assms(3) by (auto simp: schema_error_def run_defs)
  have c10: "\<not> closed (store c10)" "db (store c10) = (db (store c))\<lparr>user_version := 1, tables := {Card, CardDetail, CardFaq, CardFaqRelated, CardImage}\<rparr>"
    "snapshot (store c10) = snapshot (store c)" "extended_result_codes (store c10)"
    "snapshot (store c) = None \<longrightarrow> foreign_keys (store c10)"
    using s10 c9 assms(3) by (auto simp: run_defs insert_commute)
  have "InitializeInstance ?E c = (c10, Inr ())"
    by (simp add: InitializeInstance_def and_then_def e1 e2 e3 e4 v e5 e6 e7 e8 e9 e10)
  then show ?thesis using c10 k10 k9 k8 k7 k6 k5 k4 k3 k2 k1 c0 by simp
qed

text \<open>
  C3. On an open connection, \<open>InitializeInstance\<close> reads the schema version. On a store
  that was never initialized (version 0, no table) it prepares the five \<open>create table\<close>
  statements and then sets the version to 1, leaving exactly the five tables. On a store
  at version 1 it prepares the three pragmas and the version query only, and leaves the
  database as it is; so a second open of the store that the first open left prepares no
  DDL and the version stays 1.
\<close>

theorem InitializeInstance_version_gated:
  assumes "\<not> closed (store c)"
  shows "(user_version (db (store c)) = 0 \<and> tables (db (store c)) = {} \<longrightarrow>
            snd (InitializeInstance (sqlite_engine B) c) = Inr () \<and>
            db (store (fst (InitializeInstance (sqlite_engine B) c))) =
              (db (store c))\<lparr>user_version := 1,
                 tables := {Card, CardDetail, CardFaq, CardFaqRelated, CardImage}\<rparr> \<and>
            statements (calls (fst (InitializeInstance (sqlite_engine B) c))) =
              statements (calls c) @ [Pragma_journal_mode_wal, Pragma_encoding_UTF16,
                Pragma_foreign_keys_ON, Pragma_user_version,
                Create_table Card, Create_table CardDetail, Create_table CardFaq,
                Create_table CardFaqRelated, Create_table CardImage, Pragma_user_version_1])
       \<and> (user_version (db (store c)) = 1 \<longrightarrow>
            snd (InitializeInstance (sqlite_engine B) c) = Inr () \<and>
            db (store (fst (InitializeInstance (sqlite_engine B) c))) = db (store c) \<and>
            statements (calls (fst (InitializeInstance (sqlite_engine B) c))) =
              statements (calls c) @ [Pragma_journal_mode_wal, Pragma_encoding_UTF16,
                Pragma_foreign_keys_ON, Pragma_user_version])
       \<and> (user_version (db (store c)) = 1 \<or>
            user_version (db (store c)) = 0 \<and> tables (db (store c)) = {} \<longrightarrow>
            snd (InitializeInstance (sqlite_engine B)
                   (open_connection (db (store (fst (InitializeInstance (sqlite_engine B) c)))))) = Inr () \<and>
            db (store (fst (InitializeInstance (sqlite_engine B)
                   (open_connection (db (store (fst (InitializeInstance (sqlite_engine B) c)))))))) =
              db (store (fst (InitializeInstance (sqlite_engine B) c))) \<and>
            user_version (db (store (fst (InitializeInstance (sqlite_engine B) c)))) = 1 \<and>
            statements (calls (fst (InitializeInstance (sqlite_engine B)
                   (open_connection (db (store (fst (InitializeInstance (sqlite_engine B) c)))))))) =
              [Pragma_journal_mode_wal, Pragma_encoding_UTF16, Pragma_foreign_keys_ON,
               Pragma_user_version])"
proof -
  let ?d = "db (store (fst (InitializeInstance (sqlite_engine B) c)))"
  have o: "\<not> closed (store (open_connection d))" "db (store (open_connection d)) = d"
    "calls (open_connection d :: (sql, sqlite) conn) = []" for d
    by (simp_all add: open_connection_def fresh_conn_def new_sqlite_def)
  have v: "user_version ?d = 1"
    if "user_version (db (store c)) = 1 \<or>
        user_version (db (store c)) = 0 \<and> tables (db (store c)) = {}"
    using that InitializeInstance_v0 [OF assms, of B] InitializeInstance_v1 [OF assms, of B]
    by auto
  show ?thesis
    using InitializeInstance_v0 [OF assms, of B] InitializeInstance_v1 [OF assms, of B]
      InitializeInstance_v1 [OF o(1), of ?d B] v o
    by auto
qed

theorem InitializeInstance_version_gated_witness:
  "\<not> closed (store (open_connection empty_database)) \<and>
   user_version (db (store (open_connection empty_database))) = 0 \<and>
   tables (db (store (open_connection empty_database))) = {} \<and>
   snd (InitializeInstance (sqlite_engine plain_builtins) (open_connection empty_database)) = Inr () \<and>
   user_version (db (store (fst (InitializeInstance (sqlite_engine plain_builtins)
      (open_connection empty_database))))) = 1 \<and>
   tables (db (store (fst (InitializeInstance (sqlite_engine plain_builtins)
      (open_connection empty_database))))) = {Card, CardDetail, CardFaq, CardFaqRelated, CardImage} \<and>
   statements (calls (fst (InitializeInstance (sqlite_engine plain_builtins)
      (open_connection (db (store (fst (InitializeInstance (sqlite_engine plain_builtins)
         (open_connection empty_database))))))))) =
     [Pragma_journal_mode_wal, Pragma_encoding_UTF16, Pragma_foreign_keys_ON, Pragma_user_version]"
proof -
  have o: "\<not> closed (store (open_connection empty_database))"
    "user_version (db (store (open_connection empty_database))) = 0"
    "tables (db (store (open_connection empty_database))) = {}"
    by (simp_all add: open_connection_def fresh_conn_def new_sqlite_def empty_database_def)
  note t = InitializeInstance_version_gated [OF o(1), of plain_builtins]
  let ?c1 = "fst (InitializeInstance (sqlite_engine plain_builtins) (open_connection empty_database))"
  have r: "snd (InitializeInstance (sqlite_engine plain_builtins) (open_connection empty_database)) = Inr ()"
    using t o by blast
  have d: "db (store ?c1) = (db (store (open_connection empty_database)))\<lparr>user_version := 1,
                 tables := {Card, CardDetail, CardFaq, CardFaqRelated, CardImage}\<rparr>"
    using t o by blast
  have k: "statements (calls (fst (InitializeInstance (sqlite_engine plain_builtins)
      (open_connection (db (store ?c1)))))) =
     [Pragma_journal_mode_wal, Pragma_encoding_UTF16, Pragma_foreign_keys_ON, Pragma_user_version]"
    using t o by blast
  have "user_version (db (store ?c1)) = 1"
    and "tables (db (store ?c1)) = {Card, CardDetail, CardFaq, CardFaqRelated, CardImage}"
    by (simp_all add: d)
  then show ?thesis using o r k by blast
qed

section \<open>Statement handles\<close>









section \<open>Ownership of bound text\<close>

lemma text_bindings_append [simp]: "text_bindings (xs @ ys) = text_bindings xs @ text_bindings ys"
  by (simp add: text_bindings_def)

lemma text_bindings_simps [simp]:
  "text_bindings [] = []"
  "text_bindings (Prepare q # ks) = text_bindings ks"
  "text_bindings (Step # ks) = text_bindings ks"
  "text_bindings (Finalize # ks) = text_bindings ks"
  "text_bindings (Reset # ks) = text_bindings ks"
  "text_bindings (Clear_bindings # ks) = text_bindings ks"
  "text_bindings (Bind_null i # ks) = text_bindings ks"
  "text_bindings (Bind_text16 i s d # ks) = d # text_bindings ks"
  by (simp_all add: text_bindings_def)

lemma step_text_bindings:
  "text_bindings (calls (fst (fst (sqlite3_step cs)))) = text_bindings (calls (fst cs))"
  by (simp add: sqlite3_step_def Let_def split: list.splits prod.splits)

lemma step_while_row_text_bindings:
  "text_bindings (calls (fst (fst (step_while_row cs)))) = text_bindings (calls (fst cs))"
proof (induction cs rule: step_while_row.induct)
  case (1 cs)
  obtain cs' r where s: "sqlite3_step cs = (cs', r)"
    by (metis surj_pair)
  have h: "text_bindings (calls (fst cs')) = text_bindings (calls (fst cs))"
    using step_text_bindings [of cs] s by simp
  show ?case
    using "1.IH" [of cs' r] s h by (subst step_while_row.simps) (simp split: if_splits)
qed

lemma bind_parameter_text_bindings:
  "set (text_bindings (calls (fst (fst (fst (bind_parameter cs i v))))))
     \<subseteq> set (text_bindings (calls (fst cs))) \<union> {SQLITE_TRANSIENT}"
  by (cases v)
     (auto simp: bind_parameter_def sqlite3_bind_text16_def sqlite3_bind_null_def Let_def
        split: prod.splits if_splits)

lemma bind_parameters_text_bindings:
  "set (text_bindings (calls (fst (fst (bind_parameters cs i vs)))))
     \<subseteq> set (text_bindings (calls (fst cs))) \<union> {SQLITE_TRANSIENT}"
proof (induction vs arbitrary: cs i)
  case Nil
  show ?case by auto
next
  case (Cons v vs)
  obtain cs' j r where b: "bind_parameter cs i v = ((cs', j), r)"
    by (metis surj_pair)
  have h: "set (text_bindings (calls (fst cs'))) \<subseteq> set (text_bindings (calls (fst cs))) \<union> {SQLITE_TRANSIENT}"
    using bind_parameter_text_bindings [of cs i v] b by simp
  show ?case
  proof (cases r)
    case None
    then show ?thesis using b h Cons.IH [of cs' j] by auto
  next
    case (Some e)
    then show ?thesis using b h by auto
  qed
qed

lemma prepare_text_bindings:
  "text_bindings (calls (fst (sqlite3_prepare16_v2 E c q))) = text_bindings (calls c)"
  by (simp add: sqlite3_prepare16_v2_def record_call_def split: sum.splits)

lemma finalize_text_bindings:
  "text_bindings (calls (sqlite3_finalize cs)) = text_bindings (calls (fst cs))"
  by (simp add: sqlite3_finalize_def record_call_def)

lemma execute_non_query_text_bindings:
  "set (text_bindings (calls (fst (execute_non_query E c q ps))))
     \<subseteq> set (text_bindings (calls c)) \<union> {SQLITE_TRANSIENT}"
proof -
  obtain c' r so where p: "sqlite3_prepare16_v2 E c q = (c', (r, so))"
    by (metis surj_pair)
  have c': "text_bindings (calls c') = text_bindings (calls c)"
    using prepare_text_bindings [of E c q] p by simp
  show ?thesis
  proof (cases so)
    case None
    then show ?thesis using p c' by (auto simp: execute_non_query_def)
  next
    case (Some st)
    obtain cs e where b: "bind_parameters (c', st) 1 ps = (cs, e)"
      by (metis surj_pair)
    have hb: "set (text_bindings (calls (fst cs))) \<subseteq> set (text_bindings (calls c)) \<union> {SQLITE_TRANSIENT}"
      using bind_parameters_text_bindings [of "(c', st)" 1 ps] b c' by simp
    obtain cs2 r2 where w: "step_while_row cs = (cs2, r2)"
      by (metis surj_pair)
    have hw: "text_bindings (calls (fst cs2)) = text_bindings (calls (fst cs))"
      using step_while_row_text_bindings [of cs] w by simp
    show ?thesis
      using p Some b w hb hw c'
      by (cases e) (auto simp: execute_non_query_def Let_def finalize_text_bindings)
  qed
qed

lemma execute_scalar_int_text_bindings:
  "set (text_bindings (calls (fst (execute_scalar_int E c q ps))))
     \<subseteq> set (text_bindings (calls c)) \<union> {SQLITE_TRANSIENT}"
proof -
  obtain c' r so where p: "sqlite3_prepare16_v2 E c q = (c', (r, so))"
    by (metis surj_pair)
  have c': "text_bindings (calls c') = text_bindings (calls c)"
    using prepare_text_bindings [of E c q] p by simp
  show ?thesis
  proof (cases so)
    case None
    then show ?thesis using p c' by (auto simp: execute_scalar_int_def)
  next
    case (Some st)
    obtain cs e where b: "bind_parameters (c', st) 1 ps = (cs, e)"
      by (metis surj_pair)
    have hb: "set (text_bindings (calls (fst cs))) \<subseteq> set (text_bindings (calls c)) \<union> {SQLITE_TRANSIENT}"
      using bind_parameters_text_bindings [of "(c', st)" 1 ps] b c' by simp
    obtain cs2 r2 where w: "sqlite3_step cs = (cs2, r2)"
      by (metis surj_pair)
    have hw: "text_bindings (calls (fst cs2)) = text_bindings (calls (fst cs))"
      using step_text_bindings [of cs] w by simp
    show ?thesis
      using p Some b w hb hw c'
      by (cases e) (auto simp: execute_scalar_int_def finalize_text_bindings)
  qed
qed

lemma execute_scalar_int64_text_bindings:
  "set (text_bindings (calls (fst (execute_scalar_int64 E c q ps))))
     \<subseteq> set (text_bindings (calls c)) \<union> {SQLITE_TRANSIENT}"
proof -
  obtain c' r so where p: "sqlite3_prepare16_v2 E c q = (c', (r, so))"
    by (metis surj_pair)
  have c': "text_bindings (calls c') = text_bindings (calls c)"
    using prepare_text_bindings [of E c q] p by simp
  show ?thesis
  proof (cases so)
    case None
    then show ?thesis using p c' by (auto simp: execute_scalar_int64_def)
  next
    case (Some st)
    obtain cs e where b: "bind_parameters (c', st) 1 ps = (cs, e)"
      by (metis surj_pair)
    have hb: "set (text_bindings (calls (fst cs))) \<subseteq> set (text_bindings (calls c)) \<union> {SQLITE_TRANSIENT}"
      using bind_parameters_text_bindings [of "(c', st)" 1 ps] b c' by simp
    obtain cs2 r2 where w: "sqlite3_step cs = (cs2, r2)"
      by (metis surj_pair)
    have hw: "text_bindings (calls (fst cs2)) = text_bindings (calls (fst cs))"
      using step_text_bindings [of cs] w by simp
    show ?thesis
      using p Some b w hb hw c'
      by (cases e) (auto simp: execute_scalar_int64_def finalize_text_bindings)
  qed
qed

lemma import_files_text_bindings:
  "set (text_bindings (calls (fst (fst (import_files cs ts)))))
     \<subseteq> set (text_bindings (calls (fst cs))) \<union> {SQLITE_STATIC} \<and>
   (ts \<noteq> [] \<longrightarrow> SQLITE_STATIC \<in> set (text_bindings (calls (fst (fst (import_files cs ts))))))"
proof (induction ts arbitrary: cs)
  case Nil
  show ?case by auto
next
  case (Cons t ts)
  obtain cs1 r1 where b: "sqlite3_bind_text16 cs 1 t SQLITE_STATIC = (cs1, r1)" by (metis surj_pair)
  obtain cs2 r2 where s: "sqlite3_step cs1 = (cs2, r2)" by (metis surj_pair)
  obtain cs3 r3 where k: "sqlite3_clear_bindings cs2 = (cs3, r3)" by (metis surj_pair)
  obtain cs4 r4 where t: "sqlite3_reset cs3 = (cs4, r4)" by (metis surj_pair)
  have h1: "text_bindings (calls (fst cs1)) = text_bindings (calls (fst cs)) @ [SQLITE_STATIC]"
    using b by (auto simp: sqlite3_bind_text16_def Let_def record_call_def split: if_splits)
  have h2: "text_bindings (calls (fst cs2)) = text_bindings (calls (fst cs)) @ [SQLITE_STATIC]"
    using step_text_bindings [of cs1] s h1 by simp
  have h3: "text_bindings (calls (fst cs3)) = text_bindings (calls (fst cs)) @ [SQLITE_STATIC]"
    using k h2 by (auto simp: sqlite3_clear_bindings_def record_call_def)
  have h4: "text_bindings (calls (fst cs4)) = text_bindings (calls (fst cs)) @ [SQLITE_STATIC]"
    using t h3 by (auto simp: sqlite3_reset_def record_call_def Let_def)
  show ?case
    using b s k t h1 h2 h3 h4 Cons.IH [of cs4]
    by (auto split: if_splits)
qed

lemma import_statement_text_bindings:
  "set (text_bindings (calls (fst (import_statement E W c p q))))
     \<subseteq> set (text_bindings (calls c)) \<union> {SQLITE_STATIC}"
proof -
  obtain c' r so where pr: "sqlite3_prepare16_v2 E c q = (c', (r, so))"
    by (metis surj_pair)
  have c': "text_bindings (calls c') = text_bindings (calls c)"
    using prepare_text_bindings [of E c q] pr by simp
  show ?thesis
  proof (cases so)
    case None
    then show ?thesis using pr c' by (auto simp: import_statement_def)
  next
    case (Some st)
    obtain cs e where b: "import_files (c', st) (map snd (Directory_GetFiles W p)) = (cs, e)"
      by (metis surj_pair)
    have hb: "set (text_bindings (calls (fst cs))) \<subseteq> set (text_bindings (calls c)) \<union> {SQLITE_STATIC}"
      using import_files_text_bindings [of "(c', st)" "map snd (Directory_GetFiles W p)"] b c' by simp
    show ?thesis
      using pr Some b hb c'
      by (cases e) (auto simp: import_statement_def finalize_text_bindings)
  qed
qed

text \<open>
  C6, as stated, fails on the code: the insert loop of \<open>import_card\<close> binds the text of
  a file with \<open>SQLITE_STATIC\<close>, not with the transient mode.
\<close>

theorem import_card_binds_static_counterexample:
  "text_bindings (calls (fst (import_card (sqlite_engine plain_builtins) (one_file_world ''{}'')
      (open_connection card_table_only) [''in'', ''card'']))) = [SQLITE_STATIC]"
  by (simp add: import_card_def import_statement_def sqlite3_prepare16_v2_def sqlite_engine_def
      sqlite_compile_def schema_error_def open_connection_def fresh_conn_def new_sqlite_def
      card_table_only_def empty_database_def one_file_world_def Directory_GetFiles_def
      sqlite3_bind_text16_def sqlite3_step_def Let_def record_call_def sqlite3_finalize_def
      insert_select_def select_card_def json_arg_def plain_builtins_def)

text \<open>
  C6, amended. Every text binding that the three execution helpers make (through
  \<open>bind_parameter\<close>) passes the transient mode; every text binding that the insert loop of
  the import functions makes passes the static mode.
\<close>

theorem helpers_bind_transient_imports_bind_static:
  "set (text_bindings (calls (fst (execute_non_query E c q ps))))
     \<subseteq> set (text_bindings (calls c)) \<union> {SQLITE_TRANSIENT} \<and>
   set (text_bindings (calls (fst (execute_scalar_int E c q ps))))
     \<subseteq> set (text_bindings (calls c)) \<union> {SQLITE_TRANSIENT} \<and>
   set (text_bindings (calls (fst (execute_scalar_int64 E c q ps))))
     \<subseteq> set (text_bindings (calls c)) \<union> {SQLITE_TRANSIENT} \<and>
   set (text_bindings (calls (fst (import_statement E W c p q))))
     \<subseteq> set (text_bindings (calls c)) \<union> {SQLITE_STATIC}"
  using execute_non_query_text_bindings [of E c q ps] execute_scalar_int_text_bindings [of E c q ps]
    execute_scalar_int64_text_bindings [of E c q ps] import_statement_text_bindings [of E W c p q]
  by blast

section \<open>The base-64 functions on empty and null arguments\<close>

text \<open>
  C10. \<open>base64encode\<close> of a zero-length blob, and of a null, is a null and not the empty
  string; a blob of at least one byte is encoded. \<open>base64decode\<close> of a null is a null and
  not an empty blob. So a non-empty blob that the operating system's two calls take to a
  text and back is returned by \<open>base64decode\<close> after \<open>base64encode\<close>, while the empty blob
  comes back as a null.
\<close>

theorem base64_null_for_empty:
  "base64encode enc [SQL_BLOB []] = Result_null \<and>
   base64encode enc [SQL_NULL] = Result_null \<and>
   base64decode dec [SQL_NULL] = Result_null \<and>
   (\<forall>v. fn_value (base64encode enc [SQL_BLOB []]) = Inr v \<longrightarrow>
        base64decode dec [v] = Result_null \<and> base64decode dec [v] \<noteq> Result_blob []) \<and>
   (b \<noteq> [] \<and> enc b = Some s \<and> dec s = Some b \<longrightarrow>
      base64encode enc [SQL_BLOB b] = Result_text16 s \<and>
      (\<forall>v. fn_value (base64encode enc [SQL_BLOB b]) = Inr v \<longrightarrow>
           base64decode dec [v] = Result_blob b))"
  by (auto simp: base64encode_def base64decode_def value_bytes_def value_blob_def
      value_text16_def fn_value_def Let_def)

theorem base64_null_for_empty_witness:
  "[77, 97, 110] \<noteq> ([] :: byte list) \<and>
   (\<lambda>b. if b = [77, 97, 110] then Some ''TWFu'' else None) [77, 97, 110 :: byte] = Some ''TWFu'' \<and>
   (\<lambda>t. if t = ''TWFu'' then Some [77, 97, 110 :: byte] else None) ''TWFu'' = Some [77, 97, 110] \<and>
   base64encode (\<lambda>b. if b = [77, 97, 110] then Some ''TWFu'' else None) [SQL_BLOB [77, 97, 110]]
     = Result_text16 ''TWFu'' \<and>
   base64decode (\<lambda>t. if t = ''TWFu'' then Some [77, 97, 110 :: byte] else None) [SQL_TEXT ''TWFu'']
     = Result_blob [77, 97, 110] \<and>
   base64encode (\<lambda>b. if b = [77, 97, 110] then Some ''TWFu'' else None) [SQL_BLOB []] = Result_null"
proof -
  note t = base64_null_for_empty [of "\<lambda>b. if b = [77, 97, 110] then Some ''TWFu'' else None"
      "\<lambda>t. if t = ''TWFu'' then Some [77, 97, 110 :: byte] else None" "[77, 97, 110]" "''TWFu''"]
  have f: "fn_value (Result_text16 ''TWFu'') = Inr (SQL_TEXT ''TWFu'')"
    by (simp add: fn_value_def)
  show ?thesis using t f by auto
qed

section \<open>Import: failure inside the transaction\<close>

lemma only_db_refl [simp]: "only_db s s"
  unfolding only_db_def by (rule exI [of _ "db s"]) simp

lemma only_db_trans: "only_db s s' \<Longrightarrow> only_db s' s'' \<Longrightarrow> only_db s s''"
  unfolding only_db_def by auto

lemma only_db_update [simp]: "only_db s (s\<lparr>db := d\<rparr>)"
  unfolding only_db_def by blast

lemma insert_card_only_db: "insert_card s r = Inr s' \<Longrightarrow> only_db s s'"
  by (auto simp: insert_card_def Let_def split: if_splits)

lemma insert_carddetail_only_db: "insert_carddetail B s r = Inr s' \<Longrightarrow> only_db s s'"
  by (auto simp: insert_carddetail_def Let_def split: if_splits)

lemma insert_cardfaq_only_db: "insert_cardfaq s r = Inr s' \<Longrightarrow> only_db s s'"
  by (auto simp: insert_cardfaq_def Let_def split: if_splits)

lemma insert_cardfaqrelated_only_db: "insert_cardfaqrelated s r = Inr s' \<Longrightarrow> only_db s s'"
  by (auto simp: insert_cardfaqrelated_def Let_def split: if_splits)

lemma insert_cardimage_only_db: "insert_cardimage s r = Inr s' \<Longrightarrow> only_db s s'"
  by (auto simp: insert_cardimage_def Let_def split: if_splits)

lemma insert_rows_only_db:
  assumes "\<And>s r s'. ins s r = Inr s' \<Longrightarrow> only_db s s'"
  shows "insert_rows ins rs s = Inr s' \<Longrightarrow> only_db s s'"
proof (induction rs arbitrary: s)
  case Nil
  then show ?case by simp
next
  case (Cons r rs)
  then show ?case
    by (auto split: sum.splits dest: assms intro: only_db_trans)
qed

lemma insert_select_only_db:
  assumes "\<And>s r s'. ins s r = Inr s' \<Longrightarrow> only_db s s'"
  shows "only_db s (after (insert_select sel ins s))"
  using insert_rows_only_db [of ins, OF assms]
  by (auto simp: insert_select_def split: sum.splits)

lemma run_insert_only_db: "only_db s (after (sqlite_run B (Insert_into t) b s))"
  by (cases t)
     (simp_all add: insert_select_only_db insert_card_only_db insert_carddetail_only_db
        insert_cardfaq_only_db insert_cardfaqrelated_only_db insert_cardimage_only_db)


lemma step_only_db:
  assumes "run (prog (snd cs)) = sqlite_run B (Insert_into t)"
  shows "only_db (store (fst cs)) (store (fst (fst (sqlite3_step cs))))"
    and "prog (snd (fst (sqlite3_step cs))) = prog (snd cs)"
  using assms run_insert_only_db [of "store (fst cs)" B t "bound (snd cs)"]
  by (auto simp: sqlite3_step_def Let_def split: list.splits)

lemma import_files_only_db:
  assumes "run (prog (snd cs)) = sqlite_run B (Insert_into t)"
  shows "only_db (store (fst cs)) (store (fst (fst (import_files cs ts))))"
  using assms
proof (induction ts arbitrary: cs)
  case Nil
  show ?case by simp
next
  case (Cons x ts)
  obtain cs1 r1 where b: "sqlite3_bind_text16 cs 1 x SQLITE_STATIC = (cs1, r1)" by (metis surj_pair)
  obtain cs2 r2 where s: "sqlite3_step cs1 = (cs2, r2)" by (metis surj_pair)
  obtain cs3 r3 where k: "sqlite3_clear_bindings cs2 = (cs3, r3)" by (metis surj_pair)
  obtain cs4 r4 where t: "sqlite3_reset cs3 = (cs4, r4)" by (metis surj_pair)
  have h1: "store (fst cs1) = store (fst cs)" "prog (snd cs1) = prog (snd cs)"
    using b by (auto simp: sqlite3_bind_text16_def Let_def split: if_splits)
  have h2: "only_db (store (fst cs)) (store (fst cs2))" "prog (snd cs2) = prog (snd cs)"
    using step_only_db [of cs1 B t] s h1 Cons.prems by simp_all
  have h3: "store (fst cs3) = store (fst cs2)" "prog (snd cs3) = prog (snd cs)"
    using k h2 by (auto simp: sqlite3_clear_bindings_def)
  have h4: "store (fst cs4) = store (fst cs2)" "prog (snd cs4) = prog (snd cs)"
    using t h3 by (auto simp: sqlite3_reset_def Let_def)
  have r3: "r3 = SQLITE_OK" using k by (auto simp: sqlite3_clear_bindings_def)
  have "only_db (store (fst cs4)) (store (fst (fst (import_files cs4 ts))))"
    using Cons.IH [of cs4] h4 Cons.prems by simp
  then have "only_db (store (fst cs2)) (store (fst (fst (import_files cs4 ts))))"
    by (simp add: h4(1))
  then have rec: "only_db (store (fst cs)) (store (fst (fst (import_files cs4 ts))))"
    by (rule only_db_trans [OF h2(1)])
  have e: "import_files cs (x # ts) =
      (if r1 \<noteq> SQLITE_OK then (cs1, Some (SQLiteException r1))
       else if r2 \<noteq> SQLITE_DONE then (cs2, Some (SQLiteException r2))
       else if r4 \<noteq> SQLITE_OK then (cs4, Some (SQLiteException r4))
       else import_files cs4 ts)"
    using b s k t r3 by simp
  show ?case
    unfolding e using rec h1(1) h2(1) h4(1) by auto
qed

lemma import_statement_only_db:
  "only_db (store c) (store (fst (import_statement (sqlite_engine B) W c p (Insert_into t))))"
proof -
  let ?E = "sqlite_engine B"
  show ?thesis
  proof (cases "compile ?E (Insert_into t) (store c)")
    case (Inl e)
    then show ?thesis by (simp add: import_statement_def sqlite3_prepare16_v2_def)
  next
    case (Inr P)
    then have P: "run P = sqlite_run B (Insert_into t)"
      by (auto simp: sqlite_engine_def sqlite_compile_def split: if_splits)
    let ?c = "(record_call (Prepare (Insert_into t)) c)\<lparr>handles := Suc (handles c)\<rparr>"
    let ?st = "\<lparr>prog = P, bound = (\<lambda>_. SQL_NULL), started = False, pending = [],
                fin = None, current = []\<rparr> :: sqlite stmt"
    have "only_db (store (fst (?c, ?st)))
            (store (fst (fst (import_files (?c, ?st) (map snd (Directory_GetFiles W p))))))"
      by (rule import_files_only_db [of _ B t]) (simp add: P)
    then show ?thesis
      using Inr
      by (auto simp: import_statement_def sqlite3_prepare16_v2_def record_call_def
          sqlite3_finalize_def split: prod.splits option.splits)
  qed
qed

lemma and_then_only_db:
  assumes "only_db s (store (fst r))"
    and "\<And>c a. only_db (store (fst r)) (store (fst (f (fst r) a)))"
  shows "only_db s (store (fst (and_then r f)))"
  using assms
  by (cases r) (auto simp: and_then_def split: sum.splits intro: only_db_trans)

lemma import_tables_only_db:
  "only_db (store c) (store (fst (import_tables (sqlite_engine B) W c p)))"
proof (cases "Directory_Exists W (Path_Combine p ''card'')")
  case False
  then show ?thesis by (simp add: import_tables_def Let_def)
next
  case True
  have "only_db (store c) (store (fst (
        and_then (import_card (sqlite_engine B) W c (Path_Combine p ''card'')) (\<lambda>c _.
        and_then (import_carddetail (sqlite_engine B) W c (Path_Combine p ''card'')) (\<lambda>c _.
        and_then (import_cardfaq (sqlite_engine B) W c (Path_Combine p ''card'')) (\<lambda>c _.
        and_then (import_cardfaqrelated (sqlite_engine B) W c (Path_Combine p ''card'')) (\<lambda>c _.
        import_cardimage (sqlite_engine B) W c (Path_Combine p ''card''))))))))"
    unfolding import_card_def import_carddetail_def import_cardfaq_def
      import_cardfaqrelated_def import_cardimage_def
    apply (rule and_then_only_db, rule import_statement_only_db)
    apply (rule and_then_only_db, rule import_statement_only_db)
    apply (rule and_then_only_db, rule import_statement_only_db)
    apply (rule and_then_only_db, rule import_statement_only_db)
    apply (rule import_statement_only_db)
    done
  then show ?thesis using True by (simp add: import_tables_def Let_def)
qed

lemma open_connection_facts:
  "\<not> closed (store (open_connection d))" "db (store (open_connection d)) = d"
  "snapshot (store (open_connection d)) = None"
  "calls (open_connection d :: (sql, sqlite) conn) = []"
  "handles (open_connection d) = 0"
  by (simp_all add: open_connection_def fresh_conn_def new_sqlite_def)

lemma Import_open_Inr:
  assumes "Import_open (sqlite_engine B) W p out = (W3, Inr handle)"
  shows "handle = fst (InitializeInstance (sqlite_engine B) (open_connection empty_database))"
    and "\<not> closed (store handle)" and "snapshot (store handle) = None"
    and "db (store handle) = empty_database\<lparr>user_version := 1,
           tables := {Card, CardDetail, CardFaq, CardFaqRelated, CardImage}\<rparr>"
    and "foreign_keys (store handle)" and "extended_result_codes (store handle)"
proof -
  show h: "handle = fst (InitializeInstance (sqlite_engine B) (open_connection empty_database))"
    using assms
    by (auto simp: Import_open_def sqlite3_open16_def Let_def
        split: if_splits prod.splits bool.splits sum.splits)
  have e: "user_version (db (store (open_connection empty_database))) = 0"
    "tables (db (store (open_connection empty_database))) = {}"
    by (simp_all add: open_connection_facts empty_database_def)
  note v = InitializeInstance_v0 [OF open_connection_facts(1) e, of B]
  show "\<not> closed (store handle)" "snapshot (store handle) = None"
    "db (store handle) = empty_database\<lparr>user_version := 1,
           tables := {Card, CardDetail, CardFaq, CardFaqRelated, CardImage}\<rparr>"
    "foreign_keys (store handle)" "extended_result_codes (store handle)"
    using v h by (simp_all add: open_connection_facts)
qed

lemma begin_transaction:
  assumes "\<not> closed (store c)" "snapshot (store c) = None"
  shows "snd (Import_execute_non_query (sqlite_engine B) c Begin_immediate_transaction) = Inr (changes c)"
    and "store (fst (Import_execute_non_query (sqlite_engine B) c Begin_immediate_transaction)) =
           (store c)\<lparr>snapshot := Some (db (store c))\<rparr>"
proof -
  have ne: "\<not> schema_error Begin_immediate_transaction (db (store c))"
    by (simp add: schema_error_def)
  note r = Import_execute_non_query_Inr [OF sqlite_compile_ok [OF assms(1) ne, of B]]
  show "snd (Import_execute_non_query (sqlite_engine B) c Begin_immediate_transaction) = Inr (changes c)"
    using r(3) assms(2) by (simp add: run_defs)
  show "store (fst (Import_execute_non_query (sqlite_engine B) c Begin_immediate_transaction)) =
           (store c)\<lparr>snapshot := Some (db (store c))\<rparr>"
    using r(1) assms(2) by (simp add: run_defs)
qed


lemma only_db_fields:
  "only_db s s' \<Longrightarrow> closed s' = closed s \<and> snapshot s' = snapshot s \<and>
     foreign_keys s' = foreign_keys s \<and> extended_result_codes s' = extended_result_codes s"
  by (auto simp: only_db_def)










section \<open>Order of the exported arrays\<close>

lemma set_insort_by [simp]: "set (insort_by le x xs) = insert x (set xs)"
  by (induction xs) auto

lemma mset_insort_by [simp]: "mset (insort_by le x xs) = add_mset x (mset xs)"
  by (induction xs) auto

lemma mset_sort_by [simp]: "mset (sort_by le xs) = mset xs"
  by (induction xs) (simp_all add: sort_by_def)

lemma set_sort_by [simp]: "set (sort_by le xs) = set xs"
  by (metis mset_sort_by set_mset_mset)

lemma sort_by_Nil [simp]: "sort_by le xs = [] \<longleftrightarrow> xs = []"
  by (metis mset_sort_by mset_zero_iff)

























section \<open>An import seen from the store\<close>

lemma only_rows_refl [simp]: "only_rows s s"
  by (simp add: only_rows_def)

lemma only_rows_trans: "only_rows s s' \<Longrightarrow> only_rows s' s'' \<Longrightarrow> only_rows s s''"
  by (auto simp: only_rows_def intro: only_db_trans)

lemma only_rows_fields:
  "only_rows s s' \<Longrightarrow> closed s' = closed s \<and> snapshot s' = snapshot s \<and>
     foreign_keys s' = foreign_keys s \<and> extended_result_codes s' = extended_result_codes s \<and>
     tables (db s') = tables (db s) \<and> user_version (db s') = user_version (db s)"
  by (auto simp: only_rows_def only_db_def)

lemma insert_card_Inr:
  assumes "insert_card s r = Inr s'"
  shows "s' = s\<lparr>db := (db s)\<lparr>card := card (db s) @ [card_affinity r]\<rparr>\<rparr>"
    and "c_cardid (card_affinity r) \<noteq> SQL_NULL"
    and "\<forall>x \<in> set (card (db s)). c_cardid x \<noteq> c_cardid (card_affinity r)"
  using assms by (auto simp: insert_card_def Let_def sql_eq_def split: if_splits)

lemma insert_carddetail_Inr:
  assumes "insert_carddetail B s r = Inr s'"
  shows "s' = s\<lparr>db := (db s)\<lparr>carddetail := carddetail (db s) @ [detail_affinity B r]\<rparr>\<rparr>"
  using assms by (auto simp: insert_carddetail_def Let_def split: if_splits)

lemma insert_cardfaq_Inr:
  assumes "insert_cardfaq s r = Inr s'"
  shows "s' = s\<lparr>db := (db s)\<lparr>cardfaq := cardfaq (db s) @ [faq_affinity r]\<rparr>\<rparr>"
  using assms by (auto simp: insert_cardfaq_def Let_def split: if_splits)

lemma insert_cardfaqrelated_Inr:
  assumes "insert_cardfaqrelated s r = Inr s'"
  shows "s' = s\<lparr>db := (db s)\<lparr>cardfaqrelated := cardfaqrelated (db s) @ [related_affinity r]\<rparr>\<rparr>"
  using assms by (auto simp: insert_cardfaqrelated_def Let_def split: if_splits)

lemma insert_cardimage_Inr:
  assumes "insert_cardimage s r = Inr s'"
  shows "s' = s\<lparr>db := (db s)\<lparr>cardimage := cardimage (db s) @ [image_affinity r]\<rparr>\<rparr>"
  using assms by (auto simp: insert_cardimage_def Let_def split: if_splits)

lemma insert_only_rows:
  "insert_card s c = Inr s' \<Longrightarrow> only_rows s s'"
  "insert_carddetail B s d = Inr s' \<Longrightarrow> only_rows s s'"
  "insert_cardfaq s f = Inr s' \<Longrightarrow> only_rows s s'"
  "insert_cardfaqrelated s r = Inr s' \<Longrightarrow> only_rows s s'"
  "insert_cardimage s i = Inr s' \<Longrightarrow> only_rows s s'"
  by (auto simp: only_rows_def dest!: insert_card_Inr(1) insert_carddetail_Inr insert_cardfaq_Inr
      insert_cardfaqrelated_Inr insert_cardimage_Inr)

lemma insert_rows_invariant:
  assumes "\<And>s r s'. ins s r = Inr s' \<Longrightarrow> I s \<Longrightarrow> I s'"
  shows "insert_rows ins rs s = Inr s' \<Longrightarrow> I s \<Longrightarrow> I s'"
proof (induction rs arbitrary: s)
  case Nil
  then show ?case by simp
next
  case (Cons r rs)
  then show ?case by (auto split: sum.splits dest: assms)
qed

lemma insert_rows_get:
  assumes "\<And>s r s'. ins s r = Inr s' \<Longrightarrow> g s' = g s @ [norm r]"
  shows "insert_rows ins rs s = Inr s' \<Longrightarrow> g s' = g s @ map norm rs"
proof (induction rs arbitrary: s)
  case Nil
  then show ?case by simp
next
  case (Cons r rs)
  then show ?case by (auto split: sum.splits dest!: assms)
qed

lemma insert_rows_keep:
  assumes "\<And>s r s'. ins s r = Inr s' \<Longrightarrow> h s' = h s"
  shows "insert_rows ins rs s = Inr s' \<Longrightarrow> h s' = h s"
  using insert_rows_invariant [of ins "\<lambda>x. h x = h s", OF _ _ refl] assms by metis

lemma insert_rows_only_rows:
  assumes "\<And>s r s'. ins s r = Inr s' \<Longrightarrow> only_rows s s'"
  shows "insert_rows ins rs s = Inr s' \<Longrightarrow> only_rows s s'"
  using insert_rows_invariant [of ins "only_rows s" rs s s'] assms only_rows_trans
  by (metis only_rows_refl)

lemma insert_rows_append:
  "insert_rows ins (xs @ ys) s =
     (case insert_rows ins xs s of Inl e \<Rightarrow> Inl e | Inr s' \<Rightarrow> insert_rows ins ys s')"
  by (induction xs arbitrary: s) (auto split: sum.splits)

lemma import_all_invariant:
  assumes "\<And>s r s'. ins s r = Inr s' \<Longrightarrow> I s \<Longrightarrow> I s'"
  shows "import_all sel ins ts s = Inr s' \<Longrightarrow> I s \<Longrightarrow> I s'"
proof (induction ts arbitrary: s)
  case Nil
  then show ?case by simp
next
  case (Cons t ts)
  from Cons.prems obtain rs s1 where t: "sel t = Inr rs" "insert_rows ins rs s = Inr s1"
    "import_all sel ins ts s1 = Inr s'"
    by (auto split: sum.splits)
  have "I s1"
    using insert_rows_invariant [of ins I rs s s1] assms t(2) Cons.prems(2) by blast
  then show ?case using Cons.IH [OF t(3)] by blast
qed

lemma import_all_keep:
  assumes "\<And>s r s'. ins s r = Inr s' \<Longrightarrow> h s' = h s"
  shows "import_all sel ins ts s = Inr s' \<Longrightarrow> h s' = h s"
  using import_all_invariant [of ins "\<lambda>x. h x = h s", OF _ _ refl] assms by metis

lemma import_all_only_rows:
  assumes "\<And>s r s'. ins s r = Inr s' \<Longrightarrow> only_rows s s'"
  shows "import_all sel ins ts s = Inr s' \<Longrightarrow> only_rows s s'"
  using import_all_invariant [of ins "only_rows s" sel ts s s'] assms only_rows_trans
  by (metis only_rows_refl)

text \<open>The rows that a successful run selected from each text.\<close>

lemma import_all_rows:
  assumes "\<And>s r s'. ins s r = Inr s' \<Longrightarrow> g s' = g s @ [norm r]"
  shows "import_all sel ins ts s = Inr s' \<Longrightarrow>
     \<exists>rss. map sel ts = map Inr rss \<and> g s' = g s @ map norm (concat rss) \<and>
           insert_rows ins (concat rss) s = Inr s'"
proof (induction ts arbitrary: s)
  case Nil
  then show ?case by simp
next
  case (Cons t ts)
  from Cons.prems obtain rs s1 where t: "sel t = Inr rs" "insert_rows ins rs s = Inr s1"
    "import_all sel ins ts s1 = Inr s'"
    by (auto split: sum.splits)
  from Cons.IH [OF t(3)] obtain rss where r: "map sel ts = map Inr rss"
    "g s' = g s1 @ map norm (concat rss)" "insert_rows ins (concat rss) s1 = Inr s'"
    by blast
  have g1: "g s1 = g s @ map norm rs"
    using insert_rows_get [of ins g norm, OF assms t(2)] by simp
  have "map sel (t # ts) = map Inr (rs # rss)" using t(1) r(1) by simp
  moreover have "g s' = g s @ map norm (concat (rs # rss))" using r(2) g1 by simp
  moreover have "insert_rows ins (concat (rs # rss)) s = Inr s'"
    using t(2) r(3) by (simp add: insert_rows_append)
  ultimately show ?case by blast
qed

lemma import_all_of_rows:
  "map sel ts = map Inr rss \<Longrightarrow>
   import_all sel ins ts s = insert_rows ins (concat rss) s"
proof (induction ts arbitrary: s rss)
  case Nil
  then show ?case by simp
next
  case (Cons t ts)
  then obtain rs rss' where r: "rss = rs # rss'" "sel t = Inr rs" "map sel ts = map Inr rss'"
    by (cases rss) auto
  show ?case
    using Cons.IH [OF r(3)] r by (simp add: insert_rows_append split: sum.splits)
qed

lemma insert_select_outcome:
  "rows (insert_select x ins s) = []"
  "final (insert_select x ins s) =
     (case x of Inl e \<Rightarrow> Some e
      | Inr rs \<Rightarrow> (case insert_rows ins rs s of Inl e \<Rightarrow> Some e | Inr s' \<Rightarrow> None))"
  "after (insert_select x ins s) =
     (case x of Inl e \<Rightarrow> s
      | Inr rs \<Rightarrow> (case insert_rows ins rs s of Inl e \<Rightarrow> s | Inr s' \<Rightarrow> s'))"
  by (simp_all add: insert_select_def split: sum.splits)

lemma import_files_step:
  fixes c :: "('q, sqlite) conn"
  assumes run: "\<And>b s. run P b s = insert_select (sel (b 1)) ins s" and n: "1 \<le> nparams P"
  defines "st0 \<equiv> \<lparr>prog = P, bound = (\<lambda>_. SQL_NULL), started = False, pending = [],
                    fin = None, current = []\<rparr>"
  shows "import_files (c, st0) (t # ts) =
     (case sel (SQL_TEXT t) of
        Inl e \<Rightarrow> (fst (sqlite3_step (fst (sqlite3_bind_text16 (c, st0) 1 t SQLITE_STATIC))),
                  Some (SQLiteException (SQLITE_FAIL e)))
      | Inr rs \<Rightarrow>
          (case insert_rows ins rs (store c) of
             Inl e \<Rightarrow> (fst (sqlite3_step (fst (sqlite3_bind_text16 (c, st0) 1 t SQLITE_STATIC))),
                       Some (SQLiteException (SQLITE_FAIL e)))
           | Inr s' \<Rightarrow>
               import_files
                 (c\<lparr>calls := calls c @ [Bind_text16 1 t SQLITE_STATIC, Step, Clear_bindings, Reset],
                    store := s', changes := int (length rs)\<rparr>, st0) ts))"
proof -
  let ?b = "(\<lambda>_. SQL_NULL)(1 := SQL_TEXT t)"
  let ?c1 = "record_call (Bind_text16 1 t SQLITE_STATIC) c"
  have b: "sqlite3_bind_text16 (c, st0) 1 t SQLITE_STATIC = ((?c1, st0\<lparr>bound := ?b\<rparr>), SQLITE_OK)"
    using n by (simp add: sqlite3_bind_text16_def Let_def st0_def)
  let ?out = "insert_select (sel (SQL_TEXT t)) ins (store c)"
  have o: "run P ?b (store ?c1) = ?out" by (simp add: run)
  show ?thesis
  proof (cases "final ?out")
    case (Some e)
    have s: "snd (sqlite3_step (?c1, st0\<lparr>bound := ?b\<rparr>)) = SQLITE_FAIL e"
      using Some o by (simp add: sqlite3_step_def Let_def st0_def insert_select_outcome(1))
    have e1: "import_files (c, st0) (t # ts) =
        (fst (sqlite3_step (?c1, st0\<lparr>bound := ?b\<rparr>)), Some (SQLiteException (SQLITE_FAIL e)))"
      using b s by (simp add: prod_eq_iff split: prod.splits)
    have e2: "fst (sqlite3_bind_text16 (c, st0) 1 t SQLITE_STATIC) = (?c1, st0\<lparr>bound := ?b\<rparr>)"
      by (simp only: b fst_conv)
    have "(case sel (SQL_TEXT t) of Inl e \<Rightarrow> Some e
      | Inr rs \<Rightarrow> (case insert_rows ins rs (store c) of Inl e \<Rightarrow> Some e | Inr s' \<Rightarrow> None)) = Some e"
      using Some by (simp only: insert_select_outcome(2))
    then show ?thesis
      unfolding e1 e2 by (auto split: sum.splits)
  next
    case None
    then obtain rs s' where r: "sel (SQL_TEXT t) = Inr rs" "insert_rows ins rs (store c) = Inr s'"
      by (auto simp: insert_select_outcome(2) split: sum.splits)
    have out: "?out = \<lparr>rows = [], final = None, after = s', changed = Some (int (length rs))\<rparr>"
      using r by (simp add: insert_select_def)
    let ?c2 = "(record_call Step ?c1)\<lparr>store := s', changes := int (length rs)\<rparr>"
    let ?st2 = "st0\<lparr>bound := ?b, started := True, pending := [], fin := None\<rparr>"
    have s: "sqlite3_step (?c1, st0\<lparr>bound := ?b\<rparr>) = ((?c2, ?st2), SQLITE_DONE)"
      using o out by (simp add: sqlite3_step_def Let_def st0_def)
    have k: "sqlite3_clear_bindings (?c2, ?st2) =
        ((record_call Clear_bindings ?c2, ?st2\<lparr>bound := (\<lambda>_. SQL_NULL)\<rparr>), SQLITE_OK)"
      by (simp add: sqlite3_clear_bindings_def)
    have t: "sqlite3_reset (record_call Clear_bindings ?c2, ?st2\<lparr>bound := (\<lambda>_. SQL_NULL)\<rparr>) =
        ((record_call Reset (record_call Clear_bindings ?c2), st0), SQLITE_OK)"
      by (simp add: sqlite3_reset_def Let_def st0_def)
    have e1: "import_files (c, st0) (t # ts) =
        import_files (record_call Reset (record_call Clear_bindings ?c2), st0) ts"
      using b s k t by simp
    have e2: "record_call Reset (record_call Clear_bindings ?c2) =
        c\<lparr>calls := calls c @ [Bind_text16 1 t SQLITE_STATIC, Step, Clear_bindings, Reset],
          store := s', changes := int (length rs)\<rparr>"
      by (simp add: record_call_def)
    show ?thesis by (simp only: e1 e2 r sum.case)
  qed
qed

lemma import_files_import_all:
  fixes c :: "('q, sqlite) conn"
  assumes run: "\<And>b s. run P b s = insert_select (sel (b 1)) ins s" and n: "1 \<le> nparams P"
  defines "st0 \<equiv> \<lparr>prog = P, bound = (\<lambda>_. SQL_NULL), started = False, pending = [],
                    fin = None, current = []\<rparr>"
  shows "case import_all (\<lambda>t. sel (SQL_TEXT t)) ins ts (store c) of
           Inr s' \<Rightarrow> (\<exists>c'. import_files (c, st0) ts = ((c', st0), None) \<and> store c' = s')
         | Inl e \<Rightarrow> snd (import_files (c, st0) ts) = Some (SQLiteException (SQLITE_FAIL e))"
proof (induction ts arbitrary: c)
  case Nil
  show ?case by simp
next
  case (Cons t ts)
  note step = import_files_step [of P sel ins, OF run n, of c t ts, folded st0_def]
  show ?case
  proof (cases "sel (SQL_TEXT t)")
    case (Inl e)
    then show ?thesis using step by simp
  next
    case (Inr rs)
    show ?thesis
    proof (cases "insert_rows ins rs (store c)")
      case (Inl e)
      then show ?thesis using step Inr by simp
    next
      case s': (Inr s')
      let ?c = "c\<lparr>calls := calls c @ [Bind_text16 1 t SQLITE_STATIC, Step, Clear_bindings, Reset],
                  store := s', changes := int (length rs)\<rparr>"
      have a: "import_files (c, st0) (t # ts) = import_files (?c, st0) ts"
        using step Inr s' by simp
      have b: "import_all (\<lambda>t. sel (SQL_TEXT t)) ins (t # ts) (store c) =
          import_all (\<lambda>t. sel (SQL_TEXT t)) ins ts (store ?c)"
        using Inr s' by simp
      show ?thesis unfolding a b by (rule Cons.IH [of ?c])
    qed
  qed
qed

lemma execute_scalar_int64_Inr:
  fixes E :: "('q, 'd) engine" and c :: "('q, 'd) conn"
  assumes "compile E q (store c) = Inr p"
  shows "store (fst (execute_scalar_int64 E c q [])) = after (run p (\<lambda>_. SQL_NULL) (store c))"
    and "snd (execute_scalar_int64 E c q []) =
           (case rows (run p (\<lambda>_. SQL_NULL) (store c)) of
              r # rs \<Rightarrow> Inr (value_int64 E (cell r 0))
            | [] \<Rightarrow> (case final (run p (\<lambda>_. SQL_NULL) (store c)) of
                       None \<Rightarrow> Inr 0
                     | Some e \<Rightarrow> Inl (SQLiteException (SQLITE_FAIL e))))"
proof -
  let ?c = "(record_call (Prepare q) c)\<lparr>handles := Suc (handles c)\<rparr>"
  let ?st = "\<lparr>prog = p, bound = (\<lambda>_. SQL_NULL), started = False, pending = [],
              fin = None, current = []\<rparr> :: 'd stmt"
  obtain cs r where w: "sqlite3_step (?c, ?st) = (cs, r)" by (metis surj_pair)
  have n: "\<not> started ?st" by simp
  note f = step_fresh [OF n, of ?c, unfolded w]
  have e: "execute_scalar_int64 E c q [] =
      (if r = SQLITE_ROW then (sqlite3_finalize cs, Inr (sqlite3_column_int64 E (snd cs) 0))
       else if r \<noteq> SQLITE_DONE then (sqlite3_finalize cs, Inl (SQLiteException r))
       else (sqlite3_finalize cs, Inr 0))"
    using assms w by (simp add: execute_scalar_int64_def prepare_Inr)
  show "store (fst (execute_scalar_int64 E c q [])) = after (run p (\<lambda>_. SQL_NULL) (store c))"
    using e f by simp
  show "snd (execute_scalar_int64 E c q []) =
           (case rows (run p (\<lambda>_. SQL_NULL) (store c)) of
              r # rs \<Rightarrow> Inr (value_int64 E (cell r 0))
            | [] \<Rightarrow> (case final (run p (\<lambda>_. SQL_NULL) (store c)) of
                       None \<Rightarrow> Inr 0
                     | Some e \<Rightarrow> Inl (SQLiteException (SQLITE_FAIL e))))"
    using e f by (simp add: completion_def sqlite3_column_int64_def split: list.splits option.splits)
qed

lemma page_query_int:
  assumes "\<not> closed (store c)" "q = Pragma_page_size \<or> q = Pragma_page_count"
  shows "\<exists>c' n. execute_scalar_int (sqlite_engine B) c q [] = (c', Inr n) \<and> store c' = store c"
proof -
  have ne: "\<not> schema_error q (db (store c))"
    using assms(2) by (auto simp: schema_error_def)
  note r = execute_scalar_int_Inr [OF sqlite_compile_ok [OF assms(1) ne, of B]]
  have "store (fst (execute_scalar_int (sqlite_engine B) c q [])) = store c"
    using r(1) assms(2) by (auto simp: run_defs)
  moreover have "\<exists>n. snd (execute_scalar_int (sqlite_engine B) c q []) = Inr n"
    using r(3) assms(2) by (auto simp: run_defs)
  ultimately show ?thesis by (metis prod.collapse)
qed

lemma page_query_int64:
  assumes "\<not> closed (store c)" "q = Pragma_page_size \<or> q = Pragma_page_count"
  shows "\<exists>c' n. execute_scalar_int64 (sqlite_engine B) c q [] = (c', Inr n) \<and> store c' = store c"
proof -
  have ne: "\<not> schema_error q (db (store c))"
    using assms(2) by (auto simp: schema_error_def)
  note r = execute_scalar_int64_Inr [OF sqlite_compile_ok [OF assms(1) ne, of B]]
  have "store (fst (execute_scalar_int64 (sqlite_engine B) c q [])) = store c"
    using r(1) assms(2) by (auto simp: run_defs)
  moreover have "\<exists>n. snd (execute_scalar_int64 (sqlite_engine B) c q []) = Inr n"
    using r(2) assms(2) by (auto simp: run_defs)
  ultimately show ?thesis by (metis prod.collapse)
qed

lemma vacuum_statement:
  assumes "\<not> closed (store c)" "snapshot (store c) = None"
  shows "\<exists>c' n. execute_non_query (sqlite_engine B) c Vacuum_statement [] = (c', Inr n) \<and>
                store c' = store c"
proof -
  have ne: "\<not> schema_error Vacuum_statement (db (store c))"
    by (simp add: schema_error_def)
  note r = execute_non_query_Inr [OF sqlite_compile_ok [OF assms(1) ne, of B]]
  have "store (fst (execute_non_query (sqlite_engine B) c Vacuum_statement [])) = store c"
    using r(1) assms(2) by (simp add: run_defs)
  moreover have "\<exists>n. snd (execute_non_query (sqlite_engine B) c Vacuum_statement []) = Inr n"
    using r(3) assms(2) by (simp add: run_defs)
  ultimately show ?thesis by (metis prod.collapse)
qed

lemma Vacuum_sqlite:
  assumes "\<not> closed (store c)" "snapshot (store c) = None"
  shows "\<exists>c' sizes. Vacuum (sqlite_engine B) \<lparr>m_handle = c, m_disposed = False\<rparr> =
                       (\<lparr>m_handle = c', m_disposed = False\<rparr>, Inr sizes) \<and> store c' = store c"
proof -
  obtain c1 n1 where s1: "execute_scalar_int (sqlite_engine B) c Pragma_page_size [] = (c1, Inr n1)"
    "store c1 = store c"
    using page_query_int [OF assms(1), of Pragma_page_size B] by auto
  have k1: "\<not> closed (store c1)" "snapshot (store c1) = None" using s1(2) assms by simp_all
  obtain c2 n2 where s2: "execute_scalar_int64 (sqlite_engine B) c1 Pragma_page_count [] = (c2, Inr n2)"
    "store c2 = store c1"
    using page_query_int64 [OF k1(1), of Pragma_page_count B] by auto
  have k2: "\<not> closed (store c2)" "snapshot (store c2) = None" using s2(2) k1 by simp_all
  obtain c3 n3 where s3: "execute_non_query (sqlite_engine B) c2 Vacuum_statement [] = (c3, Inr n3)"
    "store c3 = store c2"
    using vacuum_statement [OF k2, of B] by auto
  have k3: "\<not> closed (store c3)" using s3(2) k2 by simp
  obtain c4 n4 where s4: "execute_scalar_int (sqlite_engine B) c3 Pragma_page_size [] = (c4, Inr n4)"
    "store c4 = store c3"
    using page_query_int [OF k3, of Pragma_page_size B] by auto
  have k4: "\<not> closed (store c4)" using s4(2) k3 by simp
  obtain c5 n5 where s5: "execute_scalar_int64 (sqlite_engine B) c4 Pragma_page_count [] = (c5, Inr n5)"
    "store c5 = store c4"
    using page_query_int64 [OF k4, of Pragma_page_count B] by auto
  have "Vacuum (sqlite_engine B) \<lparr>m_handle = c, m_disposed = False\<rparr> =
      (\<lparr>m_handle = c5, m_disposed = False\<rparr>,
       Inr (sint (word_of_int (n2 * n1) :: 64 word), sint (word_of_int (n5 * n4) :: 64 word)))"
    by (simp add: Vacuum_def and_then_def s1(1) s2(1) s3(1) s4(1) s5(1) Let_def)
  moreover have "store c5 = store c" using s1(2) s2(2) s3(2) s4(2) s5(2) by simp
  ultimately show ?thesis by blast
qed

lemma import_statement_sqlite:
  assumes nc: "\<not> closed (store c)" and t: "T \<in> tables (db (store c))"
    and run: "\<And>b s. sqlite_run B (Insert_into T) b s = insert_select (sel (b 1)) ins s"
  shows "case import_all (\<lambda>t. sel (SQL_TEXT t)) ins (map snd (Directory_GetFiles W p)) (store c) of
           Inr s' \<Rightarrow> snd (import_statement (sqlite_engine B) W c p (Insert_into T)) = Inr () \<and>
                     store (fst (import_statement (sqlite_engine B) W c p (Insert_into T))) = s'
         | Inl e \<Rightarrow> snd (import_statement (sqlite_engine B) W c p (Insert_into T)) =
                     Inl (SQLiteException (SQLITE_FAIL e))"
proof -
  let ?P = "\<lparr>nparams = Suc 0, run = sqlite_run B (Insert_into T)\<rparr>"
  let ?c = "(record_call (Prepare (Insert_into T)) c)\<lparr>handles := Suc (handles c)\<rparr>"
  let ?st = "\<lparr>prog = ?P, bound = (\<lambda>_. SQL_NULL), started = False, pending = [],
              fin = None, current = []\<rparr>"
  let ?ts = "map snd (Directory_GetFiles W p)"
  have ne: "\<not> schema_error (Insert_into T) (db (store c))"
    using t by (simp add: schema_error_def)
  have p: "sqlite3_prepare16_v2 (sqlite_engine B) c (Insert_into T) = (?c, (SQLITE_OK, Some ?st))"
    using prepare_Inr [OF sqlite_compile_ok [OF nc ne, of B]] by simp
  have r: "\<And>b s. run ?P b s = insert_select (sel (b 1)) ins s" by (simp add: run)
  have n: "1 \<le> nparams ?P" by simp
  note f = import_files_import_all [of ?P sel ins, OF r n, of ?c ?ts]
  have sc: "store ?c = store c" by simp
  obtain cs eo where i: "import_files (?c, ?st) ?ts = (cs, eo)" by (metis surj_pair)
  have e: "import_statement (sqlite_engine B) W c p (Insert_into T) =
      (case eo of Some e \<Rightarrow> (sqlite3_finalize cs, Inl e) | None \<Rightarrow> (sqlite3_finalize cs, Inr ()))"
    by (simp add: import_statement_def p i)
  show ?thesis
  proof (cases "import_all (\<lambda>t. sel (SQL_TEXT t)) ins ?ts (store c)")
    case (Inl x)
    then have "eo = Some (SQLiteException (SQLITE_FAIL x))" using f i sc by simp
    then show ?thesis using Inl e by simp
  next
    case (Inr s')
    then have "eo = None \<and> store (fst cs) = s'" using f i sc by auto
    then show ?thesis using Inr e by simp
  qed
qed

lemma import_step:
  fixes r :: "(sql, sqlite) conn \<times> (exn + unit)"
  assumes a: "case A of Inr s1 \<Rightarrow> snd r = Inr () \<and> store (fst r) = s1
                | Inl e \<Rightarrow> snd r = Inl (SQLiteException (SQLITE_FAIL e))"
    and k: "\<And>s1. A = Inr s1 \<Longrightarrow> store (fst r) = s1 \<Longrightarrow>
              (case K (store (fst r)) of
                 Inr s' \<Rightarrow> snd (f (fst r) ()) = Inr () \<and> store (fst (f (fst r) ())) = s'
               | Inl e \<Rightarrow> snd (f (fst r) ()) = Inl (SQLiteException (SQLITE_FAIL e)))"
  shows "case (case A of Inl e \<Rightarrow> Inl e | Inr s1 \<Rightarrow> K s1) of
           Inr s' \<Rightarrow> snd (and_then r f) = Inr () \<and> store (fst (and_then r f)) = s'
         | Inl e \<Rightarrow> snd (and_then r f) = Inl (SQLiteException (SQLITE_FAIL e))"
proof (cases A)
  case (Inl e)
  then show ?thesis using a by (simp add: and_then_alt)
next
  case (Inr s1)
  then have r: "snd r = Inr ()" "store (fst r) = s1" using a by simp_all
  show ?thesis using k [OF Inr r(2)] Inr r by (auto simp: and_then_alt split: sum.splits)
qed

lemma import_all_only_rows_tables:
  "import_all sel1 insert_card ts s = Inr s' \<Longrightarrow> only_rows s s'"
  "import_all sel2 (insert_carddetail B) ts s = Inr s' \<Longrightarrow> only_rows s s'"
  "import_all sel3 insert_cardfaq ts s = Inr s' \<Longrightarrow> only_rows s s'"
  "import_all sel4 insert_cardfaqrelated ts s = Inr s' \<Longrightarrow> only_rows s s'"
  "import_all sel5 insert_cardimage ts s = Inr s' \<Longrightarrow> only_rows s s'"
  by (erule import_all_only_rows [rotated], erule insert_only_rows)+

lemma import_tables_sqlite:
  assumes nc: "\<not> closed (store c)"
    and tb: "tables (db (store c)) = {Card, CardDetail, CardFaq, CardFaqRelated, CardImage}"
    and ex: "Directory_Exists W (Path_Combine p ''card'')"
  shows "case import_database B (map snd (Directory_GetFiles W (Path_Combine p ''card''))) (store c) of
           Inr s' \<Rightarrow> snd (import_tables (sqlite_engine B) W c p) = Inr () \<and>
                     store (fst (import_tables (sqlite_engine B) W c p)) = s'
         | Inl e \<Rightarrow> snd (import_tables (sqlite_engine B) W c p) =
                     Inl (SQLiteException (SQLITE_FAIL e))"
proof -
  let ?E = "sqlite_engine B"
  let ?q = "Path_Combine p ''card''"
  let ?ts = "map snd (Directory_GetFiles W ?q)"
  have ok: "\<not> closed s \<and> T \<in> tables (db s)" if "only_rows (store c) s" for s T
    using only_rows_fields [OF that] nc tb by (cases T) simp_all
  note st = import_statement_sqlite [of _ _ B _ _ W ?q]
  have e: "import_tables ?E W c p =
        and_then (import_card ?E W c ?q) (\<lambda>c _.
        and_then (import_carddetail ?E W c ?q) (\<lambda>c _.
        and_then (import_cardfaq ?E W c ?q) (\<lambda>c _.
        and_then (import_cardfaqrelated ?E W c ?q) (\<lambda>c _.
        import_cardimage ?E W c ?q))))"
    using ex by (simp add: import_tables_def Let_def)
  have o0: "only_rows (store c) (store c)" by simp
  show ?thesis
    unfolding e import_database_def
  proof (rule import_step, goal_cases)
    case 1
    show ?case unfolding import_card_def
      using st [of c Card "select_card B" insert_card] ok [OF o0] by simp
  next
    case (2 s1)
    let ?c1 = "fst (import_card ?E W c ?q)"
    have o1: "only_rows (store c) (store ?c1)"
      using 2 import_all_only_rows_tables(1) by blast
    show ?case
    proof (rule import_step, goal_cases)
      case 1
      show ?case unfolding import_carddetail_def
        using st [of ?c1 CardDetail "select_carddetail B" "insert_carddetail B"] ok [OF o1] by simp
    next
      case (2 s2)
      let ?c2 = "fst (import_carddetail ?E W ?c1 ?q)"
      have o2: "only_rows (store c) (store ?c2)"
        using 2 import_all_only_rows_tables(2) o1 only_rows_trans by blast
      show ?case
      proof (rule import_step, goal_cases)
        case 1
        show ?case unfolding import_cardfaq_def
          using st [of ?c2 CardFaq "select_cardfaq B" insert_cardfaq] ok [OF o2] by simp
      next
        case (2 s3)
        let ?c3 = "fst (import_cardfaq ?E W ?c2 ?q)"
        have o3: "only_rows (store c) (store ?c3)"
          using 2 import_all_only_rows_tables(3) o2 only_rows_trans by blast
        show ?case
        proof (rule import_step, goal_cases)
          case 1
          show ?case unfolding import_cardfaqrelated_def
            using st [of ?c3 CardFaqRelated "select_cardfaqrelated B" insert_cardfaqrelated]
              ok [OF o3] by simp
        next
          case (2 s4)
          let ?c4 = "fst (import_cardfaqrelated ?E W ?c3 ?q)"
          have o4: "only_rows (store c) (store ?c4)"
            using 2 import_all_only_rows_tables(4) o3 only_rows_trans by blast
          show ?case unfolding import_cardimage_def
            using st [of ?c4 CardImage "select_cardimage B" insert_cardimage] ok [OF o4] by simp
        qed
      qed
    qed
  qed
qed

lemma commit_transaction:
  assumes "\<not> closed (store c)" "snapshot (store c) = Some d"
  shows "snd (Import_execute_non_query (sqlite_engine B) c Commit_transaction) = Inr (changes c)"
    and "store (fst (Import_execute_non_query (sqlite_engine B) c Commit_transaction)) =
           (store c)\<lparr>snapshot := None\<rparr>"
proof -
  have ne: "\<not> schema_error Commit_transaction (db (store c))"
    by (simp add: schema_error_def)
  note r = Import_execute_non_query_Inr [OF sqlite_compile_ok [OF assms(1) ne, of B]]
  show "snd (Import_execute_non_query (sqlite_engine B) c Commit_transaction) = Inr (changes c)"
    using r(3) assms(2) by (simp add: run_defs)
  show "store (fst (Import_execute_non_query (sqlite_engine B) c Commit_transaction)) =
           (store c)\<lparr>snapshot := None\<rparr>"
    using r(1) assms(2) by (simp add: run_defs)
qed

lemma Import_open_world:
  assumes "Import_open E W p out = (W3, r)"
  shows "files W3 = files W" and "directories W \<subseteq> directories W3"
  using assms
  by (auto simp: Import_open_def try_create_directory_def sqlite3_open16_def Let_def
      File_Delete_def split: if_splits prod.splits option.splits sum.splits)

lemma Import_try_sqlite:
  assumes o: "Import_open (sqlite_engine B) W p out = (W3, Inr handle)"
  defines "s0 \<equiv> (store handle)\<lparr>snapshot := Some (db (store handle))\<rparr>"
  defines "ts \<equiv> map snd (Directory_GetFiles W3 (Path_Combine p ''card''))"
  shows "\<not> Directory_Exists W3 (Path_Combine p ''card'') \<Longrightarrow>
           \<exists>e. snd (Import_try (sqlite_engine B) s_result W3 handle p) = Inl e"
    and "import_database B ts s0 = Inl x \<Longrightarrow>
           \<exists>e. snd (Import_try (sqlite_engine B) s_result W3 handle p) = Inl e"
    and "s_result \<noteq> SQLITE_OK \<Longrightarrow>
           \<exists>e. snd (Import_try (sqlite_engine B) s_result W3 handle p) = Inl e"
    and "Directory_Exists W3 (Path_Combine p ''card'') \<Longrightarrow> import_database B ts s0 = Inr s' \<Longrightarrow>
         s_result = SQLITE_OK \<Longrightarrow>
           \<exists>c. Import_try (sqlite_engine B) s_result W3 handle p =
                  (c, Inr \<lparr>m_handle = c, m_disposed = False\<rparr>) \<and>
               store c = s'\<lparr>snapshot := None\<rparr>"
proof -
  let ?E = "sqlite_engine B"
  note h = Import_open_Inr [OF o]
  let ?cb = "fst (Import_execute_non_query ?E handle Begin_immediate_transaction)"
  note b = begin_transaction [OF h(2,3), of B]
  have sb: "store ?cb = s0" using b(2) by (simp add: s0_def)
  let ?cf = "fst (import_tables ?E W3 ?cb p)"
  have od: "only_db (store ?cb) (store ?cf)" by (rule import_tables_only_db)
  have cf: "\<not> closed (store ?cf)" "snapshot (store ?cf) = Some (db (store handle))"
    using only_db_fields [OF od] b(2) h(2) by simp_all
  have t: "Import_try ?E s_result W3 handle p =
      and_then (import_tables ?E W3 ?cb p) (\<lambda>c _.
      and_then (Import_execute_non_query ?E c Commit_transaction) (\<lambda>c _.
      if s_result \<noteq> SQLITE_OK
      then (c, Inl (Exception ''Static initialization failed''))
      else
       (case Vacuum ?E \<lparr>m_handle = c, m_disposed = False\<rparr> of
          (database, Inl e) \<Rightarrow> (m_handle database, Inl e)
        | (database, Inr sizes) \<Rightarrow> (m_handle database, Inr database))))"
    using b(1) by (simp add: Import_try_def and_then_alt)
  note k = commit_transaction [OF cf, of B]
  let ?cc = "fst (Import_execute_non_query ?E ?cf Commit_transaction)"
  have cc: "\<not> closed (store ?cc)" "snapshot (store ?cc) = None"
    using k(2) cf by simp_all
  obtain c' sizes where v: "Vacuum ?E \<lparr>m_handle = ?cc, m_disposed = False\<rparr> =
      (\<lparr>m_handle = c', m_disposed = False\<rparr>, Inr sizes)" "store c' = store ?cc"
    using Vacuum_sqlite [OF cc, of B] by blast
  have nb: "\<not> closed (store ?cb)"
    "tables (db (store ?cb)) = {Card, CardDetail, CardFaq, CardFaqRelated, CardImage}"
    using b(2) h(2,4) by simp_all
  {
    assume "\<not> Directory_Exists W3 (Path_Combine p ''card'')"
    then have "\<exists>e. snd (import_tables ?E W3 ?cb p) = Inl e"
      by (simp add: import_tables_def Let_def)
    then show "\<exists>e. snd (Import_try ?E s_result W3 handle p) = Inl e"
      unfolding t by (auto simp: and_then_alt)
  }
  {
    assume "s_result \<noteq> SQLITE_OK"
    then show "\<exists>e. snd (Import_try ?E s_result W3 handle p) = Inl e"
      unfolding t by (auto simp: and_then_alt split: sum.splits)
  }
  {
    assume x: "import_database B ts s0 = Inl x"
    show "\<exists>e. snd (Import_try ?E s_result W3 handle p) = Inl e"
    proof (cases "Directory_Exists W3 (Path_Combine p ''card'')")
      case True
      have "\<exists>e. snd (import_tables ?E W3 ?cb p) = Inl e"
        using import_tables_sqlite [OF nb True, of B] x by (simp add: sb ts_def)
      then show ?thesis unfolding t by (auto simp: and_then_alt)
    next
      case False
      then have "\<exists>e. snd (import_tables ?E W3 ?cb p) = Inl e"
        by (simp add: import_tables_def Let_def)
      then show ?thesis unfolding t by (auto simp: and_then_alt)
    qed
  }
  {
    assume ex: "Directory_Exists W3 (Path_Combine p ''card'')"
      and i: "import_database B ts s0 = Inr s'" and s: "s_result = SQLITE_OK"
    have f: "snd (import_tables ?E W3 ?cb p) = Inr ()" "store ?cf = s'"
      using import_tables_sqlite [OF nb ex, of B] i by (simp_all add: sb ts_def)
    have "Import_try ?E s_result W3 handle p = (c', Inr \<lparr>m_handle = c', m_disposed = False\<rparr>)"
      unfolding t using f(1) k(1) v(1) s by (simp add: and_then_alt)
    moreover have "store c' = s'\<lparr>snapshot := None\<rparr>"
      using v(2) k(2) f(2) by simp
    ultimately show "\<exists>c. Import_try ?E s_result W3 handle p =
                  (c, Inr \<lparr>m_handle = c, m_disposed = False\<rparr>) \<and>
               store c = s'\<lparr>snapshot := None\<rparr>"
      by blast
  }
qed

lemma Import_Inr:
  assumes i: "Import (sqlite_engine B) s_result W (Some p) (Some out) = (W', Inr database)"
  shows "\<exists>handle s'.
           Import_open (sqlite_engine B) W p out = (W', Inr handle) \<and>
           Directory_Exists W' (Path_Combine p ''card'') \<and> s_result = SQLITE_OK \<and>
           import_database B (map snd (Directory_GetFiles W' (Path_Combine p ''card'')))
             ((store handle)\<lparr>snapshot := Some (db (store handle))\<rparr>) = Inr s' \<and>
           store (m_handle database) = s'\<lparr>snapshot := None\<rparr> \<and> \<not> m_disposed database"
proof -
  let ?E = "sqlite_engine B"
  obtain W3 r where o: "Import_open ?E W p out = (W3, r)" by (metis surj_pair)
  obtain handle where r: "r = Inr handle"
    using i o by (cases r) (simp_all add: Import_def)
  note o = o [unfolded r]
  obtain c1 r1 where t: "Import_try ?E s_result W3 handle p = (c1, r1)" by (metis surj_pair)
  have r1: "r1 = Inr database" and w: "W' = W3"
    using i o t by (cases r1; simp add: Import_def split: prod.splits sum.splits)+
  note y = Import_try_sqlite [OF o, where s_result = s_result]
  let ?s0 = "(store handle)\<lparr>snapshot := Some (db (store handle))\<rparr>"
  let ?ts = "map snd (Directory_GetFiles W3 (Path_Combine p ''card''))"
  have ex: "Directory_Exists W3 (Path_Combine p ''card'')"
    using y(1) t r1 by auto
  have s: "s_result = SQLITE_OK"
    using y(3) t r1 by auto
  obtain s' where d: "import_database B ?ts ?s0 = Inr s'"
    using y(2) t r1 by (cases "import_database B ?ts ?s0") auto
  from y(4) [OF ex d s] obtain c where
    c: "Import_try ?E s_result W3 handle p = (c, Inr \<lparr>m_handle = c, m_disposed = False\<rparr>)"
       "store c = s'\<lparr>snapshot := None\<rparr>"
    by blast
  have "database = \<lparr>m_handle = c, m_disposed = False\<rparr>"
    using c(1) t r1 by simp
  then show ?thesis using o w ex s d c(2) by auto
qed

lemma Import_success:
  assumes o: "Import_open (sqlite_engine B) W p out = (W3, Inr handle)"
    and ex: "Directory_Exists W3 (Path_Combine p ''card'')"
    and d: "import_database B (map snd (Directory_GetFiles W3 (Path_Combine p ''card'')))
             ((store handle)\<lparr>snapshot := Some (db (store handle))\<rparr>) = Inr s'"
  shows "\<exists>c. Import (sqlite_engine B) SQLITE_OK W (Some p) (Some out) =
                (W3, Inr \<lparr>m_handle = c, m_disposed = False\<rparr>) \<and>
             store c = s'\<lparr>snapshot := None\<rparr>"
proof -
  from Import_try_sqlite(4) [OF o ex d refl] obtain c where
    c: "Import_try (sqlite_engine B) SQLITE_OK W3 handle p =
          (c, Inr \<lparr>m_handle = c, m_disposed = False\<rparr>)"
       "store c = s'\<lparr>snapshot := None\<rparr>"
    by blast
  show ?thesis using o c by (auto simp: Import_def)
qed


end
